(* ===== verification/Cairo_Prelude.thy ===== *)
theory Cairo_Prelude
  imports Complex_Main "HOL-Library.Word"
begin

text \<open>
  Shared vocabulary of the cairocffi surface model: bytes as 8-bit words, the fact
  collections the component theories fill, and generic lemmas on lists and maps
  (chunking of a byte string into the pieces a native callback receives, counting
  the keys of a map that satisfy a predicate).
\<close>

named_theorems native_simps "unfolding rules of the native cairo model"
named_theorems host_simps "unfolding rules of the Python-side wrapper model"

type_synonym byte = "8 word"
type_synonym bytes = "byte list"

section \<open>Positions in a list\<close>

primrec list_index :: "'a list \<Rightarrow> 'a \<Rightarrow> nat" where
  "list_index [] x = 0"
| "list_index (y # ys) x = (if y = x then 0 else Suc (list_index ys x))"

lemma list_index_less: "x \<in> set xs \<Longrightarrow> list_index xs x < length xs"
  by (induction xs) auto

lemma nth_list_index: "x \<in> set xs \<Longrightarrow> xs ! list_index xs x = x"
  by (induction xs) auto

lemma list_index_nth: "distinct xs \<Longrightarrow> i < length xs \<Longrightarrow> list_index xs (xs ! i) = i"
proof (induction xs arbitrary: i)
  case Nil
  then show ?case by simp
next
  case (Cons y ys)
  then show ?case by (cases i) (auto simp: nth_mem)
qed

section \<open>Chunking\<close>

text \<open>
  The native library hands a byte string to a stream callback in pieces of a size it
  chooses; \<open>chunks n xs\<close> splits \<open>xs\<close> into pieces of \<open>n\<close> elements, the last one
  possibly shorter.
\<close>

fun chunks :: "nat \<Rightarrow> 'a list \<Rightarrow> 'a list list" where
  "chunks n xs =
     (if n = 0 \<or> xs = [] then [] else take n xs # chunks n (drop n xs))"

declare chunks.simps [simp del]

lemma chunks_Nil [simp]: "chunks n [] = []"
  by (simp add: chunks.simps)

lemma chunks_Cons_pos:
  "0 < n \<Longrightarrow> xs \<noteq> [] \<Longrightarrow> chunks n xs = take n xs # chunks n (drop n xs)"
  by (simp add: chunks.simps)

lemma concat_chunks [simp]: "0 < n \<Longrightarrow> concat (chunks n xs) = xs"
proof (induction n xs rule: chunks.induct)
  case (1 n xs)
  then show ?case
    by (cases "xs = []") (simp_all add: chunks_Cons_pos)
qed

lemma chunks_nonempty: "ys \<in> set (chunks n xs) \<Longrightarrow> ys \<noteq> [] \<and> length ys \<le> n"
proof (induction n xs rule: chunks.induct)
  case (1 n xs)
  show ?case
  proof (cases "n = 0 \<or> xs = []")
    case True
    with "1.prems" show ?thesis by (auto simp: chunks.simps)
  next
    case False
    with "1.prems" "1.IH" show ?thesis by (auto simp: chunks_Cons_pos)
  qed
qed

lemma chunks_length_dvd:
  "n dvd length xs \<Longrightarrow> ys \<in> set (chunks n xs) \<Longrightarrow> length ys = n"
proof (induction n xs rule: chunks.induct)
  case (1 n xs)
  show ?case
  proof (cases "n = 0 \<or> xs = []")
    case True
    with "1.prems" show ?thesis by (auto simp: chunks.simps)
  next
    case False
    then have "n \<le> length xs" using "1.prems"(1) by (auto dest: dvd_imp_le)
    moreover have "n dvd length (drop n xs)" using "1.prems"(1) by (simp add: dvd_diff_nat)
    ultimately show ?thesis using False "1.prems"(2) "1.IH" by (auto simp: chunks_Cons_pos)
  qed
qed

lemma length_chunks_dvd:
  "0 < n \<Longrightarrow> n dvd length xs \<Longrightarrow> length (chunks n xs) = length xs div n"
proof (induction n xs rule: chunks.induct)
  case (1 n xs)
  show ?case
  proof (cases "xs = []")
    case False
    then have "n \<le> length xs" using "1.prems" by (auto dest: dvd_imp_le)
    moreover have "n dvd length (drop n xs)" using "1.prems"(2) by (simp add: dvd_diff_nat)
    moreover have "length (drop n xs) div n = length xs div n - 1"
      using "1.prems"(1) \<open>n \<le> length xs\<close> le_div_geq [of n "length xs"] by simp
    moreover have "0 < length xs div n" using \<open>n \<le> length xs\<close> "1.prems"(1) by (simp add: div_greater_zero_iff)
    ultimately show ?thesis using False "1.prems"(1) "1.IH" by (simp add: chunks_Cons_pos)
  qed simp
qed

lemma chunks_zero [simp]: "chunks 0 xs = []"
  by (simp add: chunks.simps)

lemma chunks_append_dvd:
  "n dvd length xs \<Longrightarrow> chunks n (xs @ ys) = chunks n xs @ chunks n ys"
proof (induction n xs rule: chunks.induct)
  case (1 n xs)
  show ?case
  proof (cases "n = 0 \<or> xs = []")
    case True
    then show ?thesis by auto
  next
    case False
    then have le: "n \<le> length xs" and pos: "0 < n" and ne: "xs \<noteq> []"
      using "1.prems" by (auto dest: dvd_imp_le)
    have "n dvd length (drop n xs)" using "1.prems" by (simp add: dvd_diff_nat)
    then have IH: "chunks n (drop n xs @ ys) = chunks n (drop n xs) @ chunks n ys"
      using "1.IH" False by blast
    have "chunks n (xs @ ys) = take n (xs @ ys) # chunks n (drop n (xs @ ys))"
      using pos ne by (intro chunks_Cons_pos) simp_all
    also have "\<dots> = take n xs # chunks n (drop n xs @ ys)" using le by simp
    also have "\<dots> = chunks n xs @ chunks n ys"
      using IH pos ne by (simp add: chunks_Cons_pos [of n xs])
    finally show ?thesis .
  qed
qed

lemma chunks_concat_dvd:
  "\<forall>xs \<in> set xss. n dvd length xs \<Longrightarrow> chunks n (concat xss) = concat (map (chunks n) xss)"
  by (induction xss) (simp_all add: chunks_append_dvd)

lemma concat_rows:
  "length d = k * h \<Longrightarrow> concat (map (\<lambda>r. take k (drop (r * k) d)) [0..<h]) = d"
proof (induction h arbitrary: d)
  case 0
  then show ?case by simp
next
  case (Suc h)
  have "map (\<lambda>r. take k (drop (r * k) d)) [0..<Suc h] =
        take k d # map (\<lambda>r. take k (drop (r * k) (drop k d))) [0..<h]"
    by (simp del: upt_Suc add: upt_conv_Cons map_Suc_upt [symmetric] add.commute)
  moreover have "length (drop k d) = k * h" using Suc.prems by simp
  ultimately show ?case using Suc.IH [of "drop k d"] by simp
qed

lemma take_take_append: "take k (take k xs @ ys) = take k (xs @ ys)"
  by (simp add: take_append min_def)

lemma chunks_concat:
  "0 < n \<Longrightarrow> \<forall>xs \<in> set xss. length xs = n \<Longrightarrow> chunks n (concat xss) = xss"
  by (induction xss) (auto simp: chunks_Cons_pos)

lemma length_concat_map_const:
  "(\<And>x. x \<in> set xs \<Longrightarrow> length (f x) = k) \<Longrightarrow> length (concat (map f xs)) = k * length xs"
  by (induction xs) auto

lemma length_expand_chunks:
  assumes "length row = k * n" "0 < k" "\<And>p. length p = k \<Longrightarrow> length (f p) = 4"
  shows "length (concat (map f (chunks k row))) = 4 * n"
proof -
  have d: "k dvd length row" using assms(1) by simp
  have "length (concat (map f (chunks k row))) = 4 * length (chunks k row)"
    by (rule length_concat_map_const) (simp add: assms(3) chunks_length_dvd [OF d])
  then show ?thesis using length_chunks_dvd [OF assms(2) d] assms(1,2) by simp
qed

section \<open>Words\<close>

unbundle bit_operations_syntax

text \<open>Rounding down to a multiple of four by masking, as C does with \<open>x & -4\<close>.\<close>

lemma word_and_not_mask_sub: "(z::'a::len word) AND NOT (mask n) = z - take_bit n z"
  by (metis (no_types, lifting) and.left_commute bit.conj_one_right
    bit.conj_xor_distrib2 disjunctive_and_not_eq_xor
    disjunctive_diff_eq_and_not take_bit_eq_mask word_and_not)

lemma unat_byte_le: "unat (x::byte) \<le> 255"
  using unsigned_less [of x, where 'a = nat] by simp

lemma unat_of_nat_byte: "unat (of_nat n :: byte) = n mod 256"
  by (simp add: unat_of_nat)

lemma unat_and_not_3: "unat ((z::32 word) AND NOT 3) = 4 * (unat z div 4)"
proof -
  have m: "(3::32 word) = mask 2" by (simp add: mask_eq_exp_minus_1)
  have le: "take_bit 2 z \<le> z"
    by (simp add: take_bit_eq_mask word_and_le2)
  have "unat (z AND NOT 3) = unat (z - take_bit 2 z)"
    by (simp only: m word_and_not_mask_sub)
  also have "\<dots> = unat z - unat z mod 4"
    using le by (simp add: unat_sub take_bit_eq_mod unat_mod_distrib)
  also have "\<dots> = 4 * (unat z div 4)"
    by (simp add: minus_mod_eq_mult_div)
  finally show ?thesis .
qed

section \<open>Maps\<close>

text \<open>Association lists keyed by a mime type.\<close>

lemma filter_key_absent: "map_of xs k = None \<Longrightarrow> filter (\<lambda>(k', _). k' \<noteq> k) xs = xs"
  by (induction xs) (auto split: if_splits)

end
