(* ===== verification/Cairo_Status.thy ===== *)
theory Cairo_Status
  imports Cairo_Prelude
begin

text \<open>
  Status codes of the native library (\<open>cairo_status_t\<close>, numbered as in \<open>cairo.h\<close>),
  their integer codes, the binding's status check \<open>_check_status\<close> (imported by
  \<open>surfaces.py\<close> from the package root, so modelled from the spec) and the errors
  a call of the binding can raise.
\<close>

datatype cairo_status =
    SUCCESS | NO_MEMORY | INVALID_RESTORE | INVALID_POP_GROUP | NO_CURRENT_POINT
  | INVALID_MATRIX | INVALID_STATUS | NULL_POINTER | INVALID_STRING | INVALID_PATH_DATA
  | READ_ERROR | WRITE_ERROR | SURFACE_FINISHED | SURFACE_TYPE_MISMATCH
  | PATTERN_TYPE_MISMATCH | INVALID_CONTENT | INVALID_FORMAT | INVALID_VISUAL
  | FILE_NOT_FOUND | INVALID_DASH | INVALID_DSC_COMMENT | INVALID_INDEX
  | CLIP_NOT_REPRESENTABLE | TEMP_FILE_ERROR | INVALID_STRIDE | FONT_TYPE_MISMATCH
  | USER_FONT_IMMUTABLE | USER_FONT_ERROR | NEGATIVE_COUNT | INVALID_CLUSTERS
  | INVALID_SLANT | INVALID_WEIGHT | INVALID_SIZE | USER_FONT_NOT_IMPLEMENTED
  | DEVICE_TYPE_MISMATCH | DEVICE_ERROR | INVALID_MESH_CONSTRUCTION | DEVICE_FINISHED
  | JBIG2_GLOBAL_MISSING | PNG_ERROR | FREETYPE_ERROR | WIN32_GDI_ERROR | TAG_ERROR

text \<open>The enumeration in the order of its C values: the value of a status is its index.\<close>

definition statuses :: "cairo_status list" where
  "statuses =
    [SUCCESS, NO_MEMORY, INVALID_RESTORE, INVALID_POP_GROUP, NO_CURRENT_POINT,
     INVALID_MATRIX, INVALID_STATUS, NULL_POINTER, INVALID_STRING, INVALID_PATH_DATA,
     READ_ERROR, WRITE_ERROR, SURFACE_FINISHED, SURFACE_TYPE_MISMATCH,
     PATTERN_TYPE_MISMATCH, INVALID_CONTENT, INVALID_FORMAT, INVALID_VISUAL,
     FILE_NOT_FOUND, INVALID_DASH, INVALID_DSC_COMMENT, INVALID_INDEX,
     CLIP_NOT_REPRESENTABLE, TEMP_FILE_ERROR, INVALID_STRIDE, FONT_TYPE_MISMATCH,
     USER_FONT_IMMUTABLE, USER_FONT_ERROR, NEGATIVE_COUNT, INVALID_CLUSTERS,
     INVALID_SLANT, INVALID_WEIGHT, INVALID_SIZE, USER_FONT_NOT_IMPLEMENTED,
     DEVICE_TYPE_MISMATCH, DEVICE_ERROR, INVALID_MESH_CONSTRUCTION, DEVICE_FINISHED,
     JBIG2_GLOBAL_MISSING, PNG_ERROR, FREETYPE_ERROR, WIN32_GDI_ERROR, TAG_ERROR]"

definition status_code :: "cairo_status \<Rightarrow> int" where
  "status_code s = int (list_index statuses s)"

definition status_of_code :: "int \<Rightarrow> cairo_status option" where
  "status_of_code n =
     (if 0 \<le> n \<and> n < int (length statuses) then Some (statuses ! nat n) else None)"

text \<open>The errors a call into the binding can raise.\<close>

datatype py_error =
    CairoError cairo_status
      \<comment> \<open>raised by \<open>_check_status\<close> with the native status\<close>
  | ValueError_buffer int int
      \<comment> \<open>\<open>ValueError('Got a %d bytes buffer, needs at least %d.')\<close>\<close>
  | ValueError string
  | TypeError string
  | AttributeError string
  | NotImplementedError
  | KeyError
  | OverflowError
  | Native_fault
      \<comment> \<open>undefined behaviour of the native library: a freed or dangling pointer used\<close>

type_synonym 'a result = "py_error + 'a"

definition check_status :: "cairo_status \<Rightarrow> unit result" where
  "check_status st = (if st = SUCCESS then Inr () else Inl (CairoError st))"

section \<open>Lemmas\<close>

lemma distinct_statuses: "distinct statuses"
  by (simp add: statuses_def)

lemma set_statuses: "set statuses = UNIV"
proof -
  have "s \<in> set statuses" for s
    by (cases s) (simp_all add: statuses_def)
  then show ?thesis by blast
qed

lemma length_statuses: "length statuses = 43"
  by (simp add: statuses_def)

lemma status_code_range: "0 \<le> status_code s \<and> status_code s < 43"
proof -
  have "s \<in> set statuses" by (simp add: set_statuses)
  then have "list_index statuses s < length statuses" by (rule list_index_less)
  then show ?thesis by (simp add: status_code_def length_statuses)
qed

lemma status_code_SUCCESS [simp]: "status_code SUCCESS = 0"
  by (simp add: status_code_def statuses_def)

lemma check_status_Inr [simp]: "check_status st = Inr u \<longleftrightarrow> st = SUCCESS"
  by (simp add: check_status_def)

lemma check_status_SUCCESS [simp]: "check_status SUCCESS = Inr ()"
  by (simp add: check_status_def)

lemma check_status_error [simp]: "st \<noteq> SUCCESS \<Longrightarrow> check_status st = Inl (CairoError st)"
  by (simp add: check_status_def)

end
