(* ===== verification/Cairo_Native.thy ===== *)
theory Cairo_Native
  imports Cairo_Status
begin

text \<open>
  The native library behind the binding, as far as \<open>surfaces.py\<close> calls it. cairo is
  not part of the repository: every definition here follows the documented behaviour
  of the C API (cairo 1.12--1.16) that the spec describes. Surfaces live in a store
  indexed by address, each with a reference count; a failed constructor returns one
  of cairo's static nil surfaces, modelled as \<open>NIL status\<close>, which owns nothing and
  ignores \<open>cairo_surface_destroy\<close>. A call on an address that is not live is undefined
  behaviour, the value \<open>None\<close> of the call. Destroy-notifications of attached mime data
  are returned to the caller as a list, in the order the library invokes them.
\<close>

unbundle bit_operations_syntax

section \<open>Enumerations\<close>

datatype cairo_format = INVALID | ARGB32 | RGB24 | A8 | A1 | RGB16_565 | RGB30

datatype cairo_content = COLOR | ALPHA | COLOR_ALPHA

datatype cairo_surface_type =
    IMAGE | PDF | PS | XLIB | XCB | GLITZ | QUARTZ | WIN32 | BEOS | DIRECTFB | SVG | OS2
  | WIN32_PRINTING | QUARTZ_IMAGE | SCRIPT | QT | RECORDING | VG | GL | DRM | TEE | XML
  | SKIA | SUBSURFACE | COGL

fun format_bpp :: "cairo_format \<Rightarrow> nat" where
  "format_bpp ARGB32 = 32"
| "format_bpp RGB24 = 32"
| "format_bpp A8 = 8"
| "format_bpp A1 = 1"
| "format_bpp RGB16_565 = 16"
| "format_bpp RGB30 = 32"
| "format_bpp INVALID = 0"

definition format_valid :: "cairo_format \<Rightarrow> bool" where
  "format_valid f \<longleftrightarrow> f \<noteq> INVALID"

fun format_of_content :: "cairo_content \<Rightarrow> cairo_format" where
  "format_of_content COLOR = RGB24"
| "format_of_content ALPHA = A8"
| "format_of_content COLOR_ALPHA = ARGB32"

fun content_of_format :: "cairo_format \<Rightarrow> cairo_content" where
  "content_of_format ARGB32 = COLOR_ALPHA"
| "content_of_format RGB24 = COLOR"
| "content_of_format A8 = ALPHA"
| "content_of_format A1 = ALPHA"
| "content_of_format RGB16_565 = COLOR"
| "content_of_format RGB30 = COLOR"
| "content_of_format INVALID = COLOR_ALPHA"

definition image_size_valid :: "int \<Rightarrow> int \<Rightarrow> bool" where
  "image_size_valid w h \<longleftrightarrow> 0 \<le> w \<and> w \<le> 32767 \<and> 0 \<le> h \<and> h \<le> 32767"

section \<open>Stride computation\<close>

text \<open>
  \<open>cairo_format_stride_for_width\<close> on C \<open>int\<close>s: the width is compared as
  \<open>(unsigned) width\<close> against \<open>(INT32_MAX - 7) / bpp\<close>, so a negative width is
  refused; below that bound \<open>CAIRO_STRIDE_FOR_WIDTH_BPP\<close> rounds the row's bytes up to
  a multiple of 4, computed here at the width of a C \<open>int\<close>.
\<close>

definition cairo_format_stride_for_width :: "cairo_format \<Rightarrow> int \<Rightarrow> int" where
  "cairo_format_stride_for_width fmt w =
     (if \<not> format_valid fmt then -1
      else let bpp = format_bpp fmt; uw = (word_of_int w :: 32 word) in
        if (2147483647 - 7) div bpp \<le> unat uw then -1
        else sint ((((of_nat bpp * uw + 7) div 8) + 3) AND NOT (3 :: 32 word)))"

section \<open>Surfaces and the store\<close>

datatype pixels =
    Owned_data bytes   \<comment> \<open>allocated by cairo, freed by \<open>cairo_surface_finish\<close>\<close>
  | Borrowed_data nat  \<comment> \<open>the caller's buffer, by its host identity\<close>
  | No_data            \<comment> \<open>a NULL data pointer: owned data freed, or never allocated\<close>

record image_info =
  img_format :: cairo_format
  img_width :: int
  img_height :: int
  img_stride :: int
  img_pixels :: pixels

datatype destroy_func = No_destroy | KeepAlive_release nat

record mime_entry =
  mime_buf :: nat
  mime_length :: nat
  mime_destroy :: destroy_func

record nsurf =
  ns_type :: cairo_surface_type
  ns_content :: cairo_content
  ns_status :: cairo_status
  ns_ref :: nat
  ns_finished :: bool
  ns_device_offset :: "real \<times> real"
  ns_fallback :: "real \<times> real"
  ns_mime :: "(bytes \<times> mime_entry) list"
  ns_image :: image_info

record cairo_state =
  surfaces :: "nat \<Rightarrow> nsurf option"
  next_ptr :: nat

datatype handle = NIL cairo_status | PTR nat

definition live :: "cairo_state \<Rightarrow> nat \<Rightarrow> bool" where
  "live st a \<longleftrightarrow> surfaces st a \<noteq> None"

definition set_error :: "cairo_status \<Rightarrow> nsurf \<Rightarrow> nsurf" where
  "set_error e s = (if e = SUCCESS \<or> ns_status s \<noteq> SUCCESS then s else s\<lparr>ns_status := e\<rparr>)"

definition detach_mime :: "nsurf \<Rightarrow> destroy_func list \<times> nsurf" where
  "detach_mime s = (map (mime_destroy \<circ> snd) (ns_mime s), s\<lparr>ns_mime := []\<rparr>)"

definition query :: "handle \<Rightarrow> cairo_state \<Rightarrow> (cairo_status \<Rightarrow> 'a) \<Rightarrow> (nsurf \<Rightarrow> 'a) \<Rightarrow> 'a option" where
  "query h st nil f =
     (case h of NIL e \<Rightarrow> Some (nil e) | PTR a \<Rightarrow> map_option f (surfaces st a))"

definition modify ::
  "handle \<Rightarrow> cairo_state \<Rightarrow> (cairo_status \<Rightarrow> 'a) \<Rightarrow> (nsurf \<Rightarrow> 'a \<times> nsurf) \<Rightarrow> ('a \<times> cairo_state) option" where
  "modify h st nil f =
     (case h of
        NIL e \<Rightarrow> Some (nil e, st)
      | PTR a \<Rightarrow>
          (case surfaces st a of
             None \<Rightarrow> None
           | Some s \<Rightarrow> (case f s of (r, s') \<Rightarrow> Some (r, st\<lparr>surfaces := (surfaces st)(a \<mapsto> s')\<rparr>))))"

definition alloc_surface :: "nsurf \<Rightarrow> cairo_state \<Rightarrow> handle \<times> cairo_state" where
  "alloc_surface s st =
     (PTR (next_ptr st),
      st\<lparr>surfaces := (surfaces st)(next_ptr st \<mapsto> s), next_ptr := Suc (next_ptr st)\<rparr>)"

definition new_image_surface :: "cairo_format \<Rightarrow> int \<Rightarrow> int \<Rightarrow> int \<Rightarrow> pixels \<Rightarrow> nsurf" where
  "new_image_surface fmt w h stride px =
     \<lparr>ns_type = IMAGE, ns_content = content_of_format fmt, ns_status = SUCCESS, ns_ref = 1,
      ns_finished = False, ns_device_offset = (0, 0), ns_fallback = (300, 300), ns_mime = [],
      ns_image = \<lparr>img_format = fmt, img_width = w, img_height = h, img_stride = stride,
                  img_pixels = px\<rparr>\<rparr>"

text \<open>
  The bytes of a caller's buffer that an image surface reads and writes, as offsets
  from the data pointer: row \<open>r\<close> starts at \<open>r * stride\<close> and holds the width's
  pixels, \<open>row_bytes\<close> bytes.
\<close>

definition row_bytes :: "image_info \<Rightarrow> int" where
  "row_bytes i = (int (format_bpp (img_format i)) * img_width i + 7) div 8"

definition accessed_offsets :: "image_info \<Rightarrow> int set" where
  "accessed_offsets i =
     (\<lambda>(r, c). r * img_stride i + c) ` ({0..<img_height i} \<times> {0..<row_bytes i})"

section \<open>Generic surface calls\<close>

definition cairo_surface_status :: "handle \<Rightarrow> cairo_state \<Rightarrow> cairo_status option" where
  "cairo_surface_status h st = query h st id ns_status"

definition cairo_surface_destroy ::
  "handle \<Rightarrow> cairo_state \<Rightarrow> (destroy_func list \<times> cairo_state) option" where
  "cairo_surface_destroy h st =
     (case h of
        NIL _ \<Rightarrow> Some ([], st)
      | PTR a \<Rightarrow>
          (case surfaces st a of
             None \<Rightarrow> None
           | Some s \<Rightarrow>
               if ns_ref s \<le> 1
               then Some (map (mime_destroy \<circ> snd) (ns_mime s),
                          st\<lparr>surfaces := (surfaces st)(a := None)\<rparr>)
               else Some ([], st\<lparr>surfaces := (surfaces st)(a \<mapsto> s\<lparr>ns_ref := ns_ref s - 1\<rparr>)\<rparr>)))"

definition cairo_surface_get_type :: "handle \<Rightarrow> cairo_state \<Rightarrow> cairo_surface_type option" where
  "cairo_surface_get_type h st = query h st (\<lambda>_. IMAGE) ns_type"

definition cairo_surface_get_content :: "handle \<Rightarrow> cairo_state \<Rightarrow> cairo_content option" where
  "cairo_surface_get_content h st = query h st (\<lambda>_. COLOR) ns_content"

text \<open>Paging and dirty-marking: no-ops of the image backend, an error once finished.\<close>

definition unfinished_noop :: "nsurf \<Rightarrow> unit \<times> nsurf" where
  "unfinished_noop s =
     ((), if ns_status s \<noteq> SUCCESS then s
          else if ns_finished s then set_error SURFACE_FINISHED s else s)"

definition cairo_surface_copy_page :: "handle \<Rightarrow> cairo_state \<Rightarrow> (unit \<times> cairo_state) option" where
  "cairo_surface_copy_page h st = modify h st (\<lambda>_. ()) unfinished_noop"

definition cairo_surface_show_page :: "handle \<Rightarrow> cairo_state \<Rightarrow> (unit \<times> cairo_state) option" where
  "cairo_surface_show_page h st = modify h st (\<lambda>_. ()) unfinished_noop"

definition cairo_surface_mark_dirty_rectangle ::
  "handle \<Rightarrow> int \<Rightarrow> int \<Rightarrow> int \<Rightarrow> int \<Rightarrow> cairo_state \<Rightarrow> (unit \<times> cairo_state) option" where
  "cairo_surface_mark_dirty_rectangle h x y w ht st = modify h st (\<lambda>_. ()) unfinished_noop"

definition cairo_surface_mark_dirty :: "handle \<Rightarrow> cairo_state \<Rightarrow> (unit \<times> cairo_state) option" where
  "cairo_surface_mark_dirty h st = cairo_surface_mark_dirty_rectangle h 0 0 (-1) (-1) st"

definition cairo_surface_flush ::
  "handle \<Rightarrow> cairo_state \<Rightarrow> (destroy_func list \<times> cairo_state) option" where
  "cairo_surface_flush h st =
     modify h st (\<lambda>_. [])
       (\<lambda>s. if ns_status s \<noteq> SUCCESS \<or> ns_finished s then ([], s) else detach_mime s)"

definition finish_surface :: "nsurf \<Rightarrow> nsurf" where
  "finish_surface s =
     (let img = ns_image s in
      s\<lparr>ns_finished := True,
        ns_image := img\<lparr>img_pixels := (case img_pixels img of
                                          Owned_data _ \<Rightarrow> No_data | p \<Rightarrow> p)\<rparr>\<rparr>)"

definition cairo_surface_finish :: "handle \<Rightarrow> cairo_state \<Rightarrow> (unit \<times> cairo_state) option" where
  "cairo_surface_finish h st =
     modify h st (\<lambda>_. ()) (\<lambda>s. ((), if ns_finished s then s else finish_surface s))"

definition cairo_surface_get_device_offset :: "handle \<Rightarrow> cairo_state \<Rightarrow> (real \<times> real) option" where
  "cairo_surface_get_device_offset h st = query h st (\<lambda>_. (0, 0)) ns_device_offset"

definition cairo_surface_set_device_offset ::
  "handle \<Rightarrow> real \<Rightarrow> real \<Rightarrow> cairo_state \<Rightarrow> (destroy_func list \<times> cairo_state) option" where
  "cairo_surface_set_device_offset h x y st =
     modify h st (\<lambda>_. [])
       (\<lambda>s. if ns_status s \<noteq> SUCCESS then ([], s)
            else if ns_finished s then ([], set_error SURFACE_FINISHED s)
            else (case detach_mime s of (fired, s') \<Rightarrow> (fired, s'\<lparr>ns_device_offset := (x, y)\<rparr>)))"

definition cairo_surface_get_fallback_resolution ::
  "handle \<Rightarrow> cairo_state \<Rightarrow> (real \<times> real) option" where
  "cairo_surface_get_fallback_resolution h st = query h st (\<lambda>_. (300, 300)) ns_fallback"

text \<open>
  Mime data: the library keeps the caller's pointer and length together with the
  caller's destroy-notification, which it invokes when the entry is replaced or removed
  and when the surface is destroyed. On a surface in an error state or finished it
  takes no ownership: the notification is never invoked.
\<close>

definition cairo_surface_set_mime_data ::
  "handle \<Rightarrow> bytes \<Rightarrow> (nat \<times> nat) option \<Rightarrow> destroy_func \<Rightarrow> cairo_state \<Rightarrow>
   ((cairo_status \<times> destroy_func list) \<times> cairo_state) option" where
  "cairo_surface_set_mime_data h mime data destroy st =
     modify h st (\<lambda>e. (e, []))
       (\<lambda>s. if ns_status s \<noteq> SUCCESS then ((ns_status s, []), s)
            else if ns_finished s then ((SURFACE_FINISHED, []), set_error SURFACE_FINISHED s)
            else
              (let fired = (case map_of (ns_mime s) mime of
                              None \<Rightarrow> [] | Some e \<Rightarrow> [mime_destroy e]);
                   rest = filter (\<lambda>(k, _). k \<noteq> mime) (ns_mime s);
                   new = (case data of
                            None \<Rightarrow> rest
                          | Some (b, n) \<Rightarrow>
                              rest @ [(mime, \<lparr>mime_buf = b, mime_length = n,
                                              mime_destroy = destroy\<rparr>)])
               in ((SUCCESS, fired), s\<lparr>ns_mime := new\<rparr>)))"

definition cairo_surface_get_mime_data ::
  "handle \<Rightarrow> bytes \<Rightarrow> cairo_state \<Rightarrow> mime_entry option option" where
  "cairo_surface_get_mime_data h mime st =
     query h st (\<lambda>_. None)
       (\<lambda>s. if ns_status s \<noteq> SUCCESS then None else map_of (ns_mime s) mime)"

text \<open>The image backend supports no mime type.\<close>

definition cairo_surface_supports_mime_type ::
  "handle \<Rightarrow> bytes \<Rightarrow> cairo_state \<Rightarrow> (bool \<times> cairo_state) option" where
  "cairo_surface_supports_mime_type h mime st =
     modify h st (\<lambda>_. False) (\<lambda>s. (False, snd (unfinished_noop s)))"

section \<open>Image surfaces\<close>

text \<open>
  \<open>cairo_image_surface_create\<close> passes a NULL data pointer and the stride \<open>-1\<close> to
  \<open>pixman_image_create_bits\<close>, which allocates zeroed rows of the stride cairo
  computes when width and height are both non-zero, and otherwise allocates nothing:
  the data pointer stays NULL and the stride is \<open>-1 / 4 = 0\<close>.
\<close>

definition cairo_image_surface_create ::
  "cairo_format \<Rightarrow> int \<Rightarrow> int \<Rightarrow> cairo_state \<Rightarrow> handle \<times> cairo_state" where
  "cairo_image_surface_create fmt w h st =
     (if \<not> format_valid fmt then (NIL INVALID_FORMAT, st)
      else if \<not> image_size_valid w h then (NIL INVALID_SIZE, st)
      else if w = 0 \<or> h = 0 then alloc_surface (new_image_surface fmt w h 0 No_data) st
      else
        (let stride = cairo_format_stride_for_width fmt w
         in alloc_surface
              (new_image_surface fmt w h stride (Owned_data (replicate (nat (stride * h)) 0))) st))"

definition cairo_image_surface_create_for_data ::
  "nat \<Rightarrow> cairo_format \<Rightarrow> int \<Rightarrow> int \<Rightarrow> int \<Rightarrow> cairo_state \<Rightarrow> handle \<times> cairo_state" where
  "cairo_image_surface_create_for_data buf fmt w h stride st =
     (if \<not> format_valid fmt then (NIL INVALID_FORMAT, st)
      else if stride mod 4 \<noteq> 0 then (NIL INVALID_STRIDE, st)
      else if \<not> image_size_valid w h then (NIL INVALID_SIZE, st)
      else
        (let minstride = cairo_format_stride_for_width fmt w
         in if (stride < 0 \<and> - minstride < stride) \<or> (0 \<le> stride \<and> stride < minstride)
            then (NIL INVALID_STRIDE, st)
            else alloc_surface (new_image_surface fmt w h stride (Borrowed_data buf)) st))"

text \<open>
  Similar surfaces of an image surface are image surfaces; \<open>create_similar\<close> takes a
  content and copies the fallback resolution, \<open>create_similar_image\<close> takes a pixel
  format.
\<close>

definition similar_precheck :: "handle \<Rightarrow> int \<Rightarrow> int \<Rightarrow> cairo_state \<Rightarrow> (cairo_status + nsurf) option" where
  "similar_precheck other w h st =
     query other st Inl
       (\<lambda>s. if ns_status s \<noteq> SUCCESS then Inl (ns_status s)
            else if ns_finished s then Inl SURFACE_FINISHED
            else if w < 0 \<or> h < 0 then Inl INVALID_SIZE
            else Inr s)"

definition cairo_surface_create_similar ::
  "handle \<Rightarrow> cairo_content \<Rightarrow> int \<Rightarrow> int \<Rightarrow> cairo_state \<Rightarrow> (handle \<times> cairo_state) option" where
  "cairo_surface_create_similar other content w h st =
     (case similar_precheck other w h st of
        None \<Rightarrow> None
      | Some (Inl e) \<Rightarrow> Some (NIL e, st)
      | Some (Inr s) \<Rightarrow>
          (case cairo_image_surface_create (format_of_content content) w h st of
             (PTR a, st') \<Rightarrow>
               Some (PTR a, st'\<lparr>surfaces := (surfaces st')(a := map_option
                                 (\<lambda>n. n\<lparr>ns_fallback := ns_fallback s\<rparr>) (surfaces st' a))\<rparr>)
           | (NIL e, st') \<Rightarrow> Some (NIL e, st')))"

definition cairo_surface_create_similar_image ::
  "handle \<Rightarrow> cairo_format \<Rightarrow> int \<Rightarrow> int \<Rightarrow> cairo_state \<Rightarrow> (handle \<times> cairo_state) option" where
  "cairo_surface_create_similar_image other fmt w h st =
     (case similar_precheck other w h st of
        None \<Rightarrow> None
      | Some (Inl e) \<Rightarrow> Some (NIL e, st)
      | Some (Inr s) \<Rightarrow>
          if \<not> format_valid fmt then Some (NIL INVALID_FORMAT, st)
          else Some (cairo_image_surface_create fmt w h st))"

text \<open>
  The accessors of image surfaces answer a default on any other surface (and on nil
  surfaces, which have no image backend).
\<close>

definition image_query ::
  "handle \<Rightarrow> cairo_state \<Rightarrow> 'a \<Rightarrow> (image_info \<Rightarrow> 'a) \<Rightarrow> 'a option" where
  "image_query h st dflt f =
     query h st (\<lambda>_. dflt) (\<lambda>s. if ns_type s = IMAGE then f (ns_image s) else dflt)"

definition cairo_image_surface_get_format :: "handle \<Rightarrow> cairo_state \<Rightarrow> cairo_format option" where
  "cairo_image_surface_get_format h st = image_query h st INVALID img_format"

definition cairo_image_surface_get_width :: "handle \<Rightarrow> cairo_state \<Rightarrow> int option" where
  "cairo_image_surface_get_width h st = image_query h st 0 img_width"

definition cairo_image_surface_get_height :: "handle \<Rightarrow> cairo_state \<Rightarrow> int option" where
  "cairo_image_surface_get_height h st = image_query h st 0 img_height"

definition cairo_image_surface_get_stride :: "handle \<Rightarrow> cairo_state \<Rightarrow> int option" where
  "cairo_image_surface_get_stride h st = image_query h st 0 img_stride"

datatype data_ptr = NULL | Native_pixels nat | Host_buffer nat

definition cairo_image_surface_get_data :: "handle \<Rightarrow> cairo_state \<Rightarrow> data_ptr option" where
  "cairo_image_surface_get_data h st =
     (case h of
        NIL _ \<Rightarrow> Some NULL
      | PTR a \<Rightarrow>
          image_query h st NULL
            (\<lambda>i. case img_pixels i of
                   Owned_data _ \<Rightarrow> Native_pixels a
                 | Borrowed_data b \<Rightarrow> Host_buffer b
                 | No_data \<Rightarrow> NULL))"

section \<open>Lemmas\<close>

subsection \<open>Stride\<close>

lemma format_bpp_bounds: "format_valid fmt \<Longrightarrow> 0 < format_bpp fmt \<and> format_bpp fmt \<le> 32"
  by (cases fmt) (simp_all add: format_valid_def)

lemma stride_for_width_general:
  assumes fmt: "format_valid fmt" and w: "0 \<le> w" "w < int (2147483640 div format_bpp fmt)"
  shows "cairo_format_stride_for_width fmt w = 4 * ((int (format_bpp fmt) * w + 31) div 32)"
proof -
  define bpp where "bpp = format_bpp fmt"
  define uw where "uw = (word_of_int w :: 32 word)"
  have bpp: "0 < bpp" "bpp \<le> 32" using format_bpp_bounds [OF fmt] by (simp_all add: bpp_def)
  have "2147483640 div format_bpp fmt \<le> (2147483640::nat)" by (rule div_le_dividend)
  then have "int (2147483640 div format_bpp fmt) \<le> int 2147483640" by (simp only: of_nat_le_iff)
  then have "w < 4294967296" using w(2) by linarith
  then have "w mod 4294967296 = w" using w(1) by (intro mod_pos_pos_trivial)
  then have unat_uw: "unat uw = nat w"
    by (simp add: uw_def unat_eq_nat_uint uint_word_of_int)
  have wlt: "nat w < 2147483640 div bpp" using w by (simp add: bpp_def)
  have prod: "bpp * nat w < 2147483640"
  proof -
    have "bpp * nat w < bpp * (2147483640 div bpp)" using wlt bpp(1) by simp
    also have "\<dots> \<le> 2147483640" by (rule times_div_less_eq_dividend)
    finally show ?thesis .
  qed
  have thr: "\<not> (2147483647 - 7) div bpp \<le> unat uw"
    using unat_uw wlt by simp
  define a where "a = bpp * nat w + 7"
  have a_small: "a < 2 ^ 32" using prod by (simp add: a_def)
  have ua: "unat (of_nat bpp * uw + 7) = a"
  proof -
    have "of_nat bpp * uw + 7 = (of_nat a :: 32 word)"
      by (simp add: a_def uw_def unat_uw [symmetric])
    then show ?thesis using a_small by (simp add: unat_of_nat)
  qed
  define y where "y = (of_nat bpp * uw + 7) div (8::32 word)"
  have uy: "unat y = a div 8" by (simp add: y_def unat_div ua)
  have uz: "unat (y + 3) = a div 8 + 3"
    using uy a_small by (simp add: unat_add_lem [THEN iffD1])
  have r: "unat ((y + 3) AND NOT 3) = 4 * ((a div 8 + 3) div 4)"
    by (simp only: unat_and_not_3 uz)
  have arith: "(a div 8 + 3) div 4 = (bpp * nat w + 31) div 32"
  proof -
    have "a div 8 + 3 = (bpp * nat w + 31) div 8" by (simp add: a_def)
    then show ?thesis by (simp add: div_mult2_eq [symmetric])
  qed
  have small: "4 * ((bpp * nat w + 31) div 32) < 2 ^ 31"
  proof -
    have "(bpp * nat w + 31) div 32 \<le> (2147483640 + 31) div 32"
      by (rule div_le_mono) (use prod in simp)
    then show ?thesis by simp
  qed
  have sx: "sint ((y + 3) AND NOT 3) = int (unat ((y + 3) AND NOT 3))"
  proof -
    define x where "x = (y + 3) AND NOT (3::32 word)"
    have lt: "unat x < 2 ^ 31" using r arith small by (simp add: x_def)
    have ux: "uint x = int (unat x)" by (rule uint_nat)
    have u1: "uint x < 2 ^ 31"
    proof -
      have "int (unat x) < int (2 ^ 31)" using lt by (simp only: of_nat_less_iff)
      then show ?thesis by simp
    qed
    have u2: "- (2 ^ 31) \<le> uint x"
      by (rule order_trans [OF _ uint_ge_0]) simp
    have "sint x = signed_take_bit 31 (uint x)" by (simp add: sint_uint)
    also have "\<dots> = uint x"
      by (rule signed_take_bit_int_eq_self) (use u1 u2 in simp_all)
    finally show ?thesis by (simp add: x_def)
  qed
  have "cairo_format_stride_for_width fmt w = sint ((y + 3) AND NOT 3)"
    using fmt thr by (simp add: cairo_format_stride_for_width_def Let_def bpp_def uw_def y_def)
  also have "\<dots> = int (4 * ((bpp * nat w + 31) div 32))"
    by (simp only: sx r arith)
  also have "\<dots> = 4 * ((int bpp * w + 31) div 32)"
    using w by (simp add: zdiv_int)
  finally show ?thesis by (simp add: bpp_def)
qed

lemma stride_for_width_eq:
  assumes fmt: "format_valid fmt" and w: "0 \<le> w" "w \<le> 32767"
  shows "cairo_format_stride_for_width fmt w = 4 * ((int (format_bpp fmt) * w + 31) div 32)"
proof (rule stride_for_width_general [OF fmt w(1)])
  have "(2147483640::nat) div 32 \<le> 2147483640 div format_bpp fmt"
    using format_bpp_bounds [OF fmt] by (intro div_le_mono2) simp_all
  then show "w < int (2147483640 div format_bpp fmt)" using w(2) by linarith
qed

text \<open>
  A negative width, read as an unsigned 32-bit number, and a width whose row would
  overflow a C \<open>int\<close> are refused with \<open>-1\<close>.
\<close>

lemma stride_for_width_refused:
  assumes w: "- (2 ^ 31) \<le> w" "w < 2 ^ 31"
    and bad: "w < 0 \<or> int (2147483640 div format_bpp fmt) \<le> w"
  shows "cairo_format_stride_for_width fmt w = -1"
proof (cases "format_valid fmt")
  case True
  have le: "2147483640 div format_bpp fmt \<le> (2147483640::nat)" by simp
  have "2147483640 div format_bpp fmt \<le> unat (word_of_int w :: 32 word)"
  proof (cases "w < 0")
    case True
    have "w mod 4294967296 = (w + 4294967296) mod 4294967296" by simp
    also have "\<dots> = w + 4294967296" using True w by (intro mod_pos_pos_trivial) simp_all
    finally have "unat (word_of_int w :: 32 word) = nat (w + 2 ^ 32)"
      by (simp add: unat_eq_nat_uint uint_word_of_int)
    then have "unat (word_of_int w :: 32 word) = nat (w + 4294967296)" by simp
    moreover have "(2147483648::nat) \<le> nat (w + 4294967296)" using w by (simp add: le_nat_iff)
    ultimately show ?thesis using le by linarith
  next
    case False
    then have "w mod 4294967296 = w" using w by (intro mod_pos_pos_trivial) simp_all
    then have "unat (word_of_int w :: 32 word) = nat w"
      by (simp add: unat_eq_nat_uint uint_word_of_int)
    then show ?thesis using False bad by simp
  qed
  then show ?thesis by (simp add: cairo_format_stride_for_width_def Let_def)
qed (simp add: cairo_format_stride_for_width_def)

lemma row_bytes_le_stride:
  assumes "format_valid fmt" "0 \<le> w" "w \<le> 32767"
  shows "(int (format_bpp fmt) * w + 7) div 8 \<le> cairo_format_stride_for_width fmt w"
proof -
  define x where "x = int (format_bpp fmt) * w"
  have "0 \<le> x" using assms(2) by (simp add: x_def)
  then have "(x + 7) div 8 \<le> 4 * ((x + 31) div 32)" by presburger
  then show ?thesis using stride_for_width_eq [OF assms] by (simp add: x_def)
qed

lemma create_for_data_cases:
  assumes "cairo_image_surface_create_for_data b fmt w h stride st = (hdl, st')"
  shows "(\<exists>e. hdl = NIL e \<and> e \<noteq> SUCCESS \<and> st' = st) \<or>
         (format_valid fmt \<and> stride mod 4 = 0 \<and> image_size_valid w h \<and>
          (if stride < 0 then stride \<le> - cairo_format_stride_for_width fmt w
           else cairo_format_stride_for_width fmt w \<le> stride) \<and>
          (hdl, st') = alloc_surface (new_image_surface fmt w h stride (Borrowed_data b)) st)"
  using assms
  by (auto simp: cairo_image_surface_create_for_data_def Let_def split: if_splits)

subsection \<open>Access to the store\<close>

lemma query_NIL [simp]: "query (NIL e) st nil f = Some (nil e)"
  by (simp add: query_def)

lemma query_PTR [simp]: "query (PTR a) st nil f = map_option f (surfaces st a)"
  by (simp add: query_def)

lemma modify_NIL [simp]: "modify (NIL e) st nil f = Some (nil e, st)"
  by (simp add: modify_def)

lemma modify_PTR_None [simp]: "surfaces st a = None \<Longrightarrow> modify (PTR a) st nil f = None"
  by (simp add: modify_def)

lemma modify_PTR_Some [simp]:
  "surfaces st a = Some s \<Longrightarrow>
   modify (PTR a) st nil f = Some (fst (f s), st\<lparr>surfaces := (surfaces st)(a \<mapsto> snd (f s))\<rparr>)"
  by (simp add: modify_def split: prod.split)

lemma modify_None_iff: "modify h st nil f = None \<longleftrightarrow> (\<exists>a. h = PTR a \<and> surfaces st a = None)"
  by (auto simp: modify_def split: handle.splits option.splits prod.splits)

lemma query_None_iff: "query h st nil f = None \<longleftrightarrow> (\<exists>a. h = PTR a \<and> surfaces st a = None)"
  by (auto simp: query_def split: handle.splits)

lemma modify_next_ptr: "modify h st nil f = Some (r, st') \<Longrightarrow> next_ptr st' = next_ptr st"
  by (auto simp: modify_def split: handle.splits option.splits prod.splits)

lemma modify_dom:
  "modify h st nil f = Some (r, st') \<Longrightarrow> dom (surfaces st') = dom (surfaces st)"
  by (auto simp: modify_def split: handle.splits option.splits prod.splits if_splits)

lemma alloc_surface_fresh:
  "alloc_surface s st = (h, st') \<Longrightarrow>
   h = PTR (next_ptr st) \<and> surfaces st' = (surfaces st)(next_ptr st \<mapsto> s) \<and>
   next_ptr st' = Suc (next_ptr st)"
  by (auto simp: alloc_surface_def)

lemma set_error_fields [simp]:
  "ns_ref (set_error e s) = ns_ref s" "ns_type (set_error e s) = ns_type s"
  "ns_mime (set_error e s) = ns_mime s" "ns_image (set_error e s) = ns_image s"
  "ns_finished (set_error e s) = ns_finished s"
  "ns_device_offset (set_error e s) = ns_device_offset s"
  by (simp_all add: set_error_def)

lemma unfinished_noop_fields [simp]:
  "ns_ref (snd (unfinished_noop s)) = ns_ref s" "ns_type (snd (unfinished_noop s)) = ns_type s"
  "ns_mime (snd (unfinished_noop s)) = ns_mime s" "ns_image (snd (unfinished_noop s)) = ns_image s"
  "ns_finished (snd (unfinished_noop s)) = ns_finished s"
  by (simp_all add: unfinished_noop_def)

end
