(* ===== verification/Cairo_KeepAlive.thy ===== *)
theory Cairo_KeepAlive
  imports Cairo_Native
begin

text \<open>
  The Python side of the binding as a state: the wrapper objects of surfaces, the
  buffer objects the caller hands over, and the class attribute
  \<open>KeepAlive.instances\<close> (\<open>surfaces.py\<close>, lines 48--61), the process-wide live-set
  that keeps pinned objects reachable until the native library calls the release
  callback. Objects are named by their identity (a number drawn from \<open>next_id\<close>).
  The file system the PNG functions read and write maps a path, the bytes of the C
  string handed to \<open>fopen\<close>, to the file's contents.
  A callback that the native library invokes runs Python code: its exceptions are
  printed and swallowed by cffi, as \<open>invoke_destroy\<close> models.
\<close>

section \<open>Host objects and the world\<close>

datatype py_class = Surface_cls | ImageSurface_cls

record pybuffer =
  buf_bytes :: bytes
  buf_writable :: bool

datatype kept = Kept_buffer nat | Kept_cdata bytes

record pysurface =
  cls :: py_class
  handle :: handle
  data_ref :: "nat option"

record keepalive =
  ka_objects :: "kept list"

record world =
  native :: cairo_state
  objects :: "nat \<Rightarrow> pysurface option"
  buffers :: "nat \<Rightarrow> pybuffer option"
  keepalives :: "nat \<Rightarrow> keepalive option"
  instances :: "nat set"
  next_id :: nat
  files :: "bytes \<Rightarrow> bytes option"

definition rbind :: "'a result \<Rightarrow> ('a \<Rightarrow> 'b result) \<Rightarrow> 'b result" where
  "rbind m f = (case m of Inl e \<Rightarrow> Inl e | Inr x \<Rightarrow> f x)"

definition native_call :: "'a option \<Rightarrow> 'a result" where
  "native_call r = (case r of None \<Rightarrow> Inl Native_fault | Some x \<Rightarrow> Inr x)"

section \<open>KeepAlive\<close>

text \<open>
  \<open>KeepAlive(*objects)\<close> adds itself to \<open>instances\<close>, keeps \<open>objects\<close> and builds
  \<open>closure\<close>, the pair of a \<open>cairo_destroy_func_t\<close> callback and \<open>ffi.NULL\<close>; the
  callback is named by the KeepAlive it removes.
\<close>

definition KeepAlive_init :: "kept list \<Rightarrow> world \<Rightarrow> destroy_func \<times> world" where
  "KeepAlive_init objs w =
     (let k = next_id w
      in (KeepAlive_release k,
          w\<lparr>instances := insert k (instances w),
            keepalives := (keepalives w)(k \<mapsto> \<lparr>ka_objects = objs\<rparr>),
            next_id := Suc k\<rparr>))"

text \<open>The callback's body \<open>self.instances.remove(self)\<close>: \<open>KeyError\<close> when absent.\<close>

definition KeepAlive_release_cb :: "nat \<Rightarrow> world \<Rightarrow> world result" where
  "KeepAlive_release_cb k w =
     (if k \<in> instances w then Inr (w\<lparr>instances := instances w - {k}\<rparr>) else Inl KeyError)"

text \<open>
  The native library calls a non-NULL destroy function with its closure; an exception
  of the Python callback does not cross the boundary.
\<close>

fun invoke_destroy :: "destroy_func \<Rightarrow> world \<Rightarrow> world" where
  "invoke_destroy No_destroy w = w"
| "invoke_destroy (KeepAlive_release k) w =
     (case KeepAlive_release_cb k w of Inl _ \<Rightarrow> w | Inr w' \<Rightarrow> w')"

definition invoke_destroys :: "destroy_func list \<Rightarrow> world \<Rightarrow> world" where
  "invoke_destroys fs w = fold invoke_destroy fs w"

text \<open>
  A native call that may invoke destroy-notifications: the new native state, then the
  callbacks in the order the library fires them. The callbacks touch Python state only,
  so running them after the native update is the same as running them nested in it.
\<close>

definition native_with_callbacks ::
  "(destroy_func list \<times> cairo_state) option \<Rightarrow> world \<Rightarrow> (unit \<times> world) result" where
  "native_with_callbacks r w =
     (case r of
        None \<Rightarrow> Inl Native_fault
      | Some (fs, st) \<Rightarrow> Inr ((), invoke_destroys fs (w\<lparr>native := st\<rparr>)))"

definition native_op :: "('a \<times> cairo_state) option \<Rightarrow> world \<Rightarrow> ('a \<times> world) result" where
  "native_op r w = (case r of None \<Rightarrow> Inl Native_fault | Some (x, st) \<Rightarrow> Inr (x, w\<lparr>native := st\<rparr>))"

subsection \<open>Example states\<close>

text \<open>A one-pixel image surface at address 0 and an otherwise empty world.\<close>

definition example_surface :: nsurf where
  "example_surface = new_image_surface ARGB32 1 1 4 (Owned_data [0, 0, 0, 0])"

definition example_world :: world where
  "example_world =
     \<lparr>native = \<lparr>surfaces = [0 \<mapsto> example_surface], next_ptr = 1\<rparr>,
      objects = Map.empty, buffers = [1 \<mapsto> \<lparr>buf_bytes = [1, 2], buf_writable = True\<rparr>],
      keepalives = Map.empty, instances = {}, next_id = 2, files = Map.empty\<rparr>"

section \<open>Lemmas\<close>

lemma rbind_Inl [simp]: "rbind (Inl e) f = Inl e"
  and rbind_Inr [simp]: "rbind (Inr x) f = f x"
  by (simp_all add: rbind_def)

lemma rbind_eq_Inr: "rbind m f = Inr y \<longleftrightarrow> (\<exists>x. m = Inr x \<and> f x = Inr y)"
  by (cases m) (simp_all add: rbind_def)

lemma native_call_simps [simp]:
  "native_call None = Inl Native_fault" "native_call (Some x) = Inr x"
  by (simp_all add: native_call_def)

lemma native_op_simps [simp]:
  "native_op None w = Inl Native_fault" "native_op (Some (x, st)) w = Inr (x, w\<lparr>native := st\<rparr>)"
  by (simp_all add: native_op_def)

lemma native_with_callbacks_simps [simp]:
  "native_with_callbacks None w = Inl Native_fault"
  "native_with_callbacks (Some (fs, st)) w = Inr ((), invoke_destroys fs (w\<lparr>native := st\<rparr>))"
  by (simp_all add: native_with_callbacks_def)

lemma invoke_destroy_frame [simp]:
  "native (invoke_destroy f w) = native w" "objects (invoke_destroy f w) = objects w"
  "buffers (invoke_destroy f w) = buffers w" "keepalives (invoke_destroy f w) = keepalives w"
  "next_id (invoke_destroy f w) = next_id w"
  by (cases f; simp add: KeepAlive_release_cb_def)+

lemma instances_invoke_destroy:
  "instances (invoke_destroy f w) = instances w - {k. f = KeepAlive_release k}"
  by (cases f) (auto simp: KeepAlive_release_cb_def)

lemma invoke_destroys_Nil [simp]: "invoke_destroys [] w = w"
  by (simp add: invoke_destroys_def)

lemma invoke_destroys_Cons [simp]:
  "invoke_destroys (f # fs) w = invoke_destroys fs (invoke_destroy f w)"
  by (simp add: invoke_destroys_def)

lemma invoke_destroys_frame [simp]:
  "native (invoke_destroys fs w) = native w" "objects (invoke_destroys fs w) = objects w"
  "buffers (invoke_destroys fs w) = buffers w" "keepalives (invoke_destroys fs w) = keepalives w"
  "next_id (invoke_destroys fs w) = next_id w"
  by (induction fs arbitrary: w) simp_all

text \<open>
  Running a list of notifications removes exactly the KeepAlives it names: a second
  notification for the same KeepAlive finds it gone and its \<open>KeyError\<close> is swallowed.
\<close>

lemma instances_invoke_destroys:
  "instances (invoke_destroys fs w) = instances w - {k. KeepAlive_release k \<in> set fs}"
  by (induction fs arbitrary: w) (auto simp: instances_invoke_destroy)

lemma KeepAlive_init_state:
  assumes "KeepAlive_init objs w = (d, w')"
  shows "d = KeepAlive_release (next_id w)" "instances w' = insert (next_id w) (instances w)"
    "keepalives w' (next_id w) = Some \<lparr>ka_objects = objs\<rparr>"
    "native w' = native w" "objects w' = objects w" "buffers w' = buffers w"
    "next_id w' = Suc (next_id w)"
  using assms by (auto simp: KeepAlive_init_def Let_def)

lemma set_mime_data_fresh:
  assumes "surfaces st a = Some s" "ns_status s = SUCCESS" "\<not> ns_finished s"
    and "map_of (ns_mime s) m = None"
  shows "cairo_surface_set_mime_data (PTR a) m (Some (b, n)) d st =
           Some ((SUCCESS, []), st\<lparr>surfaces := (surfaces st)(a \<mapsto>
             s\<lparr>ns_mime := ns_mime s @ [(m, \<lparr>mime_buf = b, mime_length = n, mime_destroy = d\<rparr>)]\<rparr>)\<rparr>)"
proof -
  have "filter (\<lambda>(k, _). k \<noteq> m) (ns_mime s) = ns_mime s"
    using assms(4) by (rule filter_key_absent)
  with assms show ?thesis
    by (simp add: cairo_surface_set_mime_data_def Let_def)
qed

lemma destroy_last_ref:
  "surfaces st a = Some s \<Longrightarrow> ns_ref s = 1 \<Longrightarrow>
   cairo_surface_destroy (PTR a) st =
     Some (map (mime_destroy \<circ> snd) (ns_mime s), st\<lparr>surfaces := (surfaces st)(a := None)\<rparr>)"
  by (simp add: cairo_surface_destroy_def)

section \<open>Pinning for the lifetime of retained data\<close>

text \<open>
  C5. A KeepAlive pins its objects until the native library releases them: after
  \<open>KeepAlive(data, mime_type)\<close> the entry is in \<open>instances\<close>; attaching its closure as
  the destroy-notification of mime data on a healthy, singly referenced surface succeeds
  without firing anything; destroying the surface fires the notification exactly once,
  and running it leaves the live-set as it was before the pin.
\<close>

theorem keepalive_pin_released_once:
  assumes s: "surfaces (native w) a = Some s" "ns_status s = SUCCESS" "\<not> ns_finished s"
      "ns_ref s = 1" "ns_mime s = []"
    and ka: "KeepAlive_init objs w = (d, w1)"
  shows "next_id w \<in> instances w1 \<and>
         (\<exists>st2 st3. cairo_surface_set_mime_data (PTR a) m (Some (b, n)) d (native w1)
                      = Some ((SUCCESS, []), st2) \<and>
                    cairo_surface_destroy (PTR a) st2 = Some ([d], st3) \<and>
                    instances (invoke_destroys [d] (w1\<lparr>native := st3\<rparr>))
                      = instances w - {next_id w})"
proof -
  note st = KeepAlive_init_state [OF ka]
  define e where "e = \<lparr>mime_buf = b, mime_length = n, mime_destroy = d\<rparr>"
  define s2 where "s2 = s\<lparr>ns_mime := [(m, e)]\<rparr>"
  define st2 where "st2 = native w1\<lparr>surfaces := (surfaces (native w1))(a \<mapsto> s2)\<rparr>"
  have attach: "cairo_surface_set_mime_data (PTR a) m (Some (b, n)) d (native w1)
                  = Some ((SUCCESS, []), st2)"
    using set_mime_data_fresh [of "native w1" a s m b n d] s st
    by (simp add: st2_def s2_def e_def)
  have "surfaces st2 a = Some s2" "ns_ref s2 = 1" by (simp_all add: st2_def s2_def s)
  then have destroy: "cairo_surface_destroy (PTR a) st2
                        = Some ([d], st2\<lparr>surfaces := (surfaces st2)(a := None)\<rparr>)"
    by (simp add: destroy_last_ref s2_def e_def)
  have "instances (invoke_destroys [d] (w1\<lparr>native := st2\<lparr>surfaces := (surfaces st2)(a := None)\<rparr>\<rparr>))
          = instances w - {next_id w}"
    unfolding instances_invoke_destroys using st(1,2) by auto
  with attach destroy st show ?thesis by blast
qed

theorem keepalive_pin_released_once_witness:
  "surfaces (native example_world) 0 = Some example_surface \<and>
   ns_status example_surface = SUCCESS \<and> \<not> ns_finished example_surface \<and>
   ns_ref example_surface = 1 \<and> ns_mime example_surface = [] \<and>
   KeepAlive_init [Kept_buffer 1] example_world
     = (KeepAlive_release 2, snd (KeepAlive_init [Kept_buffer 1] example_world)) \<and>
   2 \<in> instances (snd (KeepAlive_init [Kept_buffer 1] example_world)) \<and>
   (\<exists>st2 st3. cairo_surface_set_mime_data (PTR 0) [1] (Some (1, 2)) (KeepAlive_release 2)
                (native (snd (KeepAlive_init [Kept_buffer 1] example_world)))
                = Some ((SUCCESS, []), st2) \<and>
              cairo_surface_destroy (PTR 0) st2 = Some ([KeepAlive_release 2], st3) \<and>
              instances (invoke_destroys [KeepAlive_release 2]
                ((snd (KeepAlive_init [Kept_buffer 1] example_world))\<lparr>native := st3\<rparr>)) = {})"
proof -
  have h: "surfaces (native example_world) 0 = Some example_surface"
    "ns_status example_surface = SUCCESS" "\<not> ns_finished example_surface"
    "ns_ref example_surface = 1" "ns_mime example_surface = []"
    "KeepAlive_init [Kept_buffer 1] example_world
       = (KeepAlive_release 2, snd (KeepAlive_init [Kept_buffer 1] example_world))"
    by (simp_all add: example_world_def example_surface_def new_image_surface_def
                      KeepAlive_init_def)
  have "next_id example_world = 2" "instances example_world = {}"
    by (simp_all add: example_world_def)
  with h keepalive_pin_released_once [OF h(1-5) h(6), of "[1]" 1 2] show ?thesis
    by simp
qed

end
