(* ===== verification/Cairo_Surface.thy ===== *)
theory Cairo_Surface
  imports Cairo_KeepAlive
begin

text \<open>
  The class \<open>Surface\<close> of \<open>surfaces.py\<close> (lines 64--156): construction from a native
  handle with its status check and its \<open>ffi.gc\<close> registration, the dispatch
  \<open>_from_handle\<close> through \<open>SURFACE_TYPE_TO_CLASS\<close> (lines 215--217), the generic
  methods, and the finaliser that runs when a wrapper is reclaimed. A method takes the
  wrapper object \<open>self\<close> (a \<open>pysurface\<close>) and the world; a method that changes
  nothing returns its value alone. The conversions cffi performs on arguments
  (\<open>ffi.new\<close>, Python \<open>int\<close> to C \<open>int\<close>) and \<open>str.encode('utf8')\<close> are modelled
  from their documented behaviour.
\<close>

section \<open>Argument conversions\<close>

text \<open>\<open>str.encode('utf8')\<close> on the code points an Isabelle \<open>char\<close> holds (below 256).\<close>

definition utf8_encode :: "string \<Rightarrow> bytes" where
  "utf8_encode s =
     concat (map (\<lambda>c. let n = of_char c :: nat in
                       if n < 128 then [of_nat n]
                       else [of_nat (192 + n div 64), of_nat (128 + n mod 64)]) s)"

text \<open>\<open>ffi.new('char *', b)\<close> allocates one \<open>char\<close>: its initializer is a one-byte string.\<close>

definition ffi_new_char :: "bytes \<Rightarrow> bytes result" where
  "ffi_new_char b =
     (if length b = 1 then Inr b
      else Inl (TypeError ''initializer for ctype 'char' must be a bytes of length 1''))"

text \<open>A Python \<open>int\<close> passed where C expects \<open>int\<close>.\<close>

definition c_int :: "int \<Rightarrow> int result" where
  "c_int x = (if - (2 ^ 31) \<le> x \<and> x < 2 ^ 31 then Inr x else Inl OverflowError)"

section \<open>Construction and dispatch\<close>

text \<open>
  \<open>Surface.__init__\<close>: check the handle's status, then store the handle wrapped by
  \<open>ffi.gc\<close>, whose destructor \<open>cairo_surface_destroy\<close> runs when the wrapper is
  reclaimed (\<open>gc_collect\<close> below). The class and the \<open>_data\<close> attribute are those of
  the object being initialised.
\<close>

definition Surface_init :: "py_class \<Rightarrow> nat option \<Rightarrow> handle \<Rightarrow> world \<Rightarrow> (nat \<times> world) result" where
  "Surface_init c d h w =
     rbind (native_call (cairo_surface_status h (native w))) (\<lambda>st.
     rbind (check_status st) (\<lambda>_.
       Inr (next_id w,
            w\<lparr>objects := (objects w)(next_id w \<mapsto> \<lparr>cls = c, handle = h, data_ref = d\<rparr>),
              next_id := Suc (next_id w)\<rparr>)))"

definition SURFACE_TYPE_TO_CLASS :: "cairo_surface_type \<Rightarrow> py_class option" where
  "SURFACE_TYPE_TO_CLASS = [IMAGE \<mapsto> ImageSurface_cls]"

text \<open>\<open>surface.__class__ = cls\<close>: the object keeps its handle and data.\<close>

definition set_class :: "nat \<Rightarrow> py_class \<Rightarrow> world \<Rightarrow> world" where
  "set_class oid c w =
     w\<lparr>objects := (objects w)(oid := map_option (\<lambda>obj. obj\<lparr>cls := c\<rparr>) (objects w oid))\<rparr>"

definition from_handle :: "handle \<Rightarrow> world \<Rightarrow> (nat \<times> world) result" where
  "from_handle h w =
     rbind (Surface_init Surface_cls None h w) (\<lambda>(oid, w1).
     rbind (native_call (cairo_surface_get_type h (native w1))) (\<lambda>ty.
       Inr (oid, case SURFACE_TYPE_TO_CLASS ty of
                   None \<Rightarrow> w1
                 | Some c \<Rightarrow> set_class oid c w1)))"

section \<open>Generic methods\<close>

definition copy_page :: "pysurface \<Rightarrow> world \<Rightarrow> (unit \<times> world) result" where
  "copy_page self w = native_op (cairo_surface_copy_page (handle self) (native w)) w"

definition show_page :: "pysurface \<Rightarrow> world \<Rightarrow> (unit \<times> world) result" where
  "show_page self w = native_op (cairo_surface_show_page (handle self) (native w)) w"

definition create_similar ::
  "pysurface \<Rightarrow> cairo_content \<Rightarrow> int \<Rightarrow> int \<Rightarrow> world \<Rightarrow> (nat \<times> world) result" where
  "create_similar self content width height w =
     rbind (c_int width) (\<lambda>_. rbind (c_int height) (\<lambda>_.
     rbind (native_op (cairo_surface_create_similar (handle self) content width height (native w)) w)
       (\<lambda>(h, w1). from_handle h w1)))"

text \<open>
  \<open>create_similar_image\<close> names its second parameter \<open>content\<close> but passes it as the
  \<open>cairo_format_t\<close> argument of \<open>cairo_surface_create_similar_image\<close>.
\<close>

definition create_similar_image ::
  "pysurface \<Rightarrow> cairo_format \<Rightarrow> int \<Rightarrow> int \<Rightarrow> world \<Rightarrow> (nat \<times> world) result" where
  "create_similar_image self content width height w =
     rbind (c_int width) (\<lambda>_. rbind (c_int height) (\<lambda>_.
     rbind (native_op (cairo_surface_create_similar_image (handle self) content width height
                         (native w)) w)
       (\<lambda>(h, w1). from_handle h w1)))"

definition finish :: "pysurface \<Rightarrow> world \<Rightarrow> (unit \<times> world) result" where
  "finish self w = native_op (cairo_surface_finish (handle self) (native w)) w"

definition flush :: "pysurface \<Rightarrow> world \<Rightarrow> (unit \<times> world) result" where
  "flush self w = native_with_callbacks (cairo_surface_flush (handle self) (native w)) w"

definition get_content :: "pysurface \<Rightarrow> world \<Rightarrow> cairo_content result" where
  "get_content self w = native_call (cairo_surface_get_content (handle self) (native w))"

definition get_device_offset :: "pysurface \<Rightarrow> world \<Rightarrow> (real \<times> real) result" where
  "get_device_offset self w =
     native_call (cairo_surface_get_device_offset (handle self) (native w))"

definition set_device_offset :: "pysurface \<Rightarrow> real \<Rightarrow> real \<Rightarrow> world \<Rightarrow> (unit \<times> world) result" where
  "set_device_offset self x_offset y_offset w =
     native_with_callbacks (cairo_surface_set_device_offset (handle self) x_offset y_offset (native w)) w"

definition get_fallback_resolution :: "pysurface \<Rightarrow> world \<Rightarrow> (real \<times> real) result" where
  "get_fallback_resolution self w =
     native_call (cairo_surface_get_fallback_resolution (handle self) (native w))"

text \<open>
  \<open>set_fallback_resolution\<close> calls the getter \<open>cairo_surface_get_fallback_resolution\<close>
  with its two floats where the C function expects \<open>double *\<close>: cffi refuses the
  arguments before the call.
\<close>

definition set_fallback_resolution ::
  "pysurface \<Rightarrow> real \<Rightarrow> real \<Rightarrow> world \<Rightarrow> (unit \<times> world) result" where
  "set_fallback_resolution self x_pixels_per_inch y_pixels_per_inch w =
     Inl (TypeError ''initializer for ctype 'double *' must be a cdata pointer, not float'')"

definition get_font_options :: "pysurface \<Rightarrow> world \<Rightarrow> unit result" where
  "get_font_options self w = Inl NotImplementedError"

datatype buffer_view = Buffer_view data_ptr nat

text \<open>
  The mime methods build \<open>ffi.new('char *', mime_type.encode('utf8'))\<close> and then look
  up \<open>cairo.cairo_surface_get_mime_type\<close> / \<open>cairo.cairo_surface_set_mime_type\<close>,
  names the library does not export. In \<open>set_mime_data\<close> the callee is evaluated
  before its arguments, so \<open>KeepAlive(data, mime_type)\<close> is never built.
\<close>

definition get_mime_data :: "pysurface \<Rightarrow> string \<Rightarrow> world \<Rightarrow> buffer_view result" where
  "get_mime_data self mime_type w =
     rbind (ffi_new_char (utf8_encode mime_type)) (\<lambda>_.
       Inl (AttributeError ''cairo_surface_get_mime_type''))"

definition set_mime_data :: "pysurface \<Rightarrow> string \<Rightarrow> nat \<Rightarrow> world \<Rightarrow> (unit \<times> world) result" where
  "set_mime_data self mime_type data w =
     rbind (ffi_new_char (utf8_encode mime_type)) (\<lambda>_.
       Inl (AttributeError ''cairo_surface_set_mime_type''))"

definition set_supports_mime_type :: "pysurface \<Rightarrow> string \<Rightarrow> world \<Rightarrow> (bool \<times> world) result" where
  "set_supports_mime_type self mime_type w =
     rbind (ffi_new_char (utf8_encode mime_type)) (\<lambda>m.
       native_op (cairo_surface_supports_mime_type (handle self) m (native w)) w)"

definition mark_dirty :: "pysurface \<Rightarrow> world \<Rightarrow> (unit \<times> world) result" where
  "mark_dirty self w = native_op (cairo_surface_mark_dirty (handle self) (native w)) w"

definition mark_dirty_rectangle ::
  "pysurface \<Rightarrow> int \<Rightarrow> int \<Rightarrow> int \<Rightarrow> int \<Rightarrow> world \<Rightarrow> (unit \<times> world) result" where
  "mark_dirty_rectangle self x y width height w =
     rbind (c_int x) (\<lambda>_. rbind (c_int y) (\<lambda>_. rbind (c_int width) (\<lambda>_. rbind (c_int height) (\<lambda>_.
       native_op (cairo_surface_mark_dirty_rectangle (handle self) x y width height (native w)) w))))"

section \<open>Reclamation\<close>

text \<open>
  When a wrapper is reclaimed its \<open>_handle\<close> goes with it and the \<open>ffi.gc\<close>
  destructor \<open>cairo_surface_destroy\<close> runs on the handle, firing the notifications of
  the surface's mime data if this was the last reference.
\<close>

definition gc_collect :: "nat \<Rightarrow> world \<Rightarrow> world result" where
  "gc_collect oid w =
     (case objects w oid of
        None \<Rightarrow> Inr w
      | Some obj \<Rightarrow>
          rbind (native_with_callbacks (cairo_surface_destroy (handle obj) (native w))
                   (w\<lparr>objects := (objects w)(oid := None)\<rparr>))
            (\<lambda>(_, w'). Inr w'))"

section \<open>Lemmas\<close>

lemma c_int_small [simp]: "- (2 ^ 31) \<le> x \<Longrightarrow> x < 2 ^ 31 \<Longrightarrow> c_int x = Inr x"
  by (simp add: c_int_def)

lemma c_int_Inr: "c_int x = Inr y \<longleftrightarrow> y = x \<and> - (2 ^ 31) \<le> x \<and> x < 2 ^ 31"
  by (auto simp: c_int_def)

lemma Surface_init_live:
  "surfaces (native w) a = Some s \<Longrightarrow> ns_status s = SUCCESS \<Longrightarrow>
   Surface_init c d (PTR a) w =
     Inr (next_id w, w\<lparr>objects := (objects w)(next_id w \<mapsto> \<lparr>cls = c, handle = PTR a, data_ref = d\<rparr>),
                       next_id := Suc (next_id w)\<rparr>)"
  by (simp add: Surface_init_def cairo_surface_status_def)

lemma Surface_init_NIL: "e \<noteq> SUCCESS \<Longrightarrow> Surface_init c d (NIL e) w = Inl (CairoError e)"
  by (simp add: Surface_init_def cairo_surface_status_def)

lemma Surface_init_Inr:
  assumes "Surface_init c d h w = Inr (oid, w')"
  shows "oid = next_id w \<and> cairo_surface_status h (native w) = Some SUCCESS \<and>
         w' = w\<lparr>objects := (objects w)(oid \<mapsto> \<lparr>cls = c, handle = h, data_ref = d\<rparr>),
                next_id := Suc (next_id w)\<rparr>"
  using assms
  by (auto simp: Surface_init_def rbind_eq_Inr native_call_def check_status_def
           split: option.splits if_splits)

lemma Surface_init_Inl:
  "Surface_init c d h w = Inl e \<longleftrightarrow>
   (cairo_surface_status h (native w) = None \<and> e = Native_fault) \<or>
   (\<exists>st. cairo_surface_status h (native w) = Some st \<and> st \<noteq> SUCCESS \<and> e = CairoError st)"
  by (auto simp: Surface_init_def native_call_def check_status_def rbind_def
           split: option.splits if_splits)

lemma from_handle_Inr:
  assumes "from_handle h w = Inr (oid, w')"
  shows "oid = next_id w \<and> native w' = native w \<and> next_id w' = Suc (next_id w) \<and>
         buffers w' = buffers w \<and> instances w' = instances w \<and>
         cairo_surface_status h (native w) = Some SUCCESS \<and>
         (\<exists>ty. cairo_surface_get_type h (native w) = Some ty \<and>
               objects w' = (objects w)(oid \<mapsto>
                 \<lparr>cls = (case SURFACE_TYPE_TO_CLASS ty of Some c \<Rightarrow> c | None \<Rightarrow> Surface_cls),
                  handle = h, data_ref = None\<rparr>))"
proof -
  from assms obtain w1 where init: "Surface_init Surface_cls None h w = Inr (oid, w1)"
    and rest: "rbind (native_call (cairo_surface_get_type h (native w1))) (\<lambda>ty.
                 Inr (oid, case SURFACE_TYPE_TO_CLASS ty of None \<Rightarrow> w1
                                                        | Some c \<Rightarrow> set_class oid c w1)) = Inr (oid, w')"
    by (auto simp: from_handle_def rbind_eq_Inr)
  note w1 = Surface_init_Inr [OF init]
  from rest obtain ty where ty: "cairo_surface_get_type h (native w1) = Some ty"
    and w': "w' = (case SURFACE_TYPE_TO_CLASS ty of None \<Rightarrow> w1 | Some c \<Rightarrow> set_class oid c w1)"
    by (auto simp: rbind_eq_Inr native_call_def split: option.splits)
  show ?thesis
    using w1 ty w' by (auto simp: set_class_def split: option.splits)
qed

lemma from_handle_Inl_world:
  "from_handle h w = Inl e \<Longrightarrow>
   e = Native_fault \<or> (\<exists>st. cairo_surface_status h (native w) = Some st \<and> st \<noteq> SUCCESS \<and>
                            e = CairoError st)"
  by (auto simp: from_handle_def rbind_def Surface_init_Inl native_call_def
           split: sum.splits option.splits prod.splits)

section \<open>Dispatch\<close>

text \<open>
  C14. \<open>_from_handle\<close> on a live handle: a surface in an error state raises
  \<open>CairoError\<close> with its status and creates no wrapper; otherwise one new wrapper owns
  the handle, of the class \<open>SURFACE_TYPE_TO_CLASS\<close> gives for the native type tag
  (\<open>ImageSurface\<close> for \<open>IMAGE\<close>) and of the generic class \<open>Surface\<close> for any other
  tag; the native state is unchanged.
\<close>

theorem from_handle_dispatch:
  assumes "surfaces (native w) a = Some s"
  shows "from_handle (PTR a) w =
           (if ns_status s = SUCCESS
            then Inr (next_id w,
                      w\<lparr>objects := (objects w)(next_id w \<mapsto>
                          \<lparr>cls = (if ns_type s = IMAGE then ImageSurface_cls else Surface_cls),
                           handle = PTR a, data_ref = None\<rparr>),
                        next_id := Suc (next_id w)\<rparr>)
            else Inl (CairoError (ns_status s)))"
proof (cases "ns_status s = SUCCESS")
  case True
  with assms show ?thesis
    by (simp add: from_handle_def Surface_init_live cairo_surface_get_type_def set_class_def
                  SURFACE_TYPE_TO_CLASS_def)
next
  case False
  with assms show ?thesis
    by (simp add: from_handle_def Surface_init_def cairo_surface_status_def)
qed

theorem from_handle_dispatch_witness:
  "surfaces (native example_world) 0 = Some example_surface \<and>
   from_handle (PTR 0) example_world =
     Inr (2, example_world\<lparr>objects := [2 \<mapsto> \<lparr>cls = ImageSurface_cls, handle = PTR 0, data_ref = None\<rparr>],
                            next_id := 3\<rparr>)"
proof -
  have h: "surfaces (native example_world) 0 = Some example_surface"
    by (simp add: example_world_def)
  have "ns_status example_surface = SUCCESS" "ns_type example_surface = IMAGE"
    by (simp_all add: example_surface_def new_image_surface_def)
  with from_handle_dispatch [OF h] h show ?thesis
    by (simp add: example_world_def)
qed

end
