(* ===== verification/Cairo_ImageSurface.thy ===== *)
theory Cairo_ImageSurface
  imports Cairo_Surface
begin

text \<open>
  The class \<open>ImageSurface\<close> (\<open>surfaces.py\<close>, lines 159--212) and the helper
  \<open>from_buffer\<close> (lines 43--45): a new pixel buffer, or a caller's buffer bound
  without copying after a size check, and the accessors. A caller's buffer is passed by
  reference, as its identity together with the object it names. The memory behind a
  \<open>ffi.buffer\<close> view is read through \<open>view_read\<close>, which faults on a pointer that
  designates no memory the program owns.
\<close>

section \<open>Constructors\<close>

text \<open>
  \<open>from_buffer(data)\<close>: \<open>ctypes.c_char.from_buffer\<close> wants a writable buffer of at
  least one byte; its address becomes a \<open>char *\<close>.
\<close>

definition from_buffer :: "nat \<times> pybuffer \<Rightarrow> data_ptr result" where
  "from_buffer data =
     (case data of (b, pb) \<Rightarrow>
        if \<not> buf_writable pb then Inl (TypeError ''underlying buffer is not writable'')
        else if length (buf_bytes pb) < 1
        then Inl (ValueError ''Buffer size too small (0 instead of at least 1 bytes)'')
        else Inr (Host_buffer b))"

definition format_stride_for_width :: "cairo_format \<Rightarrow> int \<Rightarrow> int result" where
  "format_stride_for_width fmt width =
     rbind (c_int width) (\<lambda>_. Inr (cairo_format_stride_for_width fmt width))"

text \<open>
  \<open>ImageSurface.__init__\<close>: without data, \<open>cairo_image_surface_create\<close>; with data,
  the stride (given, or the minimum for the width), the size check before any native
  call, \<open>self._data = data\<close>, \<open>from_buffer\<close> and
  \<open>cairo_image_surface_create_for_data\<close>; then \<open>Surface.__init__\<close>.
\<close>

definition ImageSurface_init ::
  "cairo_format \<Rightarrow> int \<Rightarrow> int \<Rightarrow> (nat \<times> pybuffer) option \<Rightarrow> int option \<Rightarrow> world \<Rightarrow>
   (nat \<times> world) result" where
  "ImageSurface_init fmt width height data stride w =
     (case data of
        None \<Rightarrow>
          rbind (c_int width) (\<lambda>_. rbind (c_int height) (\<lambda>_.
            (case cairo_image_surface_create fmt width height (native w) of
               (h, st) \<Rightarrow> Surface_init ImageSurface_cls None h (w\<lparr>native := st\<rparr>))))
      | Some (b, pb) \<Rightarrow>
          rbind (case stride of None \<Rightarrow> format_stride_for_width fmt width | Some s \<Rightarrow> Inr s)
            (\<lambda>stride'.
              if int (length (buf_bytes pb)) < stride' * height
              then Inl (ValueError_buffer (int (length (buf_bytes pb))) (stride' * height))
              else
                rbind (from_buffer (b, pb)) (\<lambda>_.
                rbind (c_int width) (\<lambda>_. rbind (c_int height) (\<lambda>_. rbind (c_int stride') (\<lambda>_.
                  (case cairo_image_surface_create_for_data b fmt width height stride' (native w) of
                     (h, st) \<Rightarrow> Surface_init ImageSurface_cls (Some b) h (w\<lparr>native := st\<rparr>))))))))"

definition create_for_data ::
  "nat \<times> pybuffer \<Rightarrow> cairo_format \<Rightarrow> int \<Rightarrow> int \<Rightarrow> int option \<Rightarrow> world \<Rightarrow> (nat \<times> world) result" where
  "create_for_data data fmt width height stride w =
     ImageSurface_init fmt width height (Some data) stride w"

section \<open>Accessors\<close>

definition get_format :: "pysurface \<Rightarrow> world \<Rightarrow> cairo_format result" where
  "get_format self w = native_call (cairo_image_surface_get_format (handle self) (native w))"

definition get_width :: "pysurface \<Rightarrow> world \<Rightarrow> int result" where
  "get_width self w = native_call (cairo_image_surface_get_width (handle self) (native w))"

definition get_height :: "pysurface \<Rightarrow> world \<Rightarrow> int result" where
  "get_height self w = native_call (cairo_image_surface_get_height (handle self) (native w))"

definition get_stride :: "pysurface \<Rightarrow> world \<Rightarrow> int result" where
  "get_stride self w = native_call (cairo_image_surface_get_stride (handle self) (native w))"

text \<open>
  \<open>get_data\<close>: \<open>ffi.buffer(pointer, size=stride * height)\<close>, arguments evaluated left to
  right. cffi takes a negative size for a pointer as \<open>unspecified\<close> and uses the size
  of the item pointed to, one byte.
\<close>

definition get_data :: "pysurface \<Rightarrow> world \<Rightarrow> buffer_view result" where
  "get_data self w =
     rbind (native_call (cairo_image_surface_get_data (handle self) (native w))) (\<lambda>p.
     rbind (get_stride self w) (\<lambda>s.
     rbind (get_height self w) (\<lambda>ht.
       Inr (Buffer_view p (if s * ht < 0 then 1 else nat (s * ht))))))"

section \<open>Memory behind a view\<close>

text \<open>
  What reading a view yields: the pixels cairo owns for a live surface, the bytes of a
  live host buffer, within their bounds; a view of length 0 over NULL reads nothing;
  anything else (NULL with a length, freed pixels, a range past the end) is undefined
  behaviour.
\<close>

definition view_read :: "buffer_view \<Rightarrow> world \<Rightarrow> bytes result" where
  "view_read v w =
     (case v of
        Buffer_view NULL n \<Rightarrow> if n = 0 then Inr [] else Inl Native_fault
      | Buffer_view (Native_pixels a) n \<Rightarrow>
          (case surfaces (native w) a of
             Some s \<Rightarrow> (case img_pixels (ns_image s) of
                          Owned_data px \<Rightarrow> if n \<le> length px then Inr (take n px) else Inl Native_fault
                        | _ \<Rightarrow> Inl Native_fault)
           | None \<Rightarrow> Inl Native_fault)
      | Buffer_view (Host_buffer b) n \<Rightarrow>
          (case buffers w b of
             Some pb \<Rightarrow> if n \<le> length (buf_bytes pb) then Inr (take n (buf_bytes pb))
                        else Inl Native_fault
           | None \<Rightarrow> Inl Native_fault))"

section \<open>Lemmas\<close>

lemma image_size_valid_c_int:
  "image_size_valid w h \<Longrightarrow> c_int w = Inr w \<and> c_int h = Inr h"
  by (simp add: image_size_valid_def c_int_def)

lemma image_create_alloc:
  "format_valid fmt \<Longrightarrow> image_size_valid width height \<Longrightarrow>
   cairo_image_surface_create fmt width height st =
     alloc_surface (new_image_surface fmt width height
       (if width = 0 \<or> height = 0 then 0 else cairo_format_stride_for_width fmt width)
       (if width = 0 \<or> height = 0 then No_data
        else Owned_data (replicate (nat (cairo_format_stride_for_width fmt width * height)) 0))) st"
  by (simp add: cairo_image_surface_create_def Let_def)

lemma ImageSurface_init_new:
  assumes "format_valid fmt" "image_size_valid width height"
  defines "s \<equiv> new_image_surface fmt width height
                 (if width = 0 \<or> height = 0 then 0 else cairo_format_stride_for_width fmt width)
                 (if width = 0 \<or> height = 0 then No_data
                  else Owned_data (replicate (nat (cairo_format_stride_for_width fmt width * height)) 0))"
  shows "ImageSurface_init fmt width height None None w =
           Inr (next_id w,
                w\<lparr>native := \<lparr>surfaces = (surfaces (native w))(next_ptr (native w) \<mapsto> s),
                              next_ptr = Suc (next_ptr (native w))\<rparr>,
                  objects := (objects w)(next_id w \<mapsto>
                    \<lparr>cls = ImageSurface_cls, handle = PTR (next_ptr (native w)), data_ref = None\<rparr>),
                  next_id := Suc (next_id w)\<rparr>)"
proof -
  have st: "ns_status s = SUCCESS" by (simp add: s_def new_image_surface_def)
  show ?thesis
    using assms(1,2) image_size_valid_c_int [OF assms(2)]
    by (simp add: ImageSurface_init_def image_create_alloc alloc_surface_def
                  Surface_init_def cairo_surface_status_def st s_def [symmetric])
qed

lemma stride_for_width_nonneg:
  "format_valid fmt \<Longrightarrow> image_size_valid width height \<Longrightarrow>
   0 \<le> cairo_format_stride_for_width fmt width"
  by (simp add: stride_for_width_eq image_size_valid_def pos_imp_zdiv_nonneg_iff)

text \<open>The accessors of a wrapper whose handle designates a live image surface.\<close>

lemma image_accessors:
  assumes "handle obj = PTR a" "surfaces (native w) a = Some s" "ns_type s = IMAGE"
  shows "get_format obj w = Inr (img_format (ns_image s))"
    "get_width obj w = Inr (img_width (ns_image s))"
    "get_height obj w = Inr (img_height (ns_image s))"
    "get_stride obj w = Inr (img_stride (ns_image s))"
  using assms
  by (simp_all add: get_format_def get_width_def get_height_def get_stride_def
        cairo_image_surface_get_format_def cairo_image_surface_get_width_def
        cairo_image_surface_get_height_def cairo_image_surface_get_stride_def image_query_def)

lemma image_data_read:
  assumes "handle obj = PTR a" "surfaces (native w) a = Some s" "ns_type s = IMAGE"
    and "img_pixels (ns_image s) = Owned_data px"
    and "img_stride (ns_image s) * img_height (ns_image s) = int (length px)"
  shows "rbind (get_data obj w) (\<lambda>v. view_read v w) = Inr px"
proof -
  have "get_data obj w = Inr (Buffer_view (Native_pixels a) (length px))"
    using assms image_accessors [OF assms(1-3)]
    by (simp add: get_data_def cairo_image_surface_get_data_def image_query_def)
  then show ?thesis using assms(2,4) by (simp add: view_read_def)
qed

section \<open>Creating an image surface\<close>

text \<open>
  C19. For a valid format and a size cairo accepts, \<open>ImageSurface(format, width,
  height)\<close> yields an \<open>ImageSurface\<close> whose live queries answer exactly the format,
  width and height it was created with. Its stride is the row size rounded up to a
  multiple of four bytes, or 0 when the width or the height is 0 (pixman then
  allocates nothing). Its pixel data reads as \<open>stride * height\<close> zero bytes.
\<close>

theorem ImageSurface_new_queries:
  assumes fmt: "format_valid fmt" and size: "image_size_valid width height"
  defines "S \<equiv> if width = 0 \<or> height = 0 then 0 else 4 * ((int (format_bpp fmt) * width + 31) div 32)"
  shows "\<exists>oid w' obj. ImageSurface_init fmt width height None None w = Inr (oid, w') \<and>
           objects w' oid = Some obj \<and> cls obj = ImageSurface_cls \<and>
           get_format obj w' = Inr fmt \<and> get_width obj w' = Inr width \<and>
           get_height obj w' = Inr height \<and> get_stride obj w' = Inr S \<and>
           rbind (get_data obj w') (\<lambda>v. view_read v w') = Inr (replicate (nat (S * height)) 0)"
proof -
  define P where "P = (if width = 0 \<or> height = 0 then No_data
                       else Owned_data (replicate (nat (S * height)) 0))"
  have S: "(if width = 0 \<or> height = 0 then 0 else cairo_format_stride_for_width fmt width) = S"
    using fmt size by (simp add: S_def stride_for_width_eq image_size_valid_def)
  have P: "(if width = 0 \<or> height = 0 then No_data
            else Owned_data (replicate (nat (cairo_format_stride_for_width fmt width * height)) 0)) = P"
    using fmt size by (simp add: P_def S_def stride_for_width_eq image_size_valid_def)
  define a where "a = next_ptr (native w)"
  define obj where "obj = \<lparr>cls = ImageSurface_cls, handle = PTR a, data_ref = None\<rparr>"
  obtain w' where init: "ImageSurface_init fmt width height None None w = Inr (next_id w, w')"
    and obj: "objects w' (next_id w) = Some obj"
    and srf: "surfaces (native w') a = Some (new_image_surface fmt width height S P)"
    using ImageSurface_init_new [OF fmt size, of w] unfolding S P by (simp add: a_def obj_def)
  have h: "handle obj = PTR a" "ns_type (new_image_surface fmt width height S P) = IMAGE"
    by (simp_all add: obj_def new_image_surface_def)
  have q: "get_format obj w' = Inr fmt" "get_width obj w' = Inr width"
    "get_height obj w' = Inr height" "get_stride obj w' = Inr S"
    using image_accessors [OF h(1) srf h(2)] by (simp_all add: new_image_surface_def)
  have "rbind (get_data obj w') (\<lambda>v. view_read v w') = Inr (replicate (nat (S * height)) 0)"
  proof (cases "width = 0 \<or> height = 0")
    case True
    then have "get_data obj w' = Inr (Buffer_view NULL 0)"
      using q(3,4) h(1) srf
      by (auto simp: get_data_def cairo_image_surface_get_data_def image_query_def S_def P_def
                     new_image_surface_def)
    then show ?thesis using True by (simp add: view_read_def S_def)
  next
    case False
    have "0 \<le> S * height"
      using stride_for_width_nonneg [OF fmt size] size S False by (simp add: image_size_valid_def)
    then show ?thesis
      using image_data_read [OF h(1) srf h(2)] False by (simp add: new_image_surface_def P_def)
  qed
  with init obj q show ?thesis by (auto simp: obj_def)
qed

theorem ImageSurface_new_queries_witness:
  "format_valid ARGB32 \<and> image_size_valid 2 3 \<and> image_size_valid 5 0 \<and>
   (\<exists>oid w' obj. ImageSurface_init ARGB32 2 3 None None example_world = Inr (oid, w') \<and>
      objects w' oid = Some obj \<and> cls obj = ImageSurface_cls \<and>
      get_format obj w' = Inr ARGB32 \<and> get_width obj w' = Inr 2 \<and>
      get_height obj w' = Inr 3 \<and> get_stride obj w' = Inr 8 \<and>
      rbind (get_data obj w') (\<lambda>v. view_read v w') = Inr (replicate 24 0)) \<and>
   (\<exists>oid w' obj. ImageSurface_init ARGB32 5 0 None None example_world = Inr (oid, w') \<and>
      objects w' oid = Some obj \<and> cls obj = ImageSurface_cls \<and>
      get_format obj w' = Inr ARGB32 \<and> get_width obj w' = Inr 5 \<and>
      get_height obj w' = Inr 0 \<and> get_stride obj w' = Inr 0 \<and>
      rbind (get_data obj w') (\<lambda>v. view_read v w') = Inr [])"
proof -
  have h: "format_valid ARGB32" "image_size_valid 2 3" "image_size_valid 5 0"
    by (simp_all add: format_valid_def image_size_valid_def)
  show ?thesis
    using ImageSurface_new_queries [OF h(1,2), of example_world]
          ImageSurface_new_queries [OF h(1,3), of example_world] h by simp
qed

lemma from_buffer_Inr: "from_buffer (b, pb) = Inr p \<longleftrightarrow>
    p = Host_buffer b \<and> buf_writable pb \<and> 1 \<le> length (buf_bytes pb)"
  by (auto simp: from_buffer_def Suc_le_eq)

lemma create_for_data_Inr:
  assumes ok: "create_for_data (b, pb) fmt width height stride w = Inr (oid, w')"
  defines "S \<equiv> (case stride of Some s \<Rightarrow> s | None \<Rightarrow> cairo_format_stride_for_width fmt width)"
  shows "S * height \<le> int (length (buf_bytes pb)) \<and> buf_writable pb \<and>
         1 \<le> length (buf_bytes pb) \<and> format_valid fmt \<and> S mod 4 = 0 \<and> image_size_valid width height \<and>
         (if S < 0 then S \<le> - cairo_format_stride_for_width fmt width
          else cairo_format_stride_for_width fmt width \<le> S) \<and>
         oid = next_id w \<and>
         native w' = \<lparr>surfaces = (surfaces (native w))(next_ptr (native w) \<mapsto>
                         new_image_surface fmt width height S (Borrowed_data b)),
                      next_ptr = Suc (next_ptr (native w))\<rparr> \<and>
         w' = w\<lparr>native := native w',
                objects := (objects w)(oid \<mapsto> \<lparr>cls = ImageSurface_cls,
                   handle = PTR (next_ptr (native w)), data_ref = Some b\<rparr>),
                next_id := Suc (next_id w)\<rparr>"
proof -
  from ok obtain s' where s': "(case stride of None \<Rightarrow> format_stride_for_width fmt width
                                | Some s \<Rightarrow> Inr s) = Inr s'"
    and rest: "(if int (length (buf_bytes pb)) < s' * height
                then Inl (ValueError_buffer (int (length (buf_bytes pb))) (s' * height))
                else rbind (from_buffer (b, pb)) (\<lambda>_.
                     rbind (c_int width) (\<lambda>_. rbind (c_int height) (\<lambda>_. rbind (c_int s') (\<lambda>_.
                       (case cairo_image_surface_create_for_data b fmt width height s' (native w) of
                          (h, st) \<Rightarrow> Surface_init ImageSurface_cls (Some b) h (w\<lparr>native := st\<rparr>)))))))
               = Inr (oid, w')"
    by (auto simp: create_for_data_def ImageSurface_init_def rbind_eq_Inr)
  have S: "s' = S"
    using s' by (cases stride) (auto simp: S_def format_stride_for_width_def rbind_eq_Inr c_int_Inr)
  from rest have len: "s' * height \<le> int (length (buf_bytes pb))"
    by (auto split: if_splits)
  from rest obtain hdl st where buf: "buf_writable pb" "1 \<le> length (buf_bytes pb)"
    and cd: "cairo_image_surface_create_for_data b fmt width height s' (native w) = (hdl, st)"
    and init: "Surface_init ImageSurface_cls (Some b) hdl (w\<lparr>native := st\<rparr>) = Inr (oid, w')"
    by (auto simp: rbind_eq_Inr from_buffer_Inr split: if_splits prod.splits)
  note w' = Surface_init_Inr [OF init]
  from create_for_data_cases [OF cd] show ?thesis
  proof
    assume "\<exists>e. hdl = NIL e \<and> e \<noteq> SUCCESS \<and> st = native w"
    with w' show ?thesis by (auto simp: cairo_surface_status_def)
  next
    assume alloc: "format_valid fmt \<and> s' mod 4 = 0 \<and> image_size_valid width height \<and>
         (if s' < 0 then s' \<le> - cairo_format_stride_for_width fmt width
          else cairo_format_stride_for_width fmt width \<le> s') \<and>
         (hdl, st) = alloc_surface (new_image_surface fmt width height s' (Borrowed_data b)) (native w)"
    then show ?thesis using w' len buf S by (auto simp: alloc_surface_def)
  qed
qed

lemma offsets_within:
  assumes "0 \<le> S" "rb \<le> S" "h * S \<le> L"
  shows "(\<lambda>(r, c). r * S + c) ` ({0..<h} \<times> {0..<rb}) \<subseteq> {0..<L :: int}"
proof
  fix x assume "x \<in> (\<lambda>(r, c). r * S + c) ` ({0..<h} \<times> {0..<rb})"
  then obtain r c where x: "x = r * S + c" and r: "0 \<le> r" "r < h" and c: "0 \<le> c" "c < rb"
    by auto
  have "(r + 1) * S \<le> h * S" using r assms(1) by (simp add: mult_right_mono)
  then have "r * S + c < h * S" using c assms(2) by (simp add: algebra_simps)
  moreover have "0 \<le> r * S" using r assms(1) by simp
  ultimately show "x \<in> {0..<L}" using x c assms(3) by simp
qed

section \<open>Binding a caller's buffer\<close>

text \<open>
  C12. The size check of \<open>ImageSurface.__init__\<close> comes before any native call: a
  buffer shorter than \<open>stride * height\<close> (the stride given, or the minimum stride for
  the width) raises the \<open>ValueError\<close> naming both byte counts, and no world is
  produced, so no native surface is allocated and no wrapper created.
\<close>

theorem create_for_data_too_small:
  fixes stride :: "int option" and fmt :: cairo_format
  assumes width: "- (2 ^ 31) \<le> width" "width < 2 ^ 31"
  defines "S \<equiv> (case stride of Some s \<Rightarrow> s | None \<Rightarrow> cairo_format_stride_for_width fmt width)"
  assumes small: "int (length (buf_bytes pb)) < S * height"
  shows "create_for_data (b, pb) fmt width height stride w =
           Inl (ValueError_buffer (int (length (buf_bytes pb))) (S * height))"
  using small width
  by (cases stride) (simp_all add: S_def create_for_data_def ImageSurface_init_def
                                   format_stride_for_width_def)

theorem create_for_data_too_small_witness:
  "- (2 ^ 31) \<le> (4::int) \<and> (4::int) < 2 ^ 31 \<and>
   int (length (buf_bytes \<lparr>buf_bytes = [1, 2], buf_writable = True\<rparr>)) < 4 * 2 \<and>
   create_for_data (1, \<lparr>buf_bytes = [1, 2], buf_writable = True\<rparr>) A8 4 2 (Some 4) example_world
     = Inl (ValueError_buffer 2 8)"
proof -
  have h: "- (2 ^ 31) \<le> (4::int)" "(4::int) < 2 ^ 31"
    "int (length (buf_bytes \<lparr>buf_bytes = [1, 2], buf_writable = True\<rparr>))
       < (case Some 4 of Some s \<Rightarrow> s | None \<Rightarrow> cairo_format_stride_for_width A8 4) * 2"
    by simp_all
  show ?thesis using create_for_data_too_small [OF h(1,2) h(3), of 1 example_world] by simp
qed

text \<open>
  C13. With a non-negative stride (given, or computed), a buffer bound by
  \<open>create_for_data\<close> is large enough for every byte the surface addresses: each row
  offset \<open>r * stride\<close> plus the row's pixel bytes lies within the buffer, and the
  surface refers to the caller's buffer itself, which its wrapper keeps as
  \<open>_data\<close>.
\<close>

theorem create_for_data_in_bounds:
  assumes ok: "create_for_data (b, pb) fmt width height stride w = Inr (oid, w')"
    and nonneg: "case stride of Some s \<Rightarrow> 0 \<le> s | None \<Rightarrow> True"
  shows "\<exists>s. surfaces (native w') (next_ptr (native w)) = Some s \<and>
             img_pixels (ns_image s) = Borrowed_data b \<and>
             objects w' oid = Some \<lparr>cls = ImageSurface_cls, handle = PTR (next_ptr (native w)),
                                    data_ref = Some b\<rparr> \<and>
             accessed_offsets (ns_image s) \<subseteq> {0..<int (length (buf_bytes pb))}"
proof -
  define S where "S = (case stride of Some s \<Rightarrow> s | None \<Rightarrow> cairo_format_stride_for_width fmt width)"
  note r = create_for_data_Inr [OF ok, folded S_def]
  have valid: "format_valid fmt" "0 \<le> width" "width \<le> 32767" "0 \<le> height"
    using r by (simp_all add: image_size_valid_def)
  have S0: "0 \<le> S"
    using nonneg stride_for_width_nonneg [of fmt width height] r
    by (cases stride) (simp_all add: S_def)
  then have minS: "cairo_format_stride_for_width fmt width \<le> S" using r by simp
  have rb: "(int (format_bpp fmt) * width + 7) div 8 \<le> S"
    using row_bytes_le_stride [OF valid(1-3)] minS by linarith
  have len: "height * S \<le> int (length (buf_bytes pb))" using r by (simp add: mult.commute)
  let ?s = "new_image_surface fmt width height S (Borrowed_data b)"
  have "accessed_offsets (ns_image ?s) \<subseteq> {0..<int (length (buf_bytes pb))}"
    using offsets_within [OF S0 rb len]
    by (simp add: accessed_offsets_def row_bytes_def new_image_surface_def)
  moreover have "surfaces (native w') (next_ptr (native w)) = Some ?s" using r by simp
  moreover have "objects w' oid = Some \<lparr>cls = ImageSurface_cls, handle = PTR (next_ptr (native w)),
                                         data_ref = Some b\<rparr>"
    using r by (metis fun_upd_same world.select_convs(2) world.surjective world.update_convs(1,2,6))
  ultimately show ?thesis by (auto simp: new_image_surface_def)
qed

lemma stride_A8_4: "cairo_format_stride_for_width A8 4 = 4"
  by (simp add: stride_for_width_eq format_valid_def)

theorem create_for_data_in_bounds_witness:
  "\<exists>oid w'. create_for_data (1, \<lparr>buf_bytes = replicate 8 0, buf_writable = True\<rparr>) A8 4 2 None
              example_world = Inr (oid, w') \<and>
            (case (None :: int option) of Some s \<Rightarrow> 0 \<le> s | None \<Rightarrow> True) \<and>
            (\<exists>s. surfaces (native w') 1 = Some s \<and> img_pixels (ns_image s) = Borrowed_data 1 \<and>
                 objects w' oid = Some \<lparr>cls = ImageSurface_cls, handle = PTR 1, data_ref = Some 1\<rparr> \<and>
                 accessed_offsets (ns_image s) \<subseteq> {0..<8})"
proof -
  have "\<exists>oid w'. create_for_data (1, \<lparr>buf_bytes = replicate 8 0, buf_writable = True\<rparr>) A8 4 2 None
                  example_world = Inr (oid, w')"
    by (simp add: create_for_data_def ImageSurface_init_def format_stride_for_width_def stride_A8_4
                  from_buffer_def cairo_image_surface_create_for_data_def image_size_valid_def
                  format_valid_def Surface_init_def cairo_surface_status_def alloc_surface_def
                  example_world_def new_image_surface_def)
  then obtain oid w' where ok: "create_for_data (1, \<lparr>buf_bytes = replicate 8 0, buf_writable = True\<rparr>)
                                  A8 4 2 None example_world = Inr (oid, w')"
    by blast
  have "next_ptr (native example_world) = 1" by (simp add: example_world_def)
  with create_for_data_in_bounds [OF ok] ok show ?thesis by auto
qed

lemma row_bytes_pos:
  "format_valid fmt \<Longrightarrow> 0 < width \<Longrightarrow> 0 < (int (format_bpp fmt) * width + 7) div 8"
proof -
  assume "format_valid fmt" "0 < width"
  moreover have "1 \<le> int (format_bpp fmt)" using format_bpp_bounds [of fmt] \<open>format_valid fmt\<close> by simp
  ultimately have "1 * 1 \<le> int (format_bpp fmt) * width" by (intro mult_mono) simp_all
  then show ?thesis by simp
qed

text \<open>
  C6. The size check does not bound a negative stride: \<open>stride * height\<close> is negative,
  so every buffer passes, whatever its length, and cairo accepts a negative aligned
  stride whose magnitude is at least the minimum stride as a bottom-up layout. For every
  valid format, every surface of at least one column and two rows, and every such
  stride, \<open>create_for_data\<close> binds the buffer, and the surface's second row starts at
  offset \<open>stride\<close>, before the buffer.
\<close>

theorem create_for_data_negative_stride_escapes:
  assumes fmt: "format_valid fmt" and size: "image_size_valid width height"
    and dims: "0 < width" "2 \<le> height"
    and stride: "stride mod 4 = 0" "stride \<le> - cairo_format_stride_for_width fmt width"
      "- (2 ^ 31) \<le> stride"
    and buf: "buf_writable pb" "1 \<le> length (buf_bytes pb)"
  shows "\<exists>oid w' s. create_for_data (b, pb) fmt width height (Some stride) w = Inr (oid, w') \<and>
           surfaces (native w') (next_ptr (native w)) = Some s \<and>
           img_pixels (ns_image s) = Borrowed_data b \<and>
           stride < 0 \<and> stride \<in> accessed_offsets (ns_image s)"
proof -
  let ?s = "new_image_surface fmt width height stride (Borrowed_data b)"
  let ?a = "next_ptr (native w)"
  have rb: "0 < (int (format_bpp fmt) * width + 7) div 8" using row_bytes_pos [OF fmt dims(1)] .
  have "(int (format_bpp fmt) * width + 7) div 8 \<le> cairo_format_stride_for_width fmt width"
    using row_bytes_le_stride [of fmt width] fmt size by (simp add: image_size_valid_def)
  then have neg: "stride < 0" using rb stride(2) by linarith
  have short: "\<not> int (length (buf_bytes pb)) < stride * height"
  proof -
    have "stride * height < 0" using neg dims(2) by (simp add: mult_neg_pos)
    then show ?thesis by simp
  qed
  have ci: "c_int width = Inr width" "c_int height = Inr height" "c_int stride = Inr stride"
    using image_size_valid_c_int [OF size] stride(3) neg by simp_all
  have cd: "cairo_image_surface_create_for_data b fmt width height stride (native w) =
              alloc_surface ?s (native w)"
    using fmt size stride(1,2) neg by (simp add: cairo_image_surface_create_for_data_def)
  have live: "surfaces (native (w\<lparr>native := snd (alloc_surface ?s (native w))\<rparr>)) ?a = Some ?s"
    "ns_status ?s = SUCCESS" by (simp_all add: alloc_surface_def new_image_surface_def)
  obtain oid w' where ok: "create_for_data (b, pb) fmt width height (Some stride) w = Inr (oid, w')"
      and w': "w' = (w\<lparr>native := snd (alloc_surface ?s (native w))\<rparr>)\<lparr>objects :=
                 (objects w)(next_id w \<mapsto> \<lparr>cls = ImageSurface_cls, handle = PTR ?a, data_ref = Some b\<rparr>),
                 next_id := Suc (next_id w)\<rparr>"
    using Surface_init_live [OF live, of ImageSurface_cls "Some b"] buf short ci cd
    by (simp add: create_for_data_def ImageSurface_init_def from_buffer_def Suc_le_eq alloc_surface_def)
  have "stride \<in> accessed_offsets (ns_image ?s)"
    unfolding accessed_offsets_def row_bytes_def
    by (rule rev_image_eqI [of "(1, 0)"]) (use dims rb in \<open>simp_all add: new_image_surface_def\<close>)
  moreover have "surfaces (native w') ?a = Some ?s" using w' by (simp add: alloc_surface_def)
  ultimately show ?thesis using ok neg by (auto simp: new_image_surface_def)
qed

theorem create_for_data_negative_stride_escapes_witness:
  "format_valid A8 \<and> image_size_valid 4 2 \<and>
   (\<exists>oid w' s. create_for_data (1, \<lparr>buf_bytes = replicate 4 0, buf_writable = True\<rparr>) A8 4 2 (Some (-4))
                 example_world = Inr (oid, w') \<and>
               surfaces (native w') (next_ptr (native example_world)) = Some s \<and>
               img_pixels (ns_image s) = Borrowed_data 1 \<and>
               (-4::int) < 0 \<and> -4 \<in> accessed_offsets (ns_image s))"
proof -
  have h: "format_valid A8" "image_size_valid 4 2"
    by (simp_all add: format_valid_def image_size_valid_def)
  show ?thesis
    using create_for_data_negative_stride_escapes [OF h, of "-4" "\<lparr>buf_bytes = replicate 4 0, buf_writable = True\<rparr>" 1 example_world]
          h by (simp add: stride_A8_4)
qed

section \<open>Minimum stride\<close>

text \<open>
  C25. \<open>ImageSurface.format_stride_for_width\<close> on every Python integer: a width outside
  C \<open>int\<close> raises \<open>OverflowError\<close>; an invalid format, a negative width, and a width
  whose row would not fit a C \<open>int\<close> give \<open>-1\<close>; every other width gives the row's
  bits rounded up to a multiple of 32, in bytes, so a multiple of 4 no smaller than
  the bytes the row holds.
\<close>

theorem format_stride_for_width_spec:
  "format_stride_for_width fmt width =
     (if width < - (2 ^ 31) \<or> 2 ^ 31 \<le> width then Inl OverflowError
      else if \<not> format_valid fmt \<or> width < 0 \<or> int (2147483640 div format_bpp fmt) \<le> width
      then Inr (-1)
      else Inr (4 * ((int (format_bpp fmt) * width + 31) div 32)))"
proof (cases "width < - (2 ^ 31) \<or> 2 ^ 31 \<le> width")
  case True
  then show ?thesis by (auto simp: format_stride_for_width_def c_int_def)
next
  case False
  then have cw: "c_int width = Inr width" by (simp add: c_int_def)
  show ?thesis
  proof (cases "\<not> format_valid fmt \<or> width < 0 \<or> int (2147483640 div format_bpp fmt) \<le> width")
    case bad: True
    have "cairo_format_stride_for_width fmt width = -1"
    proof (cases "format_valid fmt")
      case True
      then show ?thesis using bad False by (intro stride_for_width_refused) auto
    qed (simp add: cairo_format_stride_for_width_def)
    then show ?thesis using bad False cw by (simp add: format_stride_for_width_def)
  next
    case good: False
    then have "cairo_format_stride_for_width fmt width = 4 * ((int (format_bpp fmt) * width + 31) div 32)"
      by (intro stride_for_width_general) simp_all
    then show ?thesis using good False cw by (simp add: format_stride_for_width_def)
  qed
qed

theorem format_stride_for_width_spec_witness:
  "format_stride_for_width RGB30 100 = Inr 400 \<and> format_stride_for_width A1 (-3) = Inr (-1) \<and>
   format_stride_for_width A8 (2 ^ 31) = Inl OverflowError"
  using format_stride_for_width_spec [of RGB30 100] format_stride_for_width_spec [of A1 "-3"]
        format_stride_for_width_spec [of A8 "2 ^ 31"]
  by (simp add: format_valid_def)

end
