(* ===== verification/Cairo_World.thy ===== *)
theory Cairo_World
  imports Cairo_ImageSurface
begin

text \<open>
  The program as a whole: a Python program drives the binding through its public
  constructors and methods, and the garbage collector reclaims wrappers and buffers
  that are no longer referenced. \<open>api_step\<close> performs one such event on the world;
  an exception leaves the world as it was, since every raise of the modelled code comes
  before its first effect. Method lookup follows the object's class, so an
  \<open>ImageSurface\<close>-only method on a plain \<open>Surface\<close> raises \<open>AttributeError\<close>. The
  lifetime invariant \<open>wf_world\<close> states how wrappers, native surfaces and buffers
  correspond.
\<close>

section \<open>Calls\<close>

datatype method_call =
    M_copy_page | M_show_page
  | M_create_similar cairo_content int int | M_create_similar_image cairo_format int int
  | M_finish | M_flush | M_get_content
  | M_get_device_offset | M_set_device_offset real real
  | M_get_fallback_resolution | M_set_fallback_resolution real real
  | M_get_font_options
  | M_get_mime_data string | M_set_mime_data string nat | M_set_supports_mime_type string
  | M_mark_dirty | M_mark_dirty_rectangle int int int int
  | M_get_data | M_get_format | M_get_width | M_get_height | M_get_stride

datatype pyval =
    V_none | V_obj nat | V_content cairo_content | V_pair real real | V_bool bool
  | V_int int | V_format cairo_format | V_view buffer_view

fun image_only :: "method_call \<Rightarrow> bool" where
  "image_only M_get_data = True"
| "image_only M_get_format = True"
| "image_only M_get_width = True"
| "image_only M_get_height = True"
| "image_only M_get_stride = True"
| "image_only _ = False"

definition has_method :: "py_class \<Rightarrow> method_call \<Rightarrow> bool" where
  "has_method c m \<longleftrightarrow> c = ImageSurface_cls \<or> \<not> image_only m"

definition unit_call :: "(unit \<times> world) result \<Rightarrow> (pyval \<times> world) result" where
  "unit_call r = rbind r (\<lambda>(_, w'). Inr (V_none, w'))"

definition value_call :: "('a \<Rightarrow> pyval) \<Rightarrow> 'a result \<Rightarrow> world \<Rightarrow> (pyval \<times> world) result" where
  "value_call f r w = rbind r (\<lambda>x. Inr (f x, w))"

definition obj_call :: "(nat \<times> world) result \<Rightarrow> (pyval \<times> world) result" where
  "obj_call r = rbind r (\<lambda>(oid, w'). Inr (V_obj oid, w'))"

fun run_method :: "pysurface \<Rightarrow> method_call \<Rightarrow> world \<Rightarrow> (pyval \<times> world) result" where
  "run_method self M_copy_page w = unit_call (copy_page self w)"
| "run_method self M_show_page w = unit_call (show_page self w)"
| "run_method self (M_create_similar c x y) w = obj_call (create_similar self c x y w)"
| "run_method self (M_create_similar_image f x y) w = obj_call (create_similar_image self f x y w)"
| "run_method self M_finish w = unit_call (finish self w)"
| "run_method self M_flush w = unit_call (flush self w)"
| "run_method self M_get_content w = value_call V_content (get_content self w) w"
| "run_method self M_get_device_offset w =
     value_call (\<lambda>(x, y). V_pair x y) (get_device_offset self w) w"
| "run_method self (M_set_device_offset x y) w = unit_call (set_device_offset self x y w)"
| "run_method self M_get_fallback_resolution w =
     value_call (\<lambda>(x, y). V_pair x y) (get_fallback_resolution self w) w"
| "run_method self (M_set_fallback_resolution x y) w = unit_call (set_fallback_resolution self x y w)"
| "run_method self M_get_font_options w = value_call (\<lambda>_. V_none) (get_font_options self w) w"
| "run_method self (M_get_mime_data m) w = value_call V_view (get_mime_data self m w) w"
| "run_method self (M_set_mime_data m d) w = unit_call (set_mime_data self m d w)"
| "run_method self (M_set_supports_mime_type m) w =
     rbind (set_supports_mime_type self m w) (\<lambda>(b, w'). Inr (V_bool b, w'))"
| "run_method self M_mark_dirty w = unit_call (mark_dirty self w)"
| "run_method self (M_mark_dirty_rectangle x y a b) w = unit_call (mark_dirty_rectangle self x y a b w)"
| "run_method self M_get_data w = value_call V_view (get_data self w) w"
| "run_method self M_get_format w = value_call V_format (get_format self w) w"
| "run_method self M_get_width w = value_call V_int (get_width self w) w"
| "run_method self M_get_height w = value_call V_int (get_height self w) w"
| "run_method self M_get_stride w = value_call V_int (get_stride self w) w"

text \<open>Attribute lookup on the object's class, then the method.\<close>

definition call_method :: "nat \<Rightarrow> method_call \<Rightarrow> world \<Rightarrow> (pyval \<times> world) result" where
  "call_method oid m w =
     (case objects w oid of
        None \<Rightarrow> Inr (V_none, w)
      | Some obj \<Rightarrow>
          if has_method (cls obj) m then run_method obj m w
          else Inl (AttributeError ''object has no such attribute''))"

text \<open>
  The events of a run. A caller can only name objects it holds, so a call on a
  reclaimed object does nothing. The collector reclaims a buffer only when no wrapper
  keeps it as \<open>_data\<close> and no registered KeepAlive holds it.
\<close>

datatype api_call =
    New_image cairo_format int int
  | New_for_data nat cairo_format int int "int option"
  | New_buffer bytes bool
  | Call nat method_call
  | Collect nat
  | Collect_buffer nat

definition buffer_referenced :: "world \<Rightarrow> nat \<Rightarrow> bool" where
  "buffer_referenced w b \<longleftrightarrow>
     (\<exists>oid obj. objects w oid = Some obj \<and> data_ref obj = Some b) \<or>
     (\<exists>k ka. k \<in> instances w \<and> keepalives w k = Some ka \<and> Kept_buffer b \<in> set (ka_objects ka))"

fun api_step :: "api_call \<Rightarrow> world \<Rightarrow> (pyval \<times> world) result" where
  "api_step (New_image fmt x y) w = obj_call (ImageSurface_init fmt x y None None w)"
| "api_step (New_for_data b fmt x y s) w =
     (case buffers w b of
        None \<Rightarrow> Inr (V_none, w)
      | Some pb \<Rightarrow> obj_call (create_for_data (b, pb) fmt x y s w))"
| "api_step (New_buffer bs wr) w =
     Inr (V_obj (next_id w),
          w\<lparr>buffers := (buffers w)(next_id w \<mapsto> \<lparr>buf_bytes = bs, buf_writable = wr\<rparr>),
            next_id := Suc (next_id w)\<rparr>)"
| "api_step (Call oid m) w = call_method oid m w"
| "api_step (Collect oid) w = rbind (gc_collect oid w) (\<lambda>w'. Inr (V_none, w'))"
| "api_step (Collect_buffer b) w =
     (if buffer_referenced w b then Inr (V_none, w)
      else Inr (V_none, w\<lparr>buffers := (buffers w)(b := None)\<rparr>))"

definition init_world :: world where
  "init_world =
     \<lparr>native = \<lparr>surfaces = Map.empty, next_ptr = 0\<rparr>, objects = Map.empty, buffers = Map.empty,
      keepalives = Map.empty, instances = {}, next_id = 0, files = Map.empty\<rparr>"

inductive reachable :: "world \<Rightarrow> bool" where
  init: "reachable init_world"
| step: "reachable w \<Longrightarrow> api_step c w = Inr (v, w') \<Longrightarrow> reachable w'"

text \<open>
  The collector reclaiming the wrappers named in a list, one after the other, as at
  interpreter exit: each reclamation runs the wrapper's \<open>ffi.gc\<close> destructor.
\<close>

primrec collect_all :: "nat list \<Rightarrow> world \<Rightarrow> world result" where
  "collect_all [] w = Inr w"
| "collect_all (oid # oids) w = rbind (gc_collect oid w) (collect_all oids)"

section \<open>The lifetime invariant\<close>

definition class_of_type :: "cairo_surface_type \<Rightarrow> py_class" where
  "class_of_type t = (case SURFACE_TYPE_TO_CLASS t of Some c \<Rightarrow> c | None \<Rightarrow> Surface_cls)"

text \<open>
  The bytes behind the data pointer of a surface are there: cairo's own pixels have
  the length \<open>stride * height\<close>, a borrowed buffer is alive and at least as long as
  the view \<open>get_data\<close> makes of it.
\<close>

definition view_size :: "image_info \<Rightarrow> nat" where
  "view_size i = (if img_stride i * img_height i < 0 then 1 else nat (img_stride i * img_height i))"

text \<open>
  The rows of an image do not overlap: the width is not negative and, when there are
  rows, the stride, taken by its magnitude, holds a row's bytes.
\<close>

definition rows_fit :: "image_info \<Rightarrow> bool" where
  "rows_fit i \<longleftrightarrow> 0 \<le> img_width i \<and> (img_height i = 0 \<or> row_bytes i \<le> \<bar>img_stride i\<bar>)"

definition pixels_ok :: "world \<Rightarrow> image_info \<Rightarrow> bool" where
  "pixels_ok w i \<longleftrightarrow> rows_fit i \<and>
     ((case img_pixels i of
        Owned_data px \<Rightarrow> length px = view_size i
      | Borrowed_data b \<Rightarrow> (\<exists>pb. buffers w b = Some pb \<and> view_size i \<le> length (buf_bytes pb))
      | No_data \<Rightarrow> True))"

text \<open>
  Every wrapper owns one live surface, referenced once, of the class its type tag
  selects, and keeps the buffer the surface borrows; no two wrappers share a handle;
  every live surface has its wrapper (nothing leaks), carries no mime data and has its
  pixels in place, which only \<open>finish\<close> takes away (an image with no rows or no
  columns has none from the start); identities are below the counters.
\<close>

definition objs_ok :: "world \<Rightarrow> bool" where
  "objs_ok w \<longleftrightarrow>
     (\<forall>oid obj. objects w oid = Some obj \<longrightarrow>
        oid < next_id w \<and>
        (\<exists>a s. handle obj = PTR a \<and> surfaces (native w) a = Some s \<and> ns_ref s = 1 \<and>
               cls obj = class_of_type (ns_type s) \<and>
               (\<forall>b. img_pixels (ns_image s) = Borrowed_data b \<longrightarrow> data_ref obj = Some b)) \<and>
        (\<forall>b. data_ref obj = Some b \<longrightarrow> buffers w b \<noteq> None))"

definition handles_unique :: "world \<Rightarrow> bool" where
  "handles_unique w \<longleftrightarrow>
     (\<forall>o1 o2 x1 x2. objects w o1 = Some x1 \<longrightarrow> objects w o2 = Some x2 \<longrightarrow>
        handle x1 = handle x2 \<longrightarrow> o1 = o2)"

definition surfaces_owned :: "world \<Rightarrow> bool" where
  "surfaces_owned w \<longleftrightarrow>
     (\<forall>a s. surfaces (native w) a = Some s \<longrightarrow>
        a < next_ptr (native w) \<and> (\<exists>oid obj. objects w oid = Some obj \<and> handle obj = PTR a) \<and>
        ns_mime s = [] \<and> pixels_ok w (ns_image s) \<and>
        (img_pixels (ns_image s) = No_data \<longrightarrow>
           ns_finished s \<or> img_width (ns_image s) = 0 \<or> img_height (ns_image s) = 0))"

definition ids_ok :: "world \<Rightarrow> bool" where
  "ids_ok w \<longleftrightarrow>
     (\<forall>b. buffers w b \<noteq> None \<longrightarrow> b < next_id w) \<and>
     (\<forall>k. keepalives w k \<noteq> None \<longrightarrow> k < next_id w) \<and> instances w = {}"

definition wf_world :: "world \<Rightarrow> bool" where
  "wf_world w \<longleftrightarrow> objs_ok w \<and> handles_unique w \<and> surfaces_owned w \<and> ids_ok w"

text \<open>
  Two proof devices: a native update that keeps what the invariant reads of a surface,
  and the outcome of a native constructor (a nil surface with an error, or one new
  surface at the next address).
\<close>

definition keeps_shape :: "nsurf \<Rightarrow> nsurf \<Rightarrow> bool" where
  "keeps_shape s s' \<longleftrightarrow>
     ns_ref s' = ns_ref s \<and> ns_type s' = ns_type s \<and> set (ns_mime s') \<subseteq> set (ns_mime s) \<and>
     img_stride (ns_image s') = img_stride (ns_image s) \<and>
     img_height (ns_image s') = img_height (ns_image s) \<and>
     img_width (ns_image s') = img_width (ns_image s) \<and>
     img_format (ns_image s') = img_format (ns_image s) \<and> (ns_finished s \<longrightarrow> ns_finished s') \<and>
     (img_pixels (ns_image s') = img_pixels (ns_image s) \<or>
      img_pixels (ns_image s') = No_data \<and> ns_finished s')"

definition fresh_alloc ::
  "cairo_state \<Rightarrow> handle \<Rightarrow> cairo_state \<Rightarrow> (nsurf \<Rightarrow> bool) \<Rightarrow> bool" where
  "fresh_alloc st hdl st' P \<longleftrightarrow>
     (\<exists>e. hdl = NIL e \<and> e \<noteq> SUCCESS \<and> st' = st) \<or>
     (\<exists>s. hdl = PTR (next_ptr st) \<and> P s \<and>
          st' = st\<lparr>surfaces := (surfaces st)(next_ptr st \<mapsto> s), next_ptr := Suc (next_ptr st)\<rparr>)"

definition new_owned :: "nsurf \<Rightarrow> bool" where
  "new_owned s \<longleftrightarrow> ns_ref s = 1 \<and> ns_mime s = [] \<and> ns_status s = SUCCESS \<and> ns_type s = IMAGE \<and>
     (img_pixels (ns_image s) = Owned_data (replicate (view_size (ns_image s)) 0) \<or>
      img_pixels (ns_image s) = No_data \<and> (img_width (ns_image s) = 0 \<or> img_height (ns_image s) = 0)) \<and>
     rows_fit (ns_image s)"

section \<open>Lemmas\<close>

lemma wf_init: "wf_world init_world"
  by (simp add: wf_world_def objs_ok_def handles_unique_def surfaces_owned_def ids_ok_def
                init_world_def)

lemma unfinished_noop_shape: "keeps_shape s (snd (unfinished_noop s))"
  by (simp add: keeps_shape_def)

lemma finish_shape: "keeps_shape s (if ns_finished s then s else finish_surface s)"
  by (auto simp: keeps_shape_def finish_surface_def Let_def split: pixels.splits)

lemma detach_mime_empty: "ns_mime s = [] \<Longrightarrow> detach_mime s = ([], s)"
  by (simp add: detach_mime_def)

lemma pixels_ok_shape:
  "pixels_ok w (ns_image s) \<Longrightarrow> keeps_shape s s' \<Longrightarrow> pixels_ok w (ns_image s')"
  by (auto simp: pixels_ok_def keeps_shape_def view_size_def rows_fit_def row_bytes_def
           split: pixels.splits)

lemma pixels_ok_native [simp]: "pixels_ok (w\<lparr>native := X\<rparr>) i = pixels_ok w i"
  by (simp add: pixels_ok_def split: pixels.splits)

lemma wf_update_surface:
  assumes wf: "wf_world w" and s: "surfaces (native w) a = Some s" and k: "keeps_shape s s'"
  shows "wf_world (w\<lparr>native := (native w)\<lparr>surfaces := (surfaces (native w))(a \<mapsto> s')\<rparr>\<rparr>)"
    (is "wf_world ?w")
proof -
  have "pixels_ok w (ns_image s)" using wf s by (simp add: wf_world_def surfaces_owned_def)
  then have pix: "pixels_ok w (ns_image s')" using k by (rule pixels_ok_shape)
  have "img_pixels (ns_image s) = No_data \<longrightarrow>
      ns_finished s \<or> img_width (ns_image s) = 0 \<or> img_height (ns_image s) = 0"
    using wf s by (simp add: wf_world_def surfaces_owned_def)
  then have fin: "img_pixels (ns_image s') = No_data \<longrightarrow>
      ns_finished s' \<or> img_width (ns_image s') = 0 \<or> img_height (ns_image s') = 0"
    using k by (auto simp: keeps_shape_def)
  have "ns_mime s = []" using wf s by (simp add: wf_world_def surfaces_owned_def)
  then have same: "ns_ref s' = ns_ref s" "ns_type s' = ns_type s" "ns_mime s' = ns_mime s"
    and bor: "\<And>b. img_pixels (ns_image s') = Borrowed_data b \<Longrightarrow> img_pixels (ns_image s) = Borrowed_data b"
    using k by (auto simp: keeps_shape_def)
  have "objs_ok ?w"
    unfolding objs_ok_def
  proof (intro allI impI)
    fix oid obj assume o: "objects ?w oid = Some obj"
    then have old: "oid < next_id w \<and>
        (\<exists>a s. handle obj = PTR a \<and> surfaces (native w) a = Some s \<and> ns_ref s = 1 \<and>
               cls obj = class_of_type (ns_type s) \<and>
               (\<forall>b. img_pixels (ns_image s) = Borrowed_data b \<longrightarrow> data_ref obj = Some b)) \<and>
        (\<forall>b. data_ref obj = Some b \<longrightarrow> buffers w b \<noteq> None)"
      using wf by (simp add: wf_world_def objs_ok_def)
    then obtain a' t where a': "handle obj = PTR a'" "surfaces (native w) a' = Some t" "ns_ref t = 1"
        "cls obj = class_of_type (ns_type t)"
        "\<forall>b. img_pixels (ns_image t) = Borrowed_data b \<longrightarrow> data_ref obj = Some b"
      by blast
    show "oid < next_id ?w \<and>
        (\<exists>a s. handle obj = PTR a \<and> surfaces (native ?w) a = Some s \<and> ns_ref s = 1 \<and>
               cls obj = class_of_type (ns_type s) \<and>
               (\<forall>b. img_pixels (ns_image s) = Borrowed_data b \<longrightarrow> data_ref obj = Some b)) \<and>
        (\<forall>b. data_ref obj = Some b \<longrightarrow> buffers ?w b \<noteq> None)"
    proof (cases "a' = a")
      case True
      with a' s have "t = s" by simp
      with True a' same bor old show ?thesis by auto
    next
      case False
      with a' old show ?thesis by auto
    qed
  qed
  moreover have "handles_unique ?w" using wf by (simp add: wf_world_def handles_unique_def)
  moreover have "surfaces_owned ?w"
    using wf s same pix fin unfolding wf_world_def surfaces_owned_def by auto
  moreover have "ids_ok ?w" using wf by (simp add: wf_world_def ids_ok_def)
  ultimately show ?thesis by (simp add: wf_world_def)
qed

lemma keeps_shape_refl [simp]: "keeps_shape s s"
  by (simp add: keeps_shape_def)

lemma wf_modify:
  assumes wf: "wf_world w" and m: "modify h (native w) nil f = Some (r, st')"
    and k: "\<And>a s. h = PTR a \<Longrightarrow> surfaces (native w) a = Some s \<Longrightarrow> keeps_shape s (snd (f s))"
  shows "wf_world (w\<lparr>native := st'\<rparr>)"
proof (cases h)
  case (NIL e)
  with m have "st' = native w" by simp
  with wf show ?thesis by simp
next
  case (PTR a)
  with m obtain s where s: "surfaces (native w) a = Some s"
    and st': "st' = (native w)\<lparr>surfaces := (surfaces (native w))(a \<mapsto> snd (f s))\<rparr>"
    by (cases "surfaces (native w) a") auto
  show ?thesis
    unfolding st' by (rule wf_update_surface [OF wf s k [OF PTR s]])
qed

lemma wf_surface_of:
  assumes "wf_world w" "objects w oid = Some obj"
  obtains a s where "handle obj = PTR a" "surfaces (native w) a = Some s" "ns_ref s = 1"
    "cls obj = class_of_type (ns_type s)" "ns_mime s = []" "a < next_ptr (native w)"
    "\<And>b. img_pixels (ns_image s) = Borrowed_data b \<Longrightarrow> data_ref obj = Some b"
  using assms unfolding wf_world_def objs_ok_def surfaces_owned_def by fastforce

lemma pixels_ok_same_buffers:
  "buffers w' = buffers w \<Longrightarrow> pixels_ok w' i = pixels_ok w i"
  by (simp add: pixels_ok_def split: pixels.splits)

lemma wf_add_wrapped:
  assumes wf: "wf_world w" and a: "a = next_ptr (native w)"
    and s: "ns_ref s = 1" "ns_mime s = []" "pixels_ok w (ns_image s)"
      "img_pixels (ns_image s) = No_data \<Longrightarrow>
       ns_finished s \<or> img_width (ns_image s) = 0 \<or> img_height (ns_image s) = 0"
      "\<And>b. img_pixels (ns_image s) = Borrowed_data b \<Longrightarrow> d = Some b"
      "\<And>b. d = Some b \<Longrightarrow> buffers w b \<noteq> None" "c = class_of_type (ns_type s)"
  shows "wf_world (w\<lparr>native := (native w)\<lparr>surfaces := (surfaces (native w))(a \<mapsto> s), next_ptr := Suc a\<rparr>,
                     objects := (objects w)(next_id w \<mapsto> \<lparr>cls = c, handle = PTR a, data_ref = d\<rparr>),
                     next_id := Suc (next_id w)\<rparr>)" (is "wf_world ?w")
proof -
  have old_obj: "\<And>oid obj. objects w oid = Some obj \<Longrightarrow> oid < next_id w \<and> handle obj \<noteq> PTR a"
  proof -
    fix oid obj assume o: "objects w oid = Some obj"
    then obtain a' t where "handle obj = PTR a'" "a' < next_ptr (native w)"
      using wf_surface_of [OF wf o] by metis
    moreover have "oid < next_id w" using wf o by (simp add: wf_world_def objs_ok_def)
    ultimately show "oid < next_id w \<and> handle obj \<noteq> PTR a" using a by auto
  qed
  have dead: "surfaces (native w) a = None"
  proof (rule ccontr)
    assume "surfaces (native w) a \<noteq> None"
    then obtain t where "surfaces (native w) a = Some t" by auto
    with wf have "a < next_ptr (native w)" by (simp add: wf_world_def surfaces_owned_def)
    with a show False by simp
  qed
  have pix: "\<And>i. pixels_ok ?w i = pixels_ok w i" by (rule pixels_ok_same_buffers) simp
  have "objs_ok ?w"
    unfolding objs_ok_def
    apply (intro allI impI)
    subgoal premises p for oid obj
    proof (cases "oid = next_id w")
      case True
      then show ?thesis using p s by auto
    next
      case False
      then have o: "objects w oid = Some obj" using p by simp
      obtain a' t where t: "handle obj = PTR a'" "surfaces (native w) a' = Some t" "ns_ref t = 1"
        "cls obj = class_of_type (ns_type t)"
        "\<And>b. img_pixels (ns_image t) = Borrowed_data b \<Longrightarrow> data_ref obj = Some b"
        using wf_surface_of [OF wf o] by metis
      have "a' \<noteq> a" using t(2) dead by auto
      moreover have "oid < next_id w" "\<forall>b. data_ref obj = Some b \<longrightarrow> buffers w b \<noteq> None"
        using wf o by (simp_all add: wf_world_def objs_ok_def)
      ultimately show ?thesis using False o t by auto
    qed
    done
  moreover have "handles_unique ?w"
    unfolding handles_unique_def
    apply (intro allI impI)
    subgoal premises p for o1 o2 x1 x2
    proof (cases "o1 = next_id w")
      case True
      show ?thesis
      proof (rule ccontr)
        assume "o1 \<noteq> o2"
        with True p(2) have "objects w o2 = Some x2" by simp
        with old_obj have "handle x2 \<noteq> PTR a" by blast
        moreover from True p(1) have "handle x1 = PTR a" by auto
        ultimately show False using p(3) by simp
      qed
    next
      case False
      with p(1) have o1: "objects w o1 = Some x1" by simp
      show ?thesis
      proof (cases "o2 = next_id w")
        case True
        with p(2) have "handle x1 = PTR a" using p(3) by auto
        with o1 old_obj show ?thesis by blast
      next
        case False
        with p(2) have "objects w o2 = Some x2" by simp
        with o1 p(3) wf show ?thesis unfolding wf_world_def handles_unique_def by blast
      qed
    qed
    done
  moreover have "surfaces_owned ?w"
    unfolding surfaces_owned_def
    apply (intro allI impI)
    subgoal premises p for a' t
    proof (cases "a' = a")
      case True
      with p have "t = s" by simp
      with True s pix a show ?thesis by auto
    next
      case False
      with p have t: "surfaces (native w) a' = Some t" by simp
      with wf obtain oid obj where "objects w oid = Some obj" "handle obj = PTR a'"
          "a' < next_ptr (native w)" "ns_mime t = []" "pixels_ok w (ns_image t)"
          "img_pixels (ns_image t) = No_data \<longrightarrow>
             ns_finished t \<or> img_width (ns_image t) = 0 \<or> img_height (ns_image t) = 0"
        unfolding wf_world_def surfaces_owned_def by blast
      moreover from this(1) old_obj have "oid \<noteq> next_id w" by blast
      ultimately show ?thesis using a pix by auto
    qed
    done
  moreover have "ids_ok ?w" using wf by (auto simp: wf_world_def ids_ok_def)
  ultimately show ?thesis by (simp add: wf_world_def)
qed

lemma wf_world_frame:
  assumes "wf_world w" "native w' = native w" "objects w' = objects w" "buffers w' = buffers w"
    "keepalives w' = keepalives w" "next_id w' = next_id w" "instances w' = {}"
  shows "wf_world w'"
proof -
  have "\<And>i. pixels_ok w' i = pixels_ok w i" using assms(4) by (rule pixels_ok_same_buffers)
  then show ?thesis using assms
    unfolding wf_world_def objs_ok_def handles_unique_def surfaces_owned_def ids_ok_def by simp
qed

lemma wf_invoke_destroys: "wf_world w \<Longrightarrow> wf_world (invoke_destroys fs w)"
  by (rule wf_world_frame)
     (simp_all add: instances_invoke_destroys wf_world_def ids_ok_def)

lemma keeps_shape_set_error [simp]: "keeps_shape s (set_error e s)"
  by (simp add: keeps_shape_def)

lemma keeps_shape_detach [simp]: "keeps_shape s (snd (detach_mime s))"
  by (simp add: keeps_shape_def detach_mime_def)

lemma from_handle_live:
  assumes "surfaces (native w) a = Some s" "ns_status s = SUCCESS"
  shows "from_handle (PTR a) w =
    Inr (next_id w, w\<lparr>objects := (objects w)(next_id w \<mapsto>
            \<lparr>cls = class_of_type (ns_type s), handle = PTR a, data_ref = None\<rparr>),
          next_id := Suc (next_id w)\<rparr>)"
  using assms
  by (simp add: from_handle_def Surface_init_live cairo_surface_get_type_def set_class_def
                class_of_type_def split: option.split)

lemma new_owned_pixels_ok: "new_owned s \<Longrightarrow> pixels_ok w (ns_image s)"
  by (auto simp: new_owned_def pixels_ok_def)

lemma wf_from_handle_fresh:
  assumes wf: "wf_world w" and fa: "fresh_alloc (native w) h st new_owned"
    and ok: "from_handle h (w\<lparr>native := st\<rparr>) = Inr (oid, w')"
  shows "wf_world w'"
proof -
  let ?a = "next_ptr (native w)"
  from fa consider (nil) e where "h = NIL e" "e \<noteq> SUCCESS"
    | (new) s where "h = PTR ?a" "new_owned s"
        "st = (native w)\<lparr>surfaces := (surfaces (native w))(?a \<mapsto> s), next_ptr := Suc ?a\<rparr>"
    unfolding fresh_alloc_def by blast
  then show ?thesis
  proof cases
    case nil
    then show ?thesis using from_handle_Inr [OF ok] by (simp add: cairo_surface_status_def)
  next
    case new
    have live: "surfaces st ?a = Some s" "ns_status s = SUCCESS"
      using new by (simp_all add: new_owned_def)
    have "from_handle h (w\<lparr>native := st\<rparr>) =
      Inr (next_id w, w\<lparr>native := st, objects := (objects w)(next_id w \<mapsto>
             \<lparr>cls = class_of_type (ns_type s), handle = PTR ?a, data_ref = None\<rparr>),
             next_id := Suc (next_id w)\<rparr>)"
      using from_handle_live [of "w\<lparr>native := st\<rparr>" ?a s] live new(1) by simp
    with ok have "w' = w\<lparr>native := st, objects := (objects w)(next_id w \<mapsto>
             \<lparr>cls = class_of_type (ns_type s), handle = PTR ?a, data_ref = None\<rparr>),
             next_id := Suc (next_id w)\<rparr>" by (metis Inr_inject prod.inject)
    moreover have "pixels_ok w (ns_image s)" using new(2) by (rule new_owned_pixels_ok)
    ultimately show ?thesis
      using wf_add_wrapped [OF wf refl, of s None] new(2,3) by (auto simp: new_owned_def)
  qed
qed

lemma fresh_allocI:
  "P s \<Longrightarrow> (h, st') = alloc_surface s st \<Longrightarrow> fresh_alloc st h st' P"
  unfolding fresh_alloc_def alloc_surface_def by auto

lemma rows_fit_stride:
  assumes "format_valid fmt" "image_size_valid x y"
    and "cairo_format_stride_for_width fmt x \<le> \<bar>stride\<bar>"
  shows "rows_fit (ns_image (new_image_surface fmt x y stride px))"
  using row_bytes_le_stride [of fmt x] assms
  by (simp add: rows_fit_def row_bytes_def new_image_surface_def image_size_valid_def)

lemma image_create_fresh:
  assumes "cairo_image_surface_create fmt x y st = (h, st')"
  shows "fresh_alloc st h st' new_owned"
proof (cases "format_valid fmt \<and> image_size_valid x y")
  case True
  show ?thesis
  proof (cases "x = 0 \<or> y = 0")
    case zero: True
    have "rows_fit (ns_image (new_image_surface fmt x y 0 No_data))"
      using True zero by (auto simp: rows_fit_def row_bytes_def new_image_surface_def image_size_valid_def)
    then show ?thesis
      using assms True zero
      by (intro fresh_allocI [where s = "new_image_surface fmt x y 0 No_data"])
         (simp_all add: cairo_image_surface_create_def new_owned_def new_image_surface_def)
  next
    case False
    have "0 \<le> cairo_format_stride_for_width fmt x * y"
      using True stride_for_width_nonneg [of fmt x y] by (simp add: image_size_valid_def)
    moreover have "rows_fit (ns_image (new_image_surface fmt x y (cairo_format_stride_for_width fmt x)
            (Owned_data (replicate (nat (cairo_format_stride_for_width fmt x * y)) 0))))"
      using True stride_for_width_nonneg [of fmt x y] by (intro rows_fit_stride) simp_all
    ultimately show ?thesis
      using assms True False
      by (intro fresh_allocI [where s = "new_image_surface fmt x y (cairo_format_stride_for_width fmt x)
            (Owned_data (replicate (nat (cairo_format_stride_for_width fmt x * y)) 0))"])
         (simp_all add: cairo_image_surface_create_def new_owned_def new_image_surface_def
                        view_size_def Let_def)
  qed
next
  case False
  then show ?thesis
    using assms by (auto simp: cairo_image_surface_create_def fresh_alloc_def split: if_splits)
qed

lemma cairo_state_upd_swap:
  "st\<lparr>next_ptr := x, surfaces := y\<rparr> = st\<lparr>surfaces := y, next_ptr := x\<rparr>"
  by (cases st) simp

lemma cairo_state_upd_full:
  "st\<lparr>surfaces := x, next_ptr := y\<rparr> = \<lparr>surfaces = x, next_ptr = y\<rparr>"
  by (cases st) simp

lemma fresh_alloc_new:
  "P s \<Longrightarrow> fresh_alloc st (PTR (next_ptr st))
              (st\<lparr>surfaces := (surfaces st)(next_ptr st \<mapsto> s), next_ptr := Suc (next_ptr st)\<rparr>) P"
  unfolding fresh_alloc_def by auto

lemma fresh_alloc_nil: "e \<noteq> SUCCESS \<Longrightarrow> fresh_alloc st (NIL e) st P"
  unfolding fresh_alloc_def by auto

lemma similar_precheck_Inl:
  "similar_precheck (PTR a) x y st = Some (Inl e) \<Longrightarrow> e \<noteq> SUCCESS"
  by (auto simp: similar_precheck_def split: if_splits)

lemma similar_fresh:
  assumes ok: "cairo_surface_create_similar (PTR a) c x y st = Some (h, st')"
  shows "fresh_alloc st h st' new_owned"
proof -
  obtain r where pre: "similar_precheck (PTR a) x y st = Some r"
    using ok by (cases "similar_precheck (PTR a) x y st") (auto simp: cairo_surface_create_similar_def)
  show ?thesis
  proof (cases r)
    case (Inl e)
    then show ?thesis
      using ok pre similar_precheck_Inl [of a x y st e]
      by (auto simp: cairo_surface_create_similar_def intro: fresh_alloc_nil)
  next
    case (Inr s)
    obtain h0 st0 where c: "cairo_image_surface_create (format_of_content c) x y st = (h0, st0)"
      by fastforce
    from image_create_fresh [OF c] consider (nil) e where "h0 = NIL e" "e \<noteq> SUCCESS" "st0 = st"
      | (new) n where "h0 = PTR (next_ptr st)" "new_owned n"
          "st0 = st\<lparr>surfaces := (surfaces st)(next_ptr st \<mapsto> n), next_ptr := Suc (next_ptr st)\<rparr>"
      unfolding fresh_alloc_def by blast
    then show ?thesis
    proof cases
      case nil
      then show ?thesis
        using ok pre Inr c by (auto simp: cairo_surface_create_similar_def intro: fresh_alloc_nil)
    next
      case new
      then have "h = PTR (next_ptr st) \<and>
          st' = st\<lparr>surfaces := (surfaces st)(next_ptr st \<mapsto> n\<lparr>ns_fallback := ns_fallback s\<rparr>),
                   next_ptr := Suc (next_ptr st)\<rparr>"
        using ok pre Inr c by (simp add: cairo_surface_create_similar_def cairo_state_upd_swap)
      moreover have "new_owned (n\<lparr>ns_fallback := ns_fallback s\<rparr>)"
        using new(2) by (simp add: new_owned_def view_size_def)
      ultimately show ?thesis by (simp add: fresh_alloc_new)
    qed
  qed
qed

lemma similar_image_fresh:
  assumes ok: "cairo_surface_create_similar_image (PTR a) fmt x y st = Some (h, st')"
  shows "fresh_alloc st h st' new_owned"
proof -
  obtain r where pre: "similar_precheck (PTR a) x y st = Some r"
    using ok by (cases "similar_precheck (PTR a) x y st")
                (auto simp: cairo_surface_create_similar_image_def)
  show ?thesis
  proof (cases r)
    case (Inl e)
    then show ?thesis
      using ok pre similar_precheck_Inl [of a x y st e]
      by (auto simp: cairo_surface_create_similar_image_def intro: fresh_alloc_nil)
  next
    case (Inr s)
    then show ?thesis
      using ok pre image_create_fresh [of fmt x y st h st']
      by (auto simp: cairo_surface_create_similar_image_def intro: fresh_alloc_nil split: if_splits)
  qed
qed

lemma unit_call_Inr: "unit_call r = Inr (v, w') \<longleftrightarrow> v = V_none \<and> (\<exists>u. r = Inr (u, w'))"
  by (cases r) (auto simp: unit_call_def)

lemma value_call_Inr: "value_call f r w = Inr (v, w') \<Longrightarrow> w' = w"
  by (cases r) (auto simp: value_call_def)

lemma obj_call_Inr: "obj_call r = Inr (v, w') \<Longrightarrow> \<exists>oid. r = Inr (oid, w')"
  by (cases r) (auto simp: obj_call_def)

lemma keeps_shape_flush:
  "keeps_shape s (snd (if ns_status s \<noteq> SUCCESS \<or> ns_finished s then ([], s) else detach_mime s))"
  by simp

lemma keeps_shape_set_device_offset:
  "keeps_shape s (snd (if ns_status s \<noteq> SUCCESS then ([], s)
                      else if ns_finished s then ([], set_error SURFACE_FINISHED s)
                      else (case detach_mime s of (fired, s') \<Rightarrow> (fired, s'\<lparr>ns_device_offset := (x, y)\<rparr>))))"
  by (simp add: keeps_shape_def detach_mime_def)

lemma run_method_wf:
  assumes wf: "wf_world w" and o: "objects w oid = Some obj"
    and ok: "run_method obj m w = Inr (v, w')"
  shows "wf_world w'"
proof -
  obtain a s where h: "handle obj = PTR a" and s: "surfaces (native w) a = Some s"
    using wf_surface_of [OF wf o] by metis
  note upd = wf_update_surface [OF wf s]
  note ctor = wf_from_handle_fresh [OF wf]
  show ?thesis
  proof (cases m)
    case (M_create_similar c x y)
    then obtain h' st oid' where "cairo_surface_create_similar (PTR a) c x y (native w) = Some (h', st)"
        "from_handle h' (w\<lparr>native := st\<rparr>) = Inr (oid', w')"
      using ok h by (auto dest!: obj_call_Inr simp: create_similar_def rbind_eq_Inr native_op_def
                          split: option.splits)
    then show ?thesis by (blast intro: ctor similar_fresh)
  next
    case (M_create_similar_image f x y)
    then obtain h' st oid' where "cairo_surface_create_similar_image (PTR a) f x y (native w) = Some (h', st)"
        "from_handle h' (w\<lparr>native := st\<rparr>) = Inr (oid', w')"
      using ok h by (auto dest!: obj_call_Inr simp: create_similar_image_def rbind_eq_Inr native_op_def
                          split: option.splits)
    then show ?thesis by (blast intro: ctor similar_image_fresh)
  qed (use ok h s wf in \<open>auto dest: value_call_Inr
        simp: unit_call_Inr rbind_eq_Inr copy_page_def show_page_def finish_def flush_def
              set_device_offset_def set_fallback_resolution_def set_mime_data_def
              set_supports_mime_type_def mark_dirty_def mark_dirty_rectangle_def
              cairo_surface_copy_page_def cairo_surface_show_page_def cairo_surface_finish_def
              cairo_surface_flush_def cairo_surface_set_device_offset_def
              cairo_surface_supports_mime_type_def cairo_surface_mark_dirty_def
              cairo_surface_mark_dirty_rectangle_def
              intro!: wf_invoke_destroys upd unfinished_noop_shape finish_shape keeps_shape_flush
                      keeps_shape_set_device_offset\<close>)
qed

lemma wf_wrap_new:
  assumes wf: "wf_world w" and s: "new_owned s"
  shows "wf_world (w\<lparr>native := (native w)\<lparr>surfaces := (surfaces (native w))(next_ptr (native w) \<mapsto> s),
                                         next_ptr := Suc (next_ptr (native w))\<rparr>,
                     objects := (objects w)(next_id w \<mapsto> \<lparr>cls = ImageSurface_cls,
                                   handle = PTR (next_ptr (native w)), data_ref = None\<rparr>),
                     next_id := Suc (next_id w)\<rparr>)"
proof -
  have "pixels_ok w (ns_image s)" "ImageSurface_cls = class_of_type (ns_type s)"
    using s by (simp_all add: new_owned_pixels_ok new_owned_def class_of_type_def SURFACE_TYPE_TO_CLASS_def)
  then show ?thesis using wf_add_wrapped [OF wf refl, of s None] s by (auto simp: new_owned_def)
qed

lemma wf_Surface_init_fresh:
  assumes wf: "wf_world w" and fa: "fresh_alloc (native w) h st new_owned"
    and ok: "Surface_init ImageSurface_cls None h (w\<lparr>native := st\<rparr>) = Inr (oid, w')"
  shows "wf_world w'"
proof -
  note w' = Surface_init_Inr [OF ok]
  from fa w' obtain s where "h = PTR (next_ptr (native w))" "new_owned s"
      "st = (native w)\<lparr>surfaces := (surfaces (native w))(next_ptr (native w) \<mapsto> s),
                       next_ptr := Suc (next_ptr (native w))\<rparr>"
    unfolding fresh_alloc_def by (auto simp: cairo_surface_status_def)
  with w' wf_wrap_new [OF wf, of s] show ?thesis by simp
qed

lemma wf_create_for_data:
  assumes wf: "wf_world w" and b: "buffers w b = Some pb"
    and ok: "create_for_data (b, pb) fmt x y stride w = Inr (oid, w')"
  shows "wf_world w'"
proof -
  define S where "S = (case stride of Some s \<Rightarrow> s | None \<Rightarrow> cairo_format_stride_for_width fmt x)"
  note r = create_for_data_Inr [OF ok, folded S_def]
  let ?s = "new_image_surface fmt x y S (Borrowed_data b)"
  have "view_size (ns_image ?s) \<le> length (buf_bytes pb)"
    using r by (auto simp: view_size_def new_image_surface_def)
  moreover have "rows_fit (ns_image ?s)"
    using r by (intro rows_fit_stride) (auto split: if_splits)
  ultimately have "pixels_ok w (ns_image ?s)"
    using b by (simp add: pixels_ok_def new_image_surface_def)
  moreover have "ImageSurface_cls = class_of_type (ns_type ?s)"
    by (simp add: new_image_surface_def class_of_type_def SURFACE_TYPE_TO_CLASS_def)
  ultimately have "wf_world (w\<lparr>native := (native w)\<lparr>surfaces := (surfaces (native w))(next_ptr (native w) \<mapsto> ?s),
                     next_ptr := Suc (next_ptr (native w))\<rparr>,
                     objects := (objects w)(next_id w \<mapsto> \<lparr>cls = ImageSurface_cls,
                                   handle = PTR (next_ptr (native w)), data_ref = Some b\<rparr>),
                     next_id := Suc (next_id w)\<rparr>)"
    using wf_add_wrapped [OF wf refl, of ?s "Some b"] b by (simp add: new_image_surface_def)
  moreover have "w' = w\<lparr>native := (native w)\<lparr>surfaces := (surfaces (native w))(next_ptr (native w) \<mapsto> ?s),
                     next_ptr := Suc (next_ptr (native w))\<rparr>,
                     objects := (objects w)(next_id w \<mapsto> \<lparr>cls = ImageSurface_cls,
                                   handle = PTR (next_ptr (native w)), data_ref = Some b\<rparr>),
                     next_id := Suc (next_id w)\<rparr>"
  proof -
    from r have "native w' = (native w)\<lparr>surfaces := (surfaces (native w))(next_ptr (native w) \<mapsto> ?s),
                     next_ptr := Suc (next_ptr (native w))\<rparr>"
      by (simp add: cairo_state_upd_full)
    moreover from r have "oid = next_id w"
      "w' = w\<lparr>native := native w', objects := (objects w)(oid \<mapsto> \<lparr>cls = ImageSurface_cls,
                                   handle = PTR (next_ptr (native w)), data_ref = Some b\<rparr>),
                     next_id := Suc (next_id w)\<rparr>" by blast+
    ultimately show ?thesis by simp
  qed
  ultimately show ?thesis by simp
qed

lemma wf_remove_wrapped:
  assumes wf: "wf_world w" and o: "objects w oid = Some obj" and h: "handle obj = PTR a"
  shows "wf_world (w\<lparr>native := (native w)\<lparr>surfaces := (surfaces (native w))(a := None)\<rparr>,
                     objects := (objects w)(oid := None)\<rparr>)" (is "wf_world ?w")
proof -
  have other: "\<And>oid' obj'. objects w oid' = Some obj' \<Longrightarrow> oid' \<noteq> oid \<Longrightarrow> handle obj' \<noteq> PTR a"
    using wf o h unfolding wf_world_def handles_unique_def by metis
  have pix: "\<And>i. pixels_ok ?w i = pixels_ok w i" by (rule pixels_ok_same_buffers) simp
  have "objs_ok ?w"
    unfolding objs_ok_def
    apply (intro allI impI)
    subgoal premises p for oid' obj'
    proof -
      have o': "objects w oid' = Some obj'" "oid' \<noteq> oid" using p by (auto split: if_splits)
      obtain a' t where t: "handle obj' = PTR a'" "surfaces (native w) a' = Some t" "ns_ref t = 1"
        "cls obj' = class_of_type (ns_type t)"
        "\<And>b. img_pixels (ns_image t) = Borrowed_data b \<Longrightarrow> data_ref obj' = Some b"
        using wf_surface_of [OF wf o'(1)] by metis
      have "a' \<noteq> a" using other [OF o'] t(1) by auto
      moreover have "oid' < next_id w" "\<forall>b. data_ref obj' = Some b \<longrightarrow> buffers w b \<noteq> None"
        using wf o'(1) by (simp_all add: wf_world_def objs_ok_def)
      ultimately show ?thesis using t by auto
    qed
    done
  moreover have "handles_unique ?w"
    using wf unfolding wf_world_def handles_unique_def by (simp split: if_splits)
  moreover have "surfaces_owned ?w"
    unfolding surfaces_owned_def
    apply (intro allI impI)
    subgoal premises p for a' t
    proof -
      have t: "surfaces (native w) a' = Some t" "a' \<noteq> a" using p by (auto split: if_splits)
      with wf obtain oid' obj' where "objects w oid' = Some obj'" "handle obj' = PTR a'"
          "a' < next_ptr (native w)" "ns_mime t = []" "pixels_ok w (ns_image t)"
          "img_pixels (ns_image t) = No_data \<longrightarrow>
             ns_finished t \<or> img_width (ns_image t) = 0 \<or> img_height (ns_image t) = 0"
        unfolding wf_world_def surfaces_owned_def by blast
      moreover from this(1,2) t(2) h have "oid' \<noteq> oid" using o by auto
      ultimately show ?thesis using pix by auto
    qed
    done
  moreover have "ids_ok ?w" using wf by (simp add: wf_world_def ids_ok_def)
  ultimately show ?thesis by (simp add: wf_world_def)
qed

lemma wf_remove_buffer:
  assumes wf: "wf_world w" and nref: "\<not> buffer_referenced w b"
  shows "wf_world (w\<lparr>buffers := (buffers w)(b := None)\<rparr>)" (is "wf_world ?w")
proof -
  have nd: "\<And>oid obj. objects w oid = Some obj \<Longrightarrow> data_ref obj \<noteq> Some b"
    using nref unfolding buffer_referenced_def by blast
  have pix: "\<And>oid obj a t. objects w oid = Some obj \<Longrightarrow> handle obj = PTR a \<Longrightarrow>
      surfaces (native w) a = Some t \<Longrightarrow> pixels_ok w (ns_image t) \<Longrightarrow> pixels_ok ?w (ns_image t)"
  proof -
    fix oid obj a t
    assume o: "objects w oid = Some obj" and h: "handle obj = PTR a"
      and t: "surfaces (native w) a = Some t" and ok: "pixels_ok w (ns_image t)"
    obtain a' t' where "handle obj = PTR a'" "surfaces (native w) a' = Some t'"
        "\<And>b'. img_pixels (ns_image t') = Borrowed_data b' \<Longrightarrow> data_ref obj = Some b'"
      using wf_surface_of [OF wf o] by metis
    with h t have "\<And>b'. img_pixels (ns_image t) = Borrowed_data b' \<Longrightarrow> b' \<noteq> b"
      using nd [OF o] by auto
    with ok show "pixels_ok ?w (ns_image t)" by (auto simp: pixels_ok_def split: pixels.splits)
  qed
  have "objs_ok ?w" using wf nd unfolding wf_world_def objs_ok_def by auto
  moreover have "handles_unique ?w" using wf by (simp add: wf_world_def handles_unique_def)
  moreover have "surfaces_owned ?w"
    using wf pix unfolding wf_world_def surfaces_owned_def by simp metis
  moreover have "ids_ok ?w" using wf by (simp add: wf_world_def ids_ok_def)
  ultimately show ?thesis by (simp add: wf_world_def)
qed

lemma pixels_ok_mono:
  "pixels_ok w i \<Longrightarrow> buffers w \<subseteq>\<^sub>m buffers w' \<Longrightarrow> pixels_ok w' i"
  by (auto simp: pixels_ok_def map_le_def dom_def split: pixels.splits)

lemma wf_add_buffer:
  assumes wf: "wf_world w"
  shows "wf_world (w\<lparr>buffers := (buffers w)(next_id w \<mapsto> pb), next_id := Suc (next_id w)\<rparr>)"
    (is "wf_world ?w")
proof -
  have fresh: "buffers w (next_id w) = None" using wf by (auto simp: wf_world_def ids_ok_def)
  then have le: "buffers w \<subseteq>\<^sub>m buffers ?w" by (auto simp: map_le_def)
  have "objs_ok ?w" using wf unfolding wf_world_def objs_ok_def by (simp add: less_SucI)
  moreover have "handles_unique ?w" using wf by (simp add: wf_world_def handles_unique_def)
  moreover have "surfaces_owned ?w"
    using wf pixels_ok_mono [OF _ le] unfolding wf_world_def surfaces_owned_def by simp
  moreover have "ids_ok ?w" using wf by (auto simp: wf_world_def ids_ok_def less_SucI)
  ultimately show ?thesis by (simp add: wf_world_def)
qed

lemma gc_collect_live:
  assumes wf: "wf_world w" and o: "objects w oid = Some obj"
  obtains a where "handle obj = PTR a"
    "gc_collect oid w = Inr (w\<lparr>native := (native w)\<lparr>surfaces := (surfaces (native w))(a := None)\<rparr>,
                                 objects := (objects w)(oid := None)\<rparr>)"
proof -
  obtain a s where h: "handle obj = PTR a" and s: "surfaces (native w) a = Some s"
    and "ns_ref s = 1" "ns_mime s = []"
    using wf_surface_of [OF wf o] by metis
  then have "cairo_surface_destroy (PTR a) (native w) =
               Some ([], (native w)\<lparr>surfaces := (surfaces (native w))(a := None)\<rparr>)"
    by (simp add: destroy_last_ref)
  with o h show ?thesis by (intro that [OF h]) (simp add: gc_collect_def)
qed

lemma wf_gc_collect:
  assumes wf: "wf_world w" and ok: "gc_collect oid w = Inr w'"
  shows "wf_world w'"
proof (cases "objects w oid")
  case None
  with ok wf show ?thesis by (simp add: gc_collect_def)
next
  case (Some obj)
  from gc_collect_live [OF wf Some] obtain a where "handle obj = PTR a"
    "gc_collect oid w = Inr (w\<lparr>native := (native w)\<lparr>surfaces := (surfaces (native w))(a := None)\<rparr>,
                                 objects := (objects w)(oid := None)\<rparr>)" .
  with ok wf_remove_wrapped [OF wf Some] show ?thesis by simp
qed

lemma wf_image_init:
  assumes wf: "wf_world w" and ok: "ImageSurface_init fmt x y None None w = Inr (oid, w')"
  shows "wf_world w'"
proof -
  obtain h st where c: "cairo_image_surface_create fmt x y (native w) = (h, st)" by fastforce
  with ok have "Surface_init ImageSurface_cls None h (w\<lparr>native := st\<rparr>) = Inr (oid, w')"
    by (auto simp: ImageSurface_init_def rbind_eq_Inr)
  with image_create_fresh [OF c] show ?thesis by (rule wf_Surface_init_fresh [OF wf])
qed

lemma wf_call_method:
  assumes wf: "wf_world w" and ok: "call_method oid m w = Inr (v, w')"
  shows "wf_world w'"
proof (cases "objects w oid")
  case None
  with ok wf show ?thesis by (simp add: call_method_def)
next
  case (Some obj)
  with ok have "run_method obj m w = Inr (v, w')" by (simp add: call_method_def split: if_splits)
  with wf Some show ?thesis by (rule run_method_wf)
qed

lemma wf_api_step:
  assumes wf: "wf_world w" and ok: "api_step c w = Inr (v, w')"
  shows "wf_world w'"
proof (cases c)
  case (New_image fmt x y)
  with ok obtain oid where "ImageSurface_init fmt x y None None w = Inr (oid, w')"
    by (auto dest: obj_call_Inr)
  with wf show ?thesis by (rule wf_image_init)
next
  case (New_for_data b fmt x y stride)
  show ?thesis
  proof (cases "buffers w b")
    case None
    with ok wf New_for_data show ?thesis by simp
  next
    case (Some pb)
    with ok New_for_data obtain oid where "create_for_data (b, pb) fmt x y stride w = Inr (oid, w')"
      by (auto dest: obj_call_Inr)
    with wf Some show ?thesis by (rule wf_create_for_data)
  qed
next
  case (New_buffer bs wr)
  with ok wf_add_buffer [OF wf] show ?thesis by auto
next
  case (Call oid m)
  with ok wf show ?thesis by (auto intro: wf_call_method)
next
  case (Collect oid)
  with ok wf show ?thesis by (auto simp: rbind_eq_Inr intro: wf_gc_collect)
next
  case (Collect_buffer b)
  with ok wf wf_remove_buffer [OF wf, of b] show ?thesis by (auto split: if_splits)
qed

subsection \<open>No call reaches undefined native behaviour\<close>

lemma rbind_eq_Inl: "rbind m f = Inl e \<longleftrightarrow> m = Inl e \<or> (\<exists>x. m = Inr x \<and> f x = Inl e)"
  by (cases m) simp_all

lemma fresh_alloc_status: "fresh_alloc st h st' P \<Longrightarrow> cairo_surface_status h st' \<noteq> None"
  by (auto simp: fresh_alloc_def cairo_surface_status_def)

lemma Surface_init_no_fault:
  "cairo_surface_status h (native w) \<noteq> None \<Longrightarrow> Surface_init c d h w \<noteq> Inl Native_fault"
  by (auto simp: Surface_init_Inl)

lemma from_handle_no_fault:
  assumes st: "cairo_surface_status h (native w) \<noteq> None"
  shows "from_handle h w \<noteq> Inl Native_fault"
proof
  assume f: "from_handle h w = Inl Native_fault"
  show False
  proof (cases "Surface_init Surface_cls None h w")
    case (Inl e)
    with f Surface_init_no_fault [OF st] show False by (simp add: from_handle_def)
  next
    case (Inr r)
    then obtain oid w1 where r: "Surface_init Surface_cls None h w = Inr (oid, w1)" by (cases r) auto
    have "native w1 = native w" using Surface_init_Inr [OF r] by simp
    then have "cairo_surface_get_type h (native w1) \<noteq> None"
      using st by (simp add: cairo_surface_get_type_def cairo_surface_status_def query_None_iff)
    with f r show False by (auto simp: from_handle_def split: option.splits)
  qed
qed

lemma fresh_from_handle_no_fault:
  "fresh_alloc (native w) h st P \<Longrightarrow> from_handle h (w\<lparr>native := st\<rparr>) \<noteq> Inl Native_fault"
  by (rule from_handle_no_fault) (simp add: fresh_alloc_status)

lemma image_init_no_fault: "ImageSurface_init fmt x y None None w \<noteq> Inl Native_fault"
proof -
  obtain h st where c: "cairo_image_surface_create fmt x y (native w) = (h, st)" by fastforce
  have "Surface_init ImageSurface_cls None h (w\<lparr>native := st\<rparr>) \<noteq> Inl Native_fault"
    using fresh_alloc_status [OF image_create_fresh [OF c]] by (intro Surface_init_no_fault) simp
  with c show ?thesis by (auto simp: ImageSurface_init_def rbind_eq_Inl c_int_def)
qed

lemma create_for_data_no_fault: "create_for_data (b, pb) fmt x y stride w \<noteq> Inl Native_fault"
proof -
  have "\<And>s' h st. cairo_image_surface_create_for_data b fmt x y s' (native w) = (h, st) \<Longrightarrow>
          Surface_init ImageSurface_cls (Some b) h (w\<lparr>native := st\<rparr>) \<noteq> Inl Native_fault"
  proof (rule Surface_init_no_fault)
    fix s' h st assume "cairo_image_surface_create_for_data b fmt x y s' (native w) = (h, st)"
    from create_for_data_cases [OF this]
    show "cairo_surface_status h (native (w\<lparr>native := st\<rparr>)) \<noteq> None"
      by (auto simp: alloc_surface_def cairo_surface_status_def)
  qed
  then show ?thesis
    by (auto simp: create_for_data_def ImageSurface_init_def rbind_eq_Inl c_int_def from_buffer_def
                   format_stride_for_width_def split: option.splits prod.splits if_splits)
qed

lemma similar_not_None:
  "surfaces st a = Some s \<Longrightarrow> cairo_surface_create_similar (PTR a) c x y st \<noteq> None"
  "surfaces st a = Some s \<Longrightarrow> cairo_surface_create_similar_image (PTR a) f x y st \<noteq> None"
  by (auto simp: cairo_surface_create_similar_def cairo_surface_create_similar_image_def
                 similar_precheck_def split: sum.splits prod.splits handle.splits)

lemma call_wrappers_Inl:
  "unit_call r = Inl e \<longleftrightarrow> (\<exists>e'. r = Inl e' \<and> e' = e)"
  "value_call f r' w = Inl e \<longleftrightarrow> r' = Inl e"
  "obj_call r'' = Inl e \<longleftrightarrow> r'' = Inl e"
  by (auto simp: unit_call_def value_call_def obj_call_def rbind_eq_Inl)

lemma run_method_no_fault:
  assumes h: "handle obj = PTR a" and s: "surfaces (native w) a = Some s"
  shows "run_method obj m w \<noteq> Inl Native_fault"
proof (cases m)
  case (M_create_similar c x y)
  obtain h' st where cs: "cairo_surface_create_similar (PTR a) c x y (native w) = Some (h', st)"
    using similar_not_None(1) [OF s] by fastforce
  have "from_handle h' (w\<lparr>native := st\<rparr>) \<noteq> Inl Native_fault"
    by (rule fresh_from_handle_no_fault [OF similar_fresh [OF cs]])
  with cs h M_create_similar show ?thesis
    by (auto simp: create_similar_def call_wrappers_Inl rbind_eq_Inl c_int_def)
next
  case (M_create_similar_image f x y)
  obtain h' st where cs: "cairo_surface_create_similar_image (PTR a) f x y (native w) = Some (h', st)"
    using similar_not_None(2) [OF s] by fastforce
  have "from_handle h' (w\<lparr>native := st\<rparr>) \<noteq> Inl Native_fault"
    by (rule fresh_from_handle_no_fault [OF similar_image_fresh [OF cs]])
  with cs h M_create_similar_image show ?thesis
    by (auto simp: create_similar_image_def call_wrappers_Inl rbind_eq_Inl c_int_def)
qed (use h s in \<open>auto simp: call_wrappers_Inl rbind_eq_Inl c_int_def ffi_new_char_def
        copy_page_def show_page_def finish_def flush_def get_content_def get_device_offset_def
        set_device_offset_def get_fallback_resolution_def set_fallback_resolution_def
        get_font_options_def get_mime_data_def set_mime_data_def set_supports_mime_type_def
        mark_dirty_def mark_dirty_rectangle_def get_data_def get_format_def get_width_def
        get_height_def get_stride_def
        cairo_surface_copy_page_def cairo_surface_show_page_def cairo_surface_finish_def
        cairo_surface_flush_def cairo_surface_get_content_def cairo_surface_get_device_offset_def
        cairo_surface_set_device_offset_def cairo_surface_get_fallback_resolution_def
        cairo_surface_supports_mime_type_def cairo_surface_mark_dirty_def
        cairo_surface_mark_dirty_rectangle_def cairo_image_surface_get_data_def
        cairo_image_surface_get_format_def cairo_image_surface_get_width_def
        cairo_image_surface_get_height_def cairo_image_surface_get_stride_def image_query_def\<close>)

lemma wf_no_objects:
  "wf_world w \<Longrightarrow> objects w = Map.empty \<Longrightarrow> surfaces (native w) = Map.empty"
  unfolding wf_world_def surfaces_owned_def by fastforce

lemma gc_collect_wf_Inr:
  assumes wf: "wf_world w"
  shows "\<exists>w1. gc_collect oid w = Inr w1 \<and> wf_world w1 \<and>
              objects w1 = (objects w)(oid := None) \<and> buffers w1 = buffers w"
proof (cases "objects w oid")
  case None
  with wf show ?thesis by (auto simp: gc_collect_def)
next
  case (Some obj)
  from gc_collect_live [OF wf Some] obtain a where "handle obj = PTR a"
    "gc_collect oid w = Inr (w\<lparr>native := (native w)\<lparr>surfaces := (surfaces (native w))(a := None)\<rparr>,
                                 objects := (objects w)(oid := None)\<rparr>)" .
  with wf_remove_wrapped [OF wf Some] show ?thesis by simp
qed

lemma get_data_Native_pixels:
  assumes "get_data obj w = Inr (Buffer_view (Native_pixels a) n)"
  shows "handle obj = PTR a \<and>
         (\<exists>s px. surfaces (native w) a = Some s \<and> img_pixels (ns_image s) = Owned_data px \<and>
                 n = view_size (ns_image s))"
proof -
  obtain a' where h: "handle obj = PTR a'"
    using assms by (cases "handle obj") (auto simp: get_data_def cairo_image_surface_get_data_def rbind_eq_Inr)
  obtain s where s: "surfaces (native w) a' = Some s"
    using assms h by (cases "surfaces (native w) a'")
                     (auto simp: get_data_def cairo_image_surface_get_data_def image_query_def rbind_eq_Inr)
  show ?thesis
    using assms h s
    by (auto simp: get_data_def get_stride_def get_height_def cairo_image_surface_get_data_def
                   cairo_image_surface_get_stride_def cairo_image_surface_get_height_def
                   image_query_def view_size_def split: if_splits pixels.splits)
qed

text \<open>In a state satisfying the invariant no event of the API reaches undefined native behaviour.\<close>

lemma api_step_safe:
  assumes wf: "wf_world w"
  shows "api_step c w \<noteq> Inl Native_fault"
proof (cases c)
  case (New_image fmt x y)
  then show ?thesis by (simp add: call_wrappers_Inl image_init_no_fault)
next
  case (New_for_data b fmt x y stride)
  then show ?thesis
    by (simp add: call_wrappers_Inl create_for_data_no_fault split: option.split)
next
  case (Call oid m)
  show ?thesis
  proof (cases "objects w oid")
    case (Some obj)
    obtain a s where "handle obj = PTR a" "surfaces (native w) a = Some s"
      using wf_surface_of [OF wf Some] by metis
    with Call Some show ?thesis by (simp add: call_method_def run_method_no_fault)
  qed (simp add: Call call_method_def)
next
  case (Collect oid)
  then show ?thesis using gc_collect_wf_Inr [OF wf, of oid] by auto
qed simp_all

end
