(* ===== verification/Cairo_Stream.thy ===== *)
theory Cairo_Stream
  imports Cairo_Status
begin

text \<open>
  The stream bridge of \<open>surfaces.py\<close> (lines 18--34): \<open>_make_read_func\<close> and
  \<open>_make_write_func\<close> turn a Python file-like object into the
  \<open>cairo_read_func_t\<close> / \<open>cairo_write_func_t\<close> callbacks that the native PNG code
  calls, one chunk at a time, in order. The file object is a state \<open>'f\<close> with its
  \<open>read\<close> or \<open>write\<close> method as a function; a method may raise, possibly after
  changing the object. An exception inside a callback becomes the callback's declared
  \<open>error=\<close> status, as cffi does. The native side is modelled by the loops that drive
  a callback over a list of chunks (\<open>write_chunks\<close>, \<open>read_requests\<close>), and
  \<open>io.BytesIO\<close> serves as a concrete file object.
\<close>

type_synonym 'f read_method = "'f \<Rightarrow> nat \<Rightarrow> (py_error \<times> 'f) + (bytes \<times> 'f)"
type_synonym 'f write_method = "'f \<Rightarrow> bytes \<Rightarrow> (py_error \<times> 'f) + 'f"

section \<open>The callbacks\<close>

text \<open>
  \<open>read_func(closure, data, length)\<close>: read up to \<open>length\<close> bytes; fewer means
  premature end of input and \<open>READ_ERROR\<close>; otherwise the slice assignment
  \<open>ffi.buffer(data, length)[:len(string)] = string\<close> fills the native buffer. The
  result pairs the status with the bytes placed in the native buffer, if any. (A read
  method returning more than \<open>length\<close> bytes makes the slice assignment raise, which
  the callback reports as \<open>READ_ERROR\<close>.)
\<close>

definition make_read_func ::
  "'f read_method \<Rightarrow> 'f \<Rightarrow> nat \<Rightarrow> (cairo_status \<times> bytes option) \<times> 'f" where
  "make_read_func read f len =
     (case read f len of
        Inl (_, f') \<Rightarrow> ((READ_ERROR, None), f')
      | Inr (string, f') \<Rightarrow>
          if length string < len then ((READ_ERROR, None), f')
          else if length string = len then ((SUCCESS, Some string), f')
          else ((READ_ERROR, None), f'))"

text \<open>\<open>write_func(_closure, data, length)\<close>: hand the \<open>length\<close> bytes to \<open>write\<close>.\<close>

definition make_write_func :: "'f write_method \<Rightarrow> 'f \<Rightarrow> bytes \<Rightarrow> cairo_status \<times> 'f" where
  "make_write_func write f data =
     (case write f data of Inl (_, f') \<Rightarrow> (WRITE_ERROR, f') | Inr f' \<Rightarrow> (SUCCESS, f'))"

section \<open>The native side of a stream\<close>

text \<open>
  cairo's PNG writer passes its output to the write callback chunk by chunk and stops
  at the first failing call, whose status it returns.
\<close>

fun write_chunks ::
  "('f \<Rightarrow> bytes \<Rightarrow> cairo_status \<times> 'f) \<Rightarrow> bytes list \<Rightarrow> 'f \<Rightarrow> cairo_status \<times> 'f" where
  "write_chunks write_cb [] f = (SUCCESS, f)"
| "write_chunks write_cb (c # cs) f =
     (case write_cb f c of (st, f') \<Rightarrow> if st = SUCCESS then write_chunks write_cb cs f' else (st, f'))"

text \<open>
  cairo's PNG reader asks the read callback for byte counts of its choosing and stops
  at the first failing call; what it has received is the concatenation of the chunks.
\<close>

fun read_requests ::
  "('f \<Rightarrow> nat \<Rightarrow> (cairo_status \<times> bytes option) \<times> 'f) \<Rightarrow> nat list \<Rightarrow> 'f \<Rightarrow>
   (cairo_status \<times> bytes) \<times> 'f" where
  "read_requests read_cb [] f = ((SUCCESS, []), f)"
| "read_requests read_cb (n # ns) f =
     (case read_cb f n of
        ((st, Some bs), f') \<Rightarrow>
          if st = SUCCESS
          then (case read_requests read_cb ns f' of ((st', rest), f'') \<Rightarrow> ((st', bs @ rest), f''))
          else ((st, []), f')
      | ((st, None), f') \<Rightarrow> ((st, []), f'))"

section \<open>A concrete file object\<close>

text \<open>\<open>io.BytesIO\<close>: a byte string and a position; writes overwrite and extend.\<close>

record bytesio =
  bio_data :: bytes
  bio_pos :: nat

definition bytesio_read :: "bytesio read_method" where
  "bytesio_read b n =
     (let s = take n (drop (bio_pos b) (bio_data b)) in Inr (s, b\<lparr>bio_pos := bio_pos b + length s\<rparr>))"

definition bytesio_write :: "bytesio write_method" where
  "bytesio_write b s =
     Inr (b\<lparr>bio_data := take (bio_pos b) (bio_data b) @ s @ drop (bio_pos b + length s) (bio_data b),
           bio_pos := bio_pos b + length s\<rparr>)"

definition bytesio_new :: "bytes \<Rightarrow> bytesio" where
  "bytesio_new bs = \<lparr>bio_data = bs, bio_pos = 0\<rparr>"

text \<open>
  Two sinks that cannot take every byte. A raw file (\<open>io.FileIO\<close>, a pipe, a socket)
  whose \<open>write\<close> stores only the bytes that fit, up to \<open>k\<close> in all, and returns how
  many it stored; the count is not part of the model, since \<open>_make_write_func\<close> drops
  it. And a file whose \<open>write\<close> raises \<open>e\<close> (a full disk) once \<open>k\<close> bytes would be
  exceeded, storing nothing of that call.
\<close>

definition short_write :: "nat \<Rightarrow> bytesio write_method" where
  "short_write k b s =
     (let s' = take (k - length (bio_data b)) s in
      Inr (b\<lparr>bio_data := bio_data b @ s', bio_pos := length (bio_data b) + length s'\<rparr>))"

definition full_write :: "nat \<Rightarrow> py_error \<Rightarrow> bytesio write_method" where
  "full_write k e b s =
     (if length (bio_data b) + length s \<le> k then bytesio_write b s else Inl (e, b))"

section \<open>Lemmas\<close>

lemma bytesio_write_end:
  "bio_pos b = length (bio_data b) \<Longrightarrow>
   bytesio_write b s = Inr \<lparr>bio_data = bio_data b @ s, bio_pos = length (bio_data b) + length s\<rparr>"
  by (simp add: bytesio_write_def)

lemma write_chunks_bytesio:
  "bio_pos b = length (bio_data b) \<Longrightarrow>
   write_chunks (make_write_func bytesio_write) cs b =
     (SUCCESS, \<lparr>bio_data = bio_data b @ concat cs, bio_pos = length (bio_data b @ concat cs)\<rparr>)"
proof (induction cs arbitrary: b)
  case Nil
  then show ?case by simp
next
  case (Cons c cs)
  let ?b' = "\<lparr>bio_data = bio_data b @ c, bio_pos = length (bio_data b) + length c\<rparr>"
  have "make_write_func bytesio_write b c = (SUCCESS, ?b')"
    using Cons.prems by (simp add: make_write_func_def bytesio_write_end)
  moreover have "write_chunks (make_write_func bytesio_write) cs ?b' =
                   (SUCCESS, \<lparr>bio_data = bio_data ?b' @ concat cs,
                              bio_pos = length (bio_data ?b' @ concat cs)\<rparr>)"
    by (rule Cons.IH) simp
  ultimately show ?case by simp
qed

lemma read_func_bytesio:
  "make_read_func bytesio_read b n =
     (if n \<le> length (bio_data b) - bio_pos b
      then ((SUCCESS, Some (take n (drop (bio_pos b) (bio_data b)))), b\<lparr>bio_pos := bio_pos b + n\<rparr>)
      else ((READ_ERROR, None), b\<lparr>bio_pos := bio_pos b + (length (bio_data b) - bio_pos b)\<rparr>))"
  by (auto simp: make_read_func_def bytesio_read_def min_def)

lemma read_requests_bytesio_fits:
  "sum_list ns \<le> length (bio_data b) - bio_pos b \<Longrightarrow>
   read_requests (make_read_func bytesio_read) ns b =
     ((SUCCESS, take (sum_list ns) (drop (bio_pos b) (bio_data b))),
      b\<lparr>bio_pos := bio_pos b + sum_list ns\<rparr>)"
proof (induction ns arbitrary: b)
  case Nil
  then show ?case by simp
next
  case (Cons n ns)
  let ?b' = "b\<lparr>bio_pos := bio_pos b + n\<rparr>"
  have fit: "n \<le> length (bio_data b) - bio_pos b" using Cons.prems by simp
  have "sum_list ns \<le> length (bio_data ?b') - bio_pos ?b'" using Cons.prems by simp
  then have IH: "read_requests (make_read_func bytesio_read) ns ?b' =
      ((SUCCESS, take (sum_list ns) (drop (bio_pos b + n) (bio_data b))),
       b\<lparr>bio_pos := bio_pos b + n + sum_list ns\<rparr>)"
    using Cons.IH [of ?b'] by simp
  have eq: "take n (drop (bio_pos b) (bio_data b)) @ take (sum_list ns) (drop (bio_pos b + n) (bio_data b))
          = take (n + sum_list ns) (drop (bio_pos b) (bio_data b))"
    by (simp add: take_add add.commute)
  have step: "make_read_func bytesio_read b n =
                ((SUCCESS, Some (take n (drop (bio_pos b) (bio_data b)))), ?b')"
    using fit by (simp add: read_func_bytesio)
  have "read_requests (make_read_func bytesio_read) (n # ns) b =
          (case read_requests (make_read_func bytesio_read) ns ?b' of
             ((st', rest), f'') \<Rightarrow> ((st', take n (drop (bio_pos b) (bio_data b)) @ rest), f''))"
    by (simp only: read_requests.simps step) simp
  also have "\<dots> = ((SUCCESS, take (sum_list (n # ns)) (drop (bio_pos b) (bio_data b))),
                     b\<lparr>bio_pos := bio_pos b + sum_list (n # ns)\<rparr>)"
    by (simp only: IH) (simp add: eq add.assoc)
  finally show ?case .
qed

lemma write_chunks_short:
  "bio_pos b = length (bio_data b) \<Longrightarrow> length (bio_data b) \<le> k \<Longrightarrow>
   write_chunks (make_write_func (short_write k)) cs b =
     (SUCCESS, \<lparr>bio_data = take k (bio_data b @ concat cs), bio_pos = length (take k (bio_data b @ concat cs))\<rparr>)"
proof (induction cs arbitrary: b)
  case Nil
  then show ?case by simp
next
  case (Cons c cs)
  let ?b' = "\<lparr>bio_data = take k (bio_data b @ c), bio_pos = length (take k (bio_data b @ c))\<rparr>"
  have "make_write_func (short_write k) b c = (SUCCESS, ?b')"
    using Cons.prems by (simp add: make_write_func_def short_write_def take_append)
  moreover have "write_chunks (make_write_func (short_write k)) cs ?b' =
      (SUCCESS, \<lparr>bio_data = take k (bio_data ?b' @ concat cs), bio_pos = length (take k (bio_data ?b' @ concat cs))\<rparr>)"
    by (rule Cons.IH) simp_all
  ultimately show ?case by (simp del: take_append add: take_take_append)
qed

lemma write_chunks_full:
  "bio_pos b = length (bio_data b) \<Longrightarrow> length (bio_data b) \<le> k \<Longrightarrow>
   \<exists>b'. write_chunks (make_write_func (full_write k e)) cs b =
          (if length (bio_data b @ concat cs) \<le> k then SUCCESS else WRITE_ERROR, b') \<and>
        (\<exists>m. bio_data b' = take m (bio_data b @ concat cs)) \<and> length (bio_data b') \<le> k"
proof (induction cs arbitrary: b)
  case Nil
  then show ?case by (intro exI [of _ b]) (auto intro: exI [of _ "length (bio_data b)"])
next
  case (Cons c cs)
  show ?case
  proof (cases "length (bio_data b) + length c \<le> k")
    case True
    let ?b1 = "\<lparr>bio_data = bio_data b @ c, bio_pos = length (bio_data b) + length c\<rparr>"
    have "make_write_func (full_write k e) b c = (SUCCESS, ?b1)"
      using Cons.prems True by (simp add: make_write_func_def full_write_def bytesio_write_end)
    moreover obtain b' where "write_chunks (make_write_func (full_write k e)) cs ?b1 =
          (if length (bio_data ?b1 @ concat cs) \<le> k then SUCCESS else WRITE_ERROR, b')"
        "\<exists>m. bio_data b' = take m (bio_data ?b1 @ concat cs)" "length (bio_data b') \<le> k"
      using Cons.IH [of ?b1] True by auto
    ultimately show ?thesis by auto
  next
    case False
    then have "write_chunks (make_write_func (full_write k e)) (c # cs) b = (WRITE_ERROR, b)"
      by (simp add: make_write_func_def full_write_def)
    with False Cons.prems show ?thesis
      by (intro exI [of _ b]) (auto intro: exI [of _ "length (bio_data b)"])
  qed
qed

lemma make_read_func_length:
  "make_read_func read f n = ((st, Some bs), f') \<Longrightarrow> length bs = n"
  by (auto simp: make_read_func_def split: sum.splits if_splits)

section \<open>Properties of the bridge\<close>

text \<open>
  C20. Bytes written through the write adapter in chunks of any positive size reach the
  file object in order and complete; read back through the read adapter, from the
  start, with any sequence of request sizes that adds up to the length, they arrive
  unchanged and every callback reports success.
\<close>

theorem stream_bridge_roundtrip:
  assumes "0 < n" and "sum_list ns = length bs"
  shows "\<exists>f f'. write_chunks (make_write_func bytesio_write) (chunks n bs) (bytesio_new []) = (SUCCESS, f) \<and>
                read_requests (make_read_func bytesio_read) ns (f\<lparr>bio_pos := 0\<rparr>) = ((SUCCESS, bs), f')"
proof -
  let ?f = "\<lparr>bio_data = bs, bio_pos = length bs\<rparr>"
  have w: "write_chunks (make_write_func bytesio_write) (chunks n bs) (bytesio_new []) = (SUCCESS, ?f)"
    using write_chunks_bytesio [of "bytesio_new []" "chunks n bs"] assms(1)
    by (simp add: bytesio_new_def)
  have "read_requests (make_read_func bytesio_read) ns (?f\<lparr>bio_pos := 0\<rparr>) =
          ((SUCCESS, bs), ?f\<lparr>bio_pos := length bs\<rparr>)"
    using read_requests_bytesio_fits [of ns "?f\<lparr>bio_pos := 0\<rparr>"] assms(2) by simp
  with w show ?thesis by blast
qed

theorem stream_bridge_roundtrip_witness:
  "0 < (2::nat) \<and> sum_list [1, 2] = length [1, 2, 3 :: byte] \<and>
   (\<exists>f f'. write_chunks (make_write_func bytesio_write) (chunks 2 [1, 2, 3]) (bytesio_new []) = (SUCCESS, f) \<and>
           read_requests (make_read_func bytesio_read) [1, 2] (f\<lparr>bio_pos := 0\<rparr>) = ((SUCCESS, [1, 2, 3]), f'))"
proof -
  have h: "0 < (2::nat)" "sum_list [1, 2] = length [1, 2, 3 :: byte]" by simp_all
  show ?thesis using stream_bridge_roundtrip [OF h] h by blast
qed

text \<open>
  C21. A source that ends before the native reader's requests are met makes the read
  adapter report \<open>READ_ERROR\<close> at the first request it cannot fill completely; the
  reader has then received exactly the complete chunks before that request, and no
  byte of the short chunk is copied into the native buffer.
\<close>

theorem read_short_source:
  assumes "length (bio_data b) - bio_pos b < sum_list ns"
  shows "\<exists>got f' k. read_requests (make_read_func bytesio_read) ns b = ((READ_ERROR, got), f') \<and>
            k < length ns \<and> sum_list (take k ns) \<le> length (bio_data b) - bio_pos b \<and>
            length (bio_data b) - bio_pos b < sum_list (take (Suc k) ns) \<and>
            got = take (sum_list (take k ns)) (drop (bio_pos b) (bio_data b))"
  using assms
proof (induction ns arbitrary: b)
  case Nil
  then show ?case by simp
next
  case (Cons n ns)
  show ?case
  proof (cases "n \<le> length (bio_data b) - bio_pos b")
    case fit: True
    let ?b' = "b\<lparr>bio_pos := bio_pos b + n\<rparr>"
    have "length (bio_data ?b') - bio_pos ?b' < sum_list ns" using Cons.prems fit by simp
    then obtain got f' k where r: "read_requests (make_read_func bytesio_read) ns ?b' = ((READ_ERROR, got), f')"
      and k: "k < length ns" "sum_list (take k ns) \<le> length (bio_data ?b') - bio_pos ?b'"
        "length (bio_data ?b') - bio_pos ?b' < sum_list (take (Suc k) ns)"
      and got: "got = take (sum_list (take k ns)) (drop (bio_pos ?b') (bio_data ?b'))"
      using Cons.IH by blast
    have step: "make_read_func bytesio_read b n =
                  ((SUCCESS, Some (take n (drop (bio_pos b) (bio_data b)))), ?b')"
      using fit by (simp add: read_func_bytesio)
    have "read_requests (make_read_func bytesio_read) (n # ns) b =
            ((READ_ERROR, take n (drop (bio_pos b) (bio_data b)) @ got), f')"
      by (simp only: read_requests.simps step) (simp add: r)
    moreover have "take n (drop (bio_pos b) (bio_data b)) @ got =
                     take (sum_list (take (Suc k) (n # ns))) (drop (bio_pos b) (bio_data b))"
      using got by (simp add: take_add add.commute)
    ultimately show ?thesis using k fit
      by (intro exI [of _ "Suc k"] exI conjI) auto
  next
    case False
    then have "read_requests (make_read_func bytesio_read) (n # ns) b =
                 ((READ_ERROR, []), b\<lparr>bio_pos := bio_pos b + (length (bio_data b) - bio_pos b)\<rparr>)"
      by (simp add: read_func_bytesio)
    with False show ?thesis by (intro exI [of _ "0"] exI conjI) auto
  qed
qed

theorem read_short_source_witness:
  "length (bio_data (bytesio_new [7, 8, 9])) - bio_pos (bytesio_new [7, 8, 9]) < sum_list [2, 2 :: nat] \<and>
   (\<exists>got f' k. read_requests (make_read_func bytesio_read) [2, 2] (bytesio_new [7, 8, 9])
                  = ((READ_ERROR, got), f') \<and>
      k < length [2, 2 :: nat] \<and>
      sum_list (take k [2, 2 :: nat]) \<le> length (bio_data (bytesio_new [7, 8, 9])) - bio_pos (bytesio_new [7, 8, 9]) \<and>
      length (bio_data (bytesio_new [7, 8, 9])) - bio_pos (bytesio_new [7, 8, 9]) < sum_list (take (Suc k) [2, 2 :: nat]) \<and>
      got = take (sum_list (take k [2, 2 :: nat])) (drop (bio_pos (bytesio_new [7, 8, 9])) (bio_data (bytesio_new [7, 8, 9]))))"
proof -
  have h: "length (bio_data (bytesio_new [7, 8, 9])) - bio_pos (bytesio_new [7, 8, 9]) < sum_list [2, 2 :: nat]"
    by (simp add: bytesio_new_def)
  show ?thesis using read_short_source [OF h] h by blast
qed

end
