(* ===== verification/Cairo_PngCodec.thy ===== *)
theory Cairo_PngCodec
  imports Cairo_ImageSurface Cairo_Stream
begin

text \<open>
  cairo's PNG encoder and decoder as \<open>surfaces.py\<close> drives them (the native side of
  \<open>write_to_png\<close> and \<open>create_from_png\<close>), modelled from the documented behaviour of
  cairo 1.12--1.16 on a little-endian host: the writer coerces the image to
  \<open>ARGB32\<close>, \<open>RGB24\<close> or \<open>A8\<close>, un-premultiplies the colour of translucent pixels,
  writes an opaque \<open>ARGB32\<close> image as RGB and \<open>A8\<close> as grey; the reader turns RGBA
  into premultiplied \<open>ARGB32\<close> and every other colour type into \<open>RGB24\<close> with
  \<open>0xff\<close> in the padding byte. The datastream is modelled without compression and
  checksums: the signature, the size and colour type, the rows of samples, and the end
  marker, in the order the library writes and reads them. A read of memory outside the
  image's data is undefined behaviour, the value \<open>None\<close>. The lemmas show that the
  reader's conversion inverts the writer's on premultiplied pixels, what a cut or
  malformed stream yields, and that the streaming reader computes the abstract
  decoder \<open>png_decode\<close> on the bytes it is given.
\<close>

section \<open>The datastream\<close>

datatype png_color = PNG_GRAY | PNG_RGB | PNG_RGB_ALPHA

fun png_color_code :: "png_color \<Rightarrow> byte" where
  "png_color_code PNG_GRAY = 0"
| "png_color_code PNG_RGB = 2"
| "png_color_code PNG_RGB_ALPHA = 6"

fun png_channels :: "png_color \<Rightarrow> nat" where
  "png_channels PNG_GRAY = 1"
| "png_channels PNG_RGB = 3"
| "png_channels PNG_RGB_ALPHA = 4"

definition png_color_of_code :: "byte \<Rightarrow> png_color option" where
  "png_color_of_code c =
     (if c = 0 then Some PNG_GRAY else if c = 2 then Some PNG_RGB
      else if c = 6 then Some PNG_RGB_ALPHA else None)"

record png_image =
  png_width :: nat
  png_height :: nat
  png_color :: png_color
  png_rows :: "bytes list"

definition png_signature :: bytes where
  "png_signature = [137, 80, 78, 71, 13, 10, 26, 10]"

definition png_iend :: bytes where
  "png_iend = [73, 69, 78, 68]"

definition be32 :: "nat \<Rightarrow> bytes" where
  "be32 n = map (\<lambda>k. of_nat (n div 256 ^ k)) [3, 2, 1, 0]"

definition of_be32 :: "bytes \<Rightarrow> nat" where
  "of_be32 bs = foldl (\<lambda>acc b. acc * 256 + unat b) 0 bs"

definition png_header :: "png_image \<Rightarrow> bytes" where
  "png_header img = be32 (png_width img) @ be32 (png_height img) @ [8, png_color_code (png_color img)]"

text \<open>The pieces the writer hands to its output function, in order.\<close>

definition png_pieces :: "png_image \<Rightarrow> bytes list" where
  "png_pieces img = png_signature # png_header img # png_rows img @ [png_iend]"

section \<open>Pixel conversions\<close>

text \<open>
  A pixel of a 32-bit format is a native-endian \<open>uint32_t\<close>: in memory its bytes are
  blue, green, red, alpha (or padding). \<open>unpremultiply_data\<close> and
  \<open>multiply_alpha\<close> of \<open>cairo-png.c\<close>, on the byte values; the store into a
  \<open>uint8_t\<close> wraps.
\<close>

definition unpremultiply_chan :: "byte \<Rightarrow> byte \<Rightarrow> byte" where
  "unpremultiply_chan a c = of_nat ((unat c * 255 + unat a div 2) div unat a)"

definition multiply_alpha :: "byte \<Rightarrow> byte \<Rightarrow> byte" where
  "multiply_alpha a c = (let t = unat a * unat c + 128 in of_nat ((t + t div 256) div 256))"

fun unpremultiply_pixel :: "bytes \<Rightarrow> bytes" where
  "unpremultiply_pixel [b, g, r, a] =
     (if a = 0 then [0, 0, 0, 0]
      else [unpremultiply_chan a r, unpremultiply_chan a g, unpremultiply_chan a b, a])"
| "unpremultiply_pixel _ = []"

fun premultiply_pixel :: "bytes \<Rightarrow> bytes" where
  "premultiply_pixel [r, g, b, a] =
     (if a = 0 then [0, 0, 0, 0]
      else if a = 255 then [b, g, r, a]
      else [multiply_alpha a b, multiply_alpha a g, multiply_alpha a r, a])"
| "premultiply_pixel _ = []"

text \<open>\<open>convert_data_to_bytes\<close> with the filler stripped, and \<open>convert_bytes_to_data\<close>.\<close>

fun xrgb_to_rgb :: "bytes \<Rightarrow> bytes" where
  "xrgb_to_rgb [b, g, r, x] = [r, g, b]"
| "xrgb_to_rgb _ = []"

fun rgb_to_xrgb :: "bytes \<Rightarrow> bytes" where
  "rgb_to_xrgb [r, g, b] = [b, g, r, 255]"
| "rgb_to_xrgb _ = []"

definition gray_to_xrgb :: "byte \<Rightarrow> bytes" where
  "gray_to_xrgb v = [v, v, v, 255]"

text \<open>
  The coercions of the formats the writer does not take directly, as pixman converts
  them: \<open>A1\<close> to \<open>A8\<close> (bit \<open>x mod 8\<close> of byte \<open>x div 8\<close>, least significant first),
  \<open>RGB16_565\<close> and \<open>RGB30\<close> to \<open>RGB24\<close> (each channel widened or narrowed to 8 bits).
\<close>

definition a1_to_gray :: "nat \<Rightarrow> bytes \<Rightarrow> bytes" where
  "a1_to_gray w row = map (\<lambda>x. if bit (row ! (x div 8)) (x mod 8) then 255 else 0) [0..<w]"

fun rgb565_to_rgb :: "bytes \<Rightarrow> bytes" where
  "rgb565_to_rgb [lo, hi] =
     (let p = unat lo + 256 * unat hi; r = p div 2048; g = (p div 32) mod 64; b = p mod 32
      in [of_nat (r * 8 + r div 4), of_nat (g * 4 + g div 16), of_nat (b * 8 + b div 4)])"
| "rgb565_to_rgb _ = []"

fun rgb30_to_rgb :: "bytes \<Rightarrow> bytes" where
  "rgb30_to_rgb [b0, b1, b2, b3] =
     (let p = unat b0 + 256 * unat b1 + 65536 * unat b2 + 16777216 * unat b3
      in [of_nat ((p div 1048576) mod 1024 div 4), of_nat ((p div 1024) mod 1024 div 4),
          of_nat (p mod 1024 div 4)])"
| "rgb30_to_rgb _ = []"

section \<open>The writer\<close>

text \<open>
  The rows of an image as the writer reads them: row \<open>r\<close> is the row's bytes at
  offset \<open>r * stride\<close> of the data; a row outside the memory the data pointer
  designates is undefined behaviour (\<open>None\<close>).
\<close>

definition row_length :: "cairo_format \<Rightarrow> nat \<Rightarrow> nat" where
  "row_length fmt w = (format_bpp fmt * w + 7) div 8"

definition surface_rows :: "(nat \<Rightarrow> pybuffer option) \<Rightarrow> image_info \<Rightarrow> bytes list option" where
  "surface_rows bufs i =
     (let h = nat (img_height i); rl = row_length (img_format i) (nat (img_width i));
          data = (case img_pixels i of
                    Owned_data px \<Rightarrow> Some px
                  | Borrowed_data b \<Rightarrow> map_option buf_bytes (bufs b)
                  | No_data \<Rightarrow> None)
      in case data of
           None \<Rightarrow> None
         | Some d \<Rightarrow>
             if list_all (\<lambda>r. 0 \<le> int r * img_stride i \<and> int r * img_stride i + int rl \<le> int (length d))
                  [0..<h]
             then Some (map (\<lambda>r. take rl (drop (nat (int r * img_stride i)) d)) [0..<h])
             else None)"

text \<open>
  \<open>write_png\<close>: an empty image is refused with \<open>WRITE_ERROR\<close>; an \<open>ARGB32\<close> image
  whose alpha is everywhere opaque is written as RGB.
\<close>

definition png_of_rows :: "cairo_format \<Rightarrow> nat \<Rightarrow> nat \<Rightarrow> bytes list \<Rightarrow> cairo_status + png_image" where
  "png_of_rows fmt w h rows =
     (let img = (\<lambda>c rs. Inr \<lparr>png_width = w, png_height = h, png_color = c, png_rows = rs\<rparr>) in
      case fmt of
        ARGB32 \<Rightarrow>
          let pix = map (chunks 4) rows in
          if list_all (list_all (\<lambda>p. p ! 3 = 255)) pix
          then img PNG_RGB (map (concat \<circ> map xrgb_to_rgb) pix)
          else img PNG_RGB_ALPHA (map (concat \<circ> map unpremultiply_pixel) pix)
      | RGB24 \<Rightarrow> img PNG_RGB (map (concat \<circ> map xrgb_to_rgb \<circ> chunks 4) rows)
      | A8 \<Rightarrow> img PNG_GRAY rows
      | A1 \<Rightarrow> img PNG_GRAY (map (a1_to_gray w) rows)
      | RGB16_565 \<Rightarrow> img PNG_RGB (map (concat \<circ> map rgb565_to_rgb \<circ> chunks 2) rows)
      | RGB30 \<Rightarrow> img PNG_RGB (map (concat \<circ> map rgb30_to_rgb \<circ> chunks 4) rows)
      | INVALID \<Rightarrow> Inl INVALID_FORMAT)"

definition write_png ::
  "(nat \<Rightarrow> pybuffer option) \<Rightarrow> image_info \<Rightarrow> (cairo_status + png_image) option" where
  "write_png bufs i =
     (if img_width i = 0 \<or> img_height i = 0 then Some (Inl WRITE_ERROR)
      else map_option (png_of_rows (img_format i) (nat (img_width i)) (nat (img_height i)))
             (surface_rows bufs i))"

text \<open>
  The checks every export makes first: the surface's error status, then
  \<open>SURFACE_FINISHED\<close>; a nil surface answers its status.
\<close>

definition png_export_check :: "handle \<Rightarrow> cairo_state \<Rightarrow> (cairo_status + nsurf) option" where
  "png_export_check h st =
     query h st Inl
       (\<lambda>s. if ns_status s \<noteq> SUCCESS then Inl (ns_status s)
            else if ns_finished s then Inl SURFACE_FINISHED else Inr s)"

definition cairo_surface_write_to_png_stream ::
  "handle \<Rightarrow> ('f \<Rightarrow> bytes \<Rightarrow> cairo_status \<times> 'f) \<Rightarrow> 'f \<Rightarrow> cairo_state \<Rightarrow>
   (nat \<Rightarrow> pybuffer option) \<Rightarrow> (cairo_status \<times> 'f) option" where
  "cairo_surface_write_to_png_stream h write_cb f st bufs =
     (case png_export_check h st of
        None \<Rightarrow> None
      | Some (Inl e) \<Rightarrow> Some (e, f)
      | Some (Inr s) \<Rightarrow>
          (case write_png bufs (ns_image s) of
             None \<Rightarrow> None
           | Some (Inl e) \<Rightarrow> Some (e, f)
           | Some (Inr img) \<Rightarrow> Some (write_chunks write_cb (png_pieces img) f)))"

text \<open>
  The C string a \<open>char *\<close> designates ends at the first NUL byte. \<open>fopen(path, "wb")\<close>
  fails on the empty path and otherwise creates or truncates the file, which then
  receives the datastream.
\<close>

definition c_string :: "bytes \<Rightarrow> bytes" where
  "c_string bs = takeWhile (\<lambda>b. b \<noteq> 0) bs"

definition cairo_surface_write_to_png ::
  "handle \<Rightarrow> bytes \<Rightarrow> cairo_state \<Rightarrow> (nat \<Rightarrow> pybuffer option) \<Rightarrow> (bytes \<Rightarrow> bytes option) \<Rightarrow>
   (cairo_status \<times> (bytes \<Rightarrow> bytes option)) option" where
  "cairo_surface_write_to_png h filename st bufs fs =
     (let path = c_string filename in
      case png_export_check h st of
        None \<Rightarrow> None
      | Some (Inl e) \<Rightarrow> Some (e, fs)
      | Some (Inr s) \<Rightarrow>
          if path = [] then Some (WRITE_ERROR, fs)
          else (case write_png bufs (ns_image s) of
                  None \<Rightarrow> None
                | Some (Inl e) \<Rightarrow> Some (e, fs(path \<mapsto> []))
                | Some (Inr img) \<Rightarrow> Some (SUCCESS, fs(path \<mapsto> concat (png_pieces img)))))"

section \<open>The reader\<close>

text \<open>
  The reader asks its input function for exact byte counts: the signature, the header,
  each row, the end marker. A failing read stops it with the function's status; a
  malformed datastream with \<open>PNG_ERROR\<close> (libpng refuses an empty image and one wider
  or taller than its default limit of 1000000).
\<close>

type_synonym 'f read_cb = "'f \<Rightarrow> nat \<Rightarrow> (cairo_status \<times> bytes option) \<times> 'f"

definition read_exact :: "'f read_cb \<Rightarrow> 'f \<Rightarrow> nat \<Rightarrow> (cairo_status + bytes) \<times> 'f" where
  "read_exact rd f n =
     (case rd f n of
        ((st, Some bs), f') \<Rightarrow> (if st = SUCCESS then Inr bs else Inl st, f')
      | ((st, None), f') \<Rightarrow> (Inl (if st = SUCCESS then READ_ERROR else st), f'))"

primrec read_rows :: "'f read_cb \<Rightarrow> nat \<Rightarrow> nat \<Rightarrow> 'f \<Rightarrow> (cairo_status + bytes list) \<times> 'f" where
  "read_rows rd len 0 f = (Inr [], f)"
| "read_rows rd len (Suc k) f =
     (case read_exact rd f len of
        (Inl e, f') \<Rightarrow> (Inl e, f')
      | (Inr row, f') \<Rightarrow>
          (case read_rows rd len k f' of
             (Inl e, f'') \<Rightarrow> (Inl e, f'')
           | (Inr rows, f'') \<Rightarrow> (Inr (row # rows), f'')))"

definition parse_header :: "bytes \<Rightarrow> (nat \<times> nat \<times> png_color) option" where
  "parse_header hdr =
     (let w = of_be32 (take 4 hdr); h = of_be32 (take 4 (drop 4 hdr)) in
      if hdr ! 8 \<noteq> 8 \<or> w = 0 \<or> h = 0 \<or> 1000000 < w \<or> 1000000 < h then None
      else map_option (\<lambda>c. (w, h, c)) (png_color_of_code (hdr ! 9)))"

definition read_png :: "'f read_cb \<Rightarrow> 'f \<Rightarrow> (cairo_status + png_image) \<times> 'f" where
  "read_png rd f =
     (case read_exact rd f 8 of
        (Inl e, f1) \<Rightarrow> (Inl e, f1)
      | (Inr sig, f1) \<Rightarrow>
          if sig \<noteq> png_signature then (Inl PNG_ERROR, f1) else
          (case read_exact rd f1 10 of
             (Inl e, f2) \<Rightarrow> (Inl e, f2)
           | (Inr hdr, f2) \<Rightarrow>
               (case parse_header hdr of
                  None \<Rightarrow> (Inl PNG_ERROR, f2)
                | Some (w, h, c) \<Rightarrow>
                    (case read_rows rd (w * png_channels c) h f2 of
                       (Inl e, f3) \<Rightarrow> (Inl e, f3)
                     | (Inr rows, f3) \<Rightarrow>
                         (case read_exact rd f3 4 of
                            (Inl e, f4) \<Rightarrow> (Inl e, f4)
                          | (Inr t, f4) \<Rightarrow>
                              if t \<noteq> png_iend then (Inl PNG_ERROR, f4)
                              else (Inr \<lparr>png_width = w, png_height = h, png_color = c,
                                         png_rows = rows\<rparr>, f4))))))"

text \<open>
  The image the reader builds: RGBA becomes premultiplied \<open>ARGB32\<close>, RGB and grey
  become \<open>RGB24\<close>; rows are \<open>4 * width\<close> bytes, the minimum stride of both formats.
\<close>

definition image_of_png :: "png_image \<Rightarrow> cairo_format \<times> bytes" where
  "image_of_png img =
     (case png_color img of
        PNG_RGB_ALPHA \<Rightarrow> (ARGB32, concat (map (concat \<circ> map premultiply_pixel \<circ> chunks 4) (png_rows img)))
      | PNG_RGB \<Rightarrow> (RGB24, concat (map (concat \<circ> map rgb_to_xrgb \<circ> chunks 3) (png_rows img)))
      | PNG_GRAY \<Rightarrow> (RGB24, concat (map (concat \<circ> map gray_to_xrgb) (png_rows img))))"

definition cairo_image_surface_create_from_png_stream ::
  "'f read_cb \<Rightarrow> 'f \<Rightarrow> cairo_state \<Rightarrow> handle \<times> cairo_state \<times> 'f" where
  "cairo_image_surface_create_from_png_stream rd f st =
     (case read_png rd f of
        (Inl e, f') \<Rightarrow> (NIL e, st, f')
      | (Inr img, f') \<Rightarrow>
          (case image_of_png img of
             (fmt, data) \<Rightarrow>
               (case alloc_surface (new_image_surface fmt (int (png_width img)) (int (png_height img))
                                      (int (4 * png_width img)) (Owned_data data)) st of
                  (h, st') \<Rightarrow> (h, st', f'))))"

text \<open>
  The file variant reads through \<open>fread\<close>, which fails with \<open>READ_ERROR\<close> at end of
  file; \<open>fopen(path, "rb")\<close> on a missing file gives \<open>FILE_NOT_FOUND\<close>.
\<close>

definition stdio_read_func :: "bytesio read_cb" where
  "stdio_read_func b n =
     (let s = take n (drop (bio_pos b) (bio_data b)); b' = b\<lparr>bio_pos := bio_pos b + length s\<rparr>
      in if length s < n then ((READ_ERROR, None), b') else ((SUCCESS, Some s), b'))"

definition cairo_image_surface_create_from_png ::
  "bytes \<Rightarrow> cairo_state \<Rightarrow> (bytes \<Rightarrow> bytes option) \<Rightarrow> handle \<times> cairo_state" where
  "cairo_image_surface_create_from_png filename st fs =
     (case fs (c_string filename) of
        None \<Rightarrow> (NIL FILE_NOT_FOUND, st)
      | Some bs \<Rightarrow>
          (case cairo_image_surface_create_from_png_stream stdio_read_func (bytesio_new bs) st of
             (h, st', _) \<Rightarrow> (h, st')))"

section \<open>Premultiplied pixels\<close>

text \<open>
  A 32-bit pixel in premultiplied form: no colour channel exceeds the alpha. Every
  pixel cairo draws into an \<open>ARGB32\<close> surface has this form.
\<close>

definition premultiplied :: "bytes \<Rightarrow> bool" where
  "premultiplied p \<longleftrightarrow>
     length p = 4 \<and> unat (p ! 0) \<le> unat (p ! 3) \<and> unat (p ! 1) \<le> unat (p ! 3) \<and>
     unat (p ! 2) \<le> unat (p ! 3)"

text \<open>A datastream the reader accepts: its size within libpng's limits, rows of the right length.\<close>

definition png_well_formed :: "png_image \<Rightarrow> bool" where
  "png_well_formed img \<longleftrightarrow>
     0 < png_width img \<and> png_width img \<le> 1000000 \<and> 0 < png_height img \<and> png_height img \<le> 1000000 \<and>
     length (png_rows img) = png_height img \<and>
     (\<forall>row \<in> set (png_rows img). length row = png_width img * png_channels (png_color img))"

text \<open>
  The datastream as the reader takes it, on the bytes of the input from its current
  position: an abstract decoder that says, for every byte string, which outcome the
  reader promises.
\<close>

definition png_decode :: "bytes \<Rightarrow> cairo_status + png_image" where
  "png_decode bs =
     (if length bs < 8 then Inl READ_ERROR
      else if take 8 bs \<noteq> png_signature then Inl PNG_ERROR
      else if length bs < 18 then Inl READ_ERROR
      else (case parse_header (take 10 (drop 8 bs)) of
              None \<Rightarrow> Inl PNG_ERROR
            | Some (w, h, c) \<Rightarrow>
                let len = w * png_channels c in
                if length bs < 18 + len * h + 4 then Inl READ_ERROR
                else if take 4 (drop (18 + len * h) bs) \<noteq> png_iend then Inl PNG_ERROR
                else Inr \<lparr>png_width = w, png_height = h, png_color = c,
                          png_rows = map (\<lambda>r. take len (drop (18 + r * len) bs)) [0..<h]\<rparr>))"

section \<open>Lemmas\<close>

subsection \<open>Header\<close>

lemma length_be32 [simp]: "length (be32 n) = 4"
  by (simp add: be32_def)

lemma be32_roundtrip: "n < 2 ^ 32 \<Longrightarrow> of_be32 (be32 n) = n"
proof -
  assume n: "n < 2 ^ 32"
  have "of_be32 (be32 n) = ((n div 16777216 mod 256 * 256 + n div 65536 mod 256) * 256
                           + n div 256 mod 256) * 256 + n mod 256"
    by (simp add: of_be32_def be32_def unat_of_nat_byte)
  also have "\<dots> = n mod 4294967296"
  proof -
    have e1: "n mod 4294967296 = 256 * (n div 256 mod 16777216) + n mod 256"
      using mod_mult2_eq [of n 256 16777216] by simp
    have e2: "n div 256 mod 16777216 = 256 * (n div 65536 mod 65536) + n div 256 mod 256"
      using mod_mult2_eq [of "n div 256" 256 65536] div_mult2_eq [of n 256 256] by simp
    have e3: "n div 65536 mod 65536 = 256 * (n div 16777216 mod 256) + n div 65536 mod 256"
      using mod_mult2_eq [of "n div 65536" 256 256] div_mult2_eq [of n 65536 256] by simp
    show ?thesis unfolding e1 e2 e3 by simp
  qed
  finally show ?thesis using n by simp
qed

lemma png_color_of_code_inv [simp]: "png_color_of_code (png_color_code c) = Some c"
  by (cases c) (simp_all add: png_color_of_code_def)

lemma parse_png_header:
  assumes "0 < png_width img" "png_width img \<le> 1000000" "0 < png_height img" "png_height img \<le> 1000000"
  shows "parse_header (png_header img) = Some (png_width img, png_height img, png_color img)"
proof -
  have "png_width img < 2 ^ 32" "png_height img < 2 ^ 32" using assms(2,4) by simp_all
  then show ?thesis
    using assms by (simp add: parse_header_def png_header_def be32_roundtrip nth_append)
qed

subsection \<open>Premultiplied colour\<close>

lemma div255_rounding:
  fixes x c :: nat
  assumes "c \<le> 255" "255 * c \<le> x + 127" "x \<le> 255 * c + 127"
  shows "(x + 128 + (x + 128) div 256) div 256 = c"
proof -
  define y where "y = x + 128"
  have y: "255 * c + 1 \<le> y" "y \<le> 255 * c + 255" using assms by (simp_all add: y_def)
  show ?thesis
  proof (cases "y < 256 * c")
    case True
    then have "y div 256 = c - 1" using y assms(1) by (intro div_nat_eqI) auto
    moreover have "256 * c \<le> y + (c - 1)" "y + (c - 1) < 256 * (c + 1)" using True y by auto
    ultimately show ?thesis unfolding y_def [symmetric] by (intro div_nat_eqI) auto
  next
    case False
    then have "y div 256 = c" using y assms(1) by (intro div_nat_eqI) auto
    moreover have "256 * c \<le> y + c" "y + c < 256 * (c + 1)" using False y assms(1) by auto
    ultimately show ?thesis unfolding y_def [symmetric] by (intro div_nat_eqI) auto
  qed
qed

lemma unpremultiply_bounds:
  fixes a c :: nat
  assumes "0 < a" "a \<le> 255" "c \<le> a"
  defines "u \<equiv> (c * 255 + a div 2) div a"
  shows "u \<le> 255" "255 * c \<le> a * u + 127" "a * u \<le> 255 * c + 127"
proof -
  have le: "a * u \<le> c * 255 + a div 2" unfolding u_def by (simp add: mult.commute)
  have gt: "c * 255 + a div 2 < a * u + a" unfolding u_def
    using assms(1) by (metis add.commute div_mult_mod_eq mod_less_divisor mult.commute nat_add_left_cancel_less)
  have "u \<le> (a * 255 + a div 2) div a" unfolding u_def using assms(3) by (intro div_le_mono) simp
  also have "\<dots> = 255" using assms(1) by simp
  finally show "u \<le> 255" .
  show "a * u \<le> 255 * c + 127" using le assms(2) by simp
  show "255 * c \<le> a * u + 127" using gt assms(2) by linarith
qed

text \<open>
  Un-premultiplying a colour no larger than its alpha and premultiplying it again gives
  the colour back: the first step rounds \<open>255 c / a\<close> to the nearest byte, the second
  rounds \<open>a u / 255\<close> exactly, and the error of the first is at most \<open>127 / 255\<close>.
\<close>

lemma premultiply_unpremultiply_chan:
  assumes "a \<noteq> 0" "unat c \<le> unat a"
  shows "multiply_alpha a (unpremultiply_chan a c) = c"
proof -
  have a: "0 < unat a" "unat a \<le> 255"
    using assms(1) unat_byte_le [of a] by (simp_all add: unat_gt_0)
  define u where "u = (unat c * 255 + unat a div 2) div unat a"
  note b = unpremultiply_bounds [OF a assms(2), folded u_def]
  have uu: "unat (of_nat u :: byte) = u" using b(1) by (simp add: unat_of_nat)
  have "(unat a * u + 128 + (unat a * u + 128) div 256) div 256 = unat c"
    using div255_rounding [OF _ b(2,3)] assms(2) a(2) by simp
  then have "multiply_alpha a (of_nat u) = of_nat (unat c)"
    by (simp add: multiply_alpha_def Let_def uu)
  then show ?thesis by (simp add: unpremultiply_chan_def u_def)
qed

lemma unpremultiply_chan_255: "unpremultiply_chan 255 c = c"
proof -
  have "(unat c * 255 + 127) div 255 = unat c" using unat_byte_le [of c] by simp
  then show ?thesis by (simp add: unpremultiply_chan_def)
qed

lemma length4_cases:
  assumes "length p = 4"
  obtains b g r a where "p = [b, g, r, a]"
  using assms by (auto simp: length_Suc_conv numeral_eq_Suc)

lemma pixel_roundtrip: "premultiplied p \<Longrightarrow> premultiply_pixel (unpremultiply_pixel p) = p"
proof -
  assume pm: "premultiplied p"
  then obtain b g r a where p: "p = [b, g, r, a]"
    unfolding premultiplied_def using length4_cases by blast
  have le: "unat b \<le> unat a" "unat g \<le> unat a" "unat r \<le> unat a" using pm by (simp_all add: premultiplied_def p)
  show ?thesis
  proof (cases "a = 0")
    case True
    then have "b = 0" "g = 0" "r = 0" using le by (simp_all add: unat_eq_zero)
    with True show ?thesis by (simp add: p)
  next
    case False
    show ?thesis
    proof (cases "a = 255")
      case True
      then show ?thesis by (simp add: p unpremultiply_chan_255)
    next
      case n255: False
      then show ?thesis using False le by (simp add: p premultiply_unpremultiply_chan)
    qed
  qed
qed

lemma opaque_pixel_roundtrip: "length p = 4 \<Longrightarrow> p ! 3 = 255 \<Longrightarrow> rgb_to_xrgb (xrgb_to_rgb p) = p"
  by (erule length4_cases) simp

lemma length_unpremultiply_pixel: "length p = 4 \<Longrightarrow> length (unpremultiply_pixel p) = 4"
  by (erule length4_cases) simp

lemma length_xrgb_to_rgb: "length p = 4 \<Longrightarrow> length (xrgb_to_rgb p) = 3"
  by (erule length4_cases) simp

lemma row_roundtrip_alpha:
  assumes "4 dvd length row" "list_all premultiplied (chunks 4 row)"
  shows "concat (map premultiply_pixel (chunks 4 (concat (map unpremultiply_pixel (chunks 4 row))))) = row"
proof -
  have len: "\<forall>p \<in> set (chunks 4 row). length p = 4" using chunks_length_dvd [OF assms(1)] by blast
  then have "chunks 4 (concat (map unpremultiply_pixel (chunks 4 row))) = map unpremultiply_pixel (chunks 4 row)"
    by (intro chunks_concat) (simp_all add: length_unpremultiply_pixel)
  moreover have "map premultiply_pixel (map unpremultiply_pixel (chunks 4 row)) = chunks 4 row"
    using assms(2) by (simp add: list_all_iff pixel_roundtrip map_idI)
  ultimately show ?thesis by simp
qed

lemma row_roundtrip_opaque:
  assumes "4 dvd length row" "list_all (\<lambda>p. p ! 3 = 255) (chunks 4 row)"
  shows "concat (map rgb_to_xrgb (chunks 3 (concat (map xrgb_to_rgb (chunks 4 row))))) = row"
proof -
  have len: "\<forall>p \<in> set (chunks 4 row). length p = 4" using chunks_length_dvd [OF assms(1)] by blast
  then have "chunks 3 (concat (map xrgb_to_rgb (chunks 4 row))) = map xrgb_to_rgb (chunks 4 row)"
    by (intro chunks_concat) (simp_all add: length_xrgb_to_rgb)
  moreover have "map rgb_to_xrgb (map xrgb_to_rgb (chunks 4 row)) = chunks 4 row"
    using assms(2) len by (simp add: list_all_iff opaque_pixel_roundtrip map_idI)
  ultimately show ?thesis by simp
qed

subsection \<open>Reading a datastream back\<close>

lemma read_exact_bytesio:
  "n \<le> length (bio_data b) - bio_pos b \<Longrightarrow>
   read_exact (make_read_func bytesio_read) b n =
     (Inr (take n (drop (bio_pos b) (bio_data b))), b\<lparr>bio_pos := bio_pos b + n\<rparr>)"
  by (simp add: read_exact_def read_func_bytesio)

lemma read_rows_bytesio:
  assumes "\<forall>row \<in> set rows. length row = len"
    and "drop (bio_pos b) (bio_data b) = concat rows @ rest"
  shows "read_rows (make_read_func bytesio_read) len (length rows) b =
           (Inr rows, b\<lparr>bio_pos := bio_pos b + len * length rows\<rparr>)"
  using assms
proof (induction rows arbitrary: b)
  case Nil
  then show ?case by simp
next
  case (Cons row rows)
  let ?b' = "b\<lparr>bio_pos := bio_pos b + len\<rparr>"
  have lr: "length row = len" using Cons.prems(1) by simp
  have fit: "len \<le> length (bio_data b) - bio_pos b"
    using arg_cong [OF Cons.prems(2), of length] lr by simp
  have first: "take len (drop (bio_pos b) (bio_data b)) = row"
    using Cons.prems(2) lr by simp
  have "drop (bio_pos ?b') (bio_data ?b') = concat rows @ rest"
    using arg_cong [OF Cons.prems(2), of "drop len"] lr by (simp add: add.commute)
  then have "read_rows (make_read_func bytesio_read) len (length rows) ?b' =
               (Inr rows, ?b'\<lparr>bio_pos := bio_pos ?b' + len * length rows\<rparr>)"
    using Cons.IH Cons.prems(1) by simp
  then show ?case using read_exact_bytesio [OF fit] first by (simp add: algebra_simps)
qed

lemma stdio_read_func_bytesio: "stdio_read_func = make_read_func bytesio_read"
  by (auto simp: fun_eq_iff stdio_read_func_def make_read_func_def bytesio_read_def Let_def)

text \<open>
  A datastream cut short: each exact read either gets its piece whole or fails with
  \<open>READ_ERROR\<close>, so the reader fails at the piece the source ends in.
\<close>

lemma read_exact_bytesio_short:
  "length (bio_data b) - bio_pos b < n \<Longrightarrow>
   \<exists>b'. read_exact (make_read_func bytesio_read) b n = (Inl READ_ERROR, b')"
  by (simp add: read_exact_def read_func_bytesio)

lemma read_exact_prefix:
  assumes "drop (bio_pos b) (bio_data b) = take n (x @ y)" "length x \<le> n"
  shows "read_exact (make_read_func bytesio_read) b (length x) = (Inr x, b\<lparr>bio_pos := bio_pos b + length x\<rparr>)"
    and "drop (bio_pos b + length x) (bio_data b) = take (n - length x) y"
proof -
  have "length x \<le> length (bio_data b) - bio_pos b"
    using arg_cong [OF assms(1), of length] assms(2) by simp
  moreover have "take (length x) (drop (bio_pos b) (bio_data b)) = x"
    using assms by (simp add: take_append)
  ultimately show "read_exact (make_read_func bytesio_read) b (length x) =
                     (Inr x, b\<lparr>bio_pos := bio_pos b + length x\<rparr>)"
    using read_exact_bytesio by metis
  have "drop (length x) (drop (bio_pos b) (bio_data b)) = take (n - length x) y"
    using assms by (simp add: drop_take)
  then show "drop (bio_pos b + length x) (bio_data b) = take (n - length x) y"
    by (simp add: add.commute)
qed

lemma read_exact_prefix_short:
  assumes "drop (bio_pos b) (bio_data b) = take n xs" "n < k"
  shows "\<exists>b'. read_exact (make_read_func bytesio_read) b k = (Inl READ_ERROR, b')"
  using arg_cong [OF assms(1), of length] assms(2) by (intro read_exact_bytesio_short) simp

lemma read_rows_prefix_short:
  assumes "\<forall>row \<in> set rows. length row = len"
    and "drop (bio_pos b) (bio_data b) = take n (concat rows @ rest)" "n < len * length rows"
  shows "\<exists>b'. read_rows (make_read_func bytesio_read) len (length rows) b = (Inl READ_ERROR, b')"
  using assms
proof (induction rows arbitrary: b n)
  case Nil
  then show ?case by simp
next
  case (Cons row rows)
  have lr: "length row = len" using Cons.prems(1) by simp
  show ?case
  proof (cases "len \<le> n")
    case True
    have d: "drop (bio_pos b) (bio_data b) = take n (row @ concat rows @ rest)" using Cons.prems(2) by simp
    note r = read_exact_prefix [OF d, unfolded lr, OF True]
    let ?b = "b\<lparr>bio_pos := bio_pos b + len\<rparr>"
    have d': "drop (bio_pos ?b) (bio_data ?b) = take (n - len) (concat rows @ rest)"
      using r(2) lr by simp
    have "n - len < len * length rows" using Cons.prems(3) True by simp
    then obtain b' where "read_rows (make_read_func bytesio_read) len (length rows) ?b = (Inl READ_ERROR, b')"
      using Cons.IH [OF _ d'] Cons.prems(1) by auto
    then show ?thesis using r(1) lr by simp
  next
    case False
    obtain b' where "read_exact (make_read_func bytesio_read) b len = (Inl READ_ERROR, b')"
      using read_exact_prefix_short [OF Cons.prems(2), of len] False by auto
    then show ?thesis by simp
  qed
qed

lemma concat_png_pieces:
  "concat (png_pieces img) = png_signature @ png_header img @ concat (png_rows img) @ png_iend"
  by (simp add: png_pieces_def)

lemma read_png_bytesio:
  assumes wf: "png_well_formed img"
    and d: "drop (bio_pos b) (bio_data b) = concat (png_pieces img) @ rest"
  shows "read_png (make_read_func bytesio_read) b =
           (Inr img, b\<lparr>bio_pos := bio_pos b + length (concat (png_pieces img))\<rparr>)"
proof -
  let ?rd = "make_read_func bytesio_read"
  let ?p = "bio_pos b" and ?d = "bio_data b"
  have hl: "length (png_header img) = 10" by (simp add: png_header_def)
  have sl: "length png_signature = 8" "length png_iend = 4" by (simp_all add: png_signature_def png_iend_def)
  note dd = d [unfolded concat_png_pieces]
  have r1: "read_exact ?rd b 8 = (Inr png_signature, b\<lparr>bio_pos := ?p + 8\<rparr>)"
  proof -
    have "8 \<le> length ?d - ?p" using arg_cong [OF dd, of length] sl by simp
    moreover have "take 8 (drop ?p ?d) = png_signature" using dd sl by simp
    ultimately show ?thesis using read_exact_bytesio by metis
  qed
  let ?b1 = "b\<lparr>bio_pos := ?p + 8\<rparr>"
  have d1: "drop (bio_pos ?b1) (bio_data ?b1) = png_header img @ concat (png_rows img) @ png_iend @ rest"
    using arg_cong [OF dd, of "drop 8"] sl by (simp add: add.commute)
  have r2: "read_exact ?rd ?b1 10 = (Inr (png_header img), ?b1\<lparr>bio_pos := ?p + 18\<rparr>)"
  proof -
    have "10 \<le> length (bio_data ?b1) - bio_pos ?b1" using arg_cong [OF d1, of length] hl by simp
    moreover have "take 10 (drop (bio_pos ?b1) (bio_data ?b1)) = png_header img" using d1 hl by simp
    ultimately show ?thesis using read_exact_bytesio [of 10 ?b1] by simp
  qed
  let ?b2 = "b\<lparr>bio_pos := ?p + 18\<rparr>"
  have hdr: "parse_header (png_header img) = Some (png_width img, png_height img, png_color img)"
    using wf by (intro parse_png_header) (simp_all add: png_well_formed_def)
  have d2: "drop (bio_pos ?b2) (bio_data ?b2) = concat (png_rows img) @ png_iend @ rest"
    using arg_cong [OF d1, of "drop 10"] hl by (simp add: add.commute)
  let ?len = "png_width img * png_channels (png_color img)"
  have r3: "read_rows ?rd ?len (png_height img) ?b2 =
              (Inr (png_rows img), ?b2\<lparr>bio_pos := ?p + 18 + ?len * png_height img\<rparr>)"
    using read_rows_bytesio [of "png_rows img" ?len ?b2, OF _ d2] wf by (simp add: png_well_formed_def)
  let ?b3 = "?b2\<lparr>bio_pos := ?p + 18 + ?len * png_height img\<rparr>"
  have clen: "length (concat (png_rows img)) = ?len * png_height img"
    using wf by (simp add: png_well_formed_def length_concat sum_list_triv mult.commute cong: map_cong)
  have d3: "drop (bio_pos ?b3) (bio_data ?b3) = png_iend @ rest"
    using arg_cong [OF d2, of "drop (?len * png_height img)"] clen by (simp add: add.commute)
  have r4: "read_exact ?rd ?b3 4 = (Inr png_iend, ?b3\<lparr>bio_pos := bio_pos ?b3 + 4\<rparr>)"
  proof -
    have "4 \<le> length (bio_data ?b3) - bio_pos ?b3" using arg_cong [OF d3, of length] sl by simp
    moreover have "take 4 (drop (bio_pos ?b3) (bio_data ?b3)) = png_iend" using d3 sl by simp
    ultimately show ?thesis using read_exact_bytesio [of 4 ?b3] by simp
  qed
  show ?thesis
    using r1 r2 hdr r3 r4 clen sl hl by (simp add: read_png_def concat_png_pieces)
qed

lemma read_png_prefix:
  assumes wf: "png_well_formed img"
    and d: "drop (bio_pos b) (bio_data b) = take n (concat (png_pieces img))"
    and short: "n < length (concat (png_pieces img))"
  shows "\<exists>b'. read_png (make_read_func bytesio_read) b = (Inl READ_ERROR, b')"
proof -
  let ?rd = "make_read_func bytesio_read"
  let ?rows = "png_rows img" and ?len = "png_width img * png_channels (png_color img)"
  have sl: "length png_signature = 8" "length png_iend = 4" "length (png_header img) = 10"
    by (simp_all add: png_signature_def png_iend_def png_header_def)
  have rl: "\<forall>row \<in> set ?rows. length row = ?len" "length ?rows = png_height img"
    using wf by (simp_all add: png_well_formed_def)
  have clen: "length (concat ?rows) = ?len * png_height img"
    using rl by (simp add: length_concat sum_list_triv mult.commute cong: map_cong)
  have hdr: "parse_header (png_header img) = Some (png_width img, png_height img, png_color img)"
    using wf by (intro parse_png_header) (simp_all add: png_well_formed_def)
  have d0: "drop (bio_pos b) (bio_data b) =
              take n (png_signature @ png_header img @ concat ?rows @ png_iend)"
    using d by (simp add: concat_png_pieces)
  show ?thesis
  proof (cases "8 \<le> n")
    case False
    then show ?thesis using read_exact_prefix_short [OF d0, of 8] by (auto simp: read_png_def)
  next
    case n8: True
    note r1 = read_exact_prefix [OF d0, unfolded sl, OF n8]
    let ?b1 = "b\<lparr>bio_pos := bio_pos b + 8\<rparr>"
    have d1: "drop (bio_pos ?b1) (bio_data ?b1) = take (n - 8) (png_header img @ concat ?rows @ png_iend)"
      using r1(2) by simp
    show ?thesis
    proof (cases "10 \<le> n - 8")
      case False
      then show ?thesis using r1(1) read_exact_prefix_short [OF d1, of 10] by (auto simp: read_png_def)
    next
      case n18: True
      note r2 = read_exact_prefix [OF d1, unfolded sl, OF n18]
      let ?b2 = "?b1\<lparr>bio_pos := bio_pos ?b1 + 10\<rparr>"
      have d2: "drop (bio_pos ?b2) (bio_data ?b2) = take (n - 8 - 10) (concat ?rows @ png_iend)"
        using r2(2) by simp
      show ?thesis
      proof (cases "?len * png_height img \<le> n - 8 - 10")
        case False
        then obtain b3 where "read_rows ?rd ?len (png_height img) ?b2 = (Inl READ_ERROR, b3)"
          using read_rows_prefix_short [OF rl(1) d2] rl(2) by auto
        then show ?thesis using r1(1) r2(1) hdr by (simp add: read_png_def)
      next
        case True
        have d2': "drop (bio_pos ?b2) (bio_data ?b2) = concat ?rows @ take (n - 8 - 10 - length (concat ?rows)) png_iend"
          using d2 True clen by simp
        have r3: "read_rows ?rd ?len (png_height img) ?b2 =
                    (Inr ?rows, ?b2\<lparr>bio_pos := bio_pos ?b2 + ?len * png_height img\<rparr>)"
          using read_rows_bytesio [OF rl(1) d2'] rl(2) by simp
        let ?b3 = "?b2\<lparr>bio_pos := bio_pos ?b2 + ?len * png_height img\<rparr>"
        have "length (bio_data ?b3) - bio_pos ?b3 < 4"
          using arg_cong [OF d2', of length] short sl clen by (simp add: concat_png_pieces)
        then obtain b4 where "read_exact ?rd ?b3 4 = (Inl READ_ERROR, b4)"
          using read_exact_bytesio_short by blast
        then show ?thesis using r1(1) r2(1) hdr r3 by (simp add: read_png_def)
      qed
    qed
  qed
qed

text \<open>The reader never fails with the status \<open>SUCCESS\<close>, so a failed read never yields a surface.\<close>

lemma read_exact_not_success: "read_exact rd f n \<noteq> (Inl SUCCESS, f')"
  by (simp add: read_exact_def split: prod.split option.split)

lemma read_rows_not_success: "read_rows rd len k f \<noteq> (Inl SUCCESS, f')"
  by (induction k arbitrary: f) (auto simp: read_exact_not_success split: prod.split sum.split)

lemma read_png_not_success: "read_png rd f \<noteq> (Inl SUCCESS, f')"
  by (auto simp: read_png_def read_exact_not_success read_rows_not_success
           split: prod.split sum.split option.split)

text \<open>What a successful read yields: a well-formed image, whose conversion has \<open>4 * w * h\<close> bytes.\<close>

lemma read_exact_length:
  "read_exact (make_read_func read) f n = (Inr bs, f') \<Longrightarrow> length bs = n"
  by (auto simp: read_exact_def make_read_func_length split: prod.splits option.splits if_splits)

lemma read_rows_Inr:
  "read_rows (make_read_func read) len k f = (Inr rows, f') \<Longrightarrow>
   length rows = k \<and> (\<forall>row \<in> set rows. length row = len)"
proof (induction k arbitrary: f rows)
  case 0
  then show ?case by simp
next
  case (Suc k)
  then show ?case
    by (auto split: prod.split_asm sum.split_asm dest: read_exact_length)
qed

lemma read_png_Inr:
  assumes "read_png rd f = (Inr img, f')"
  shows "\<exists>hdr f2 f3. parse_header hdr = Some (png_width img, png_height img, png_color img) \<and>
           read_rows rd (png_width img * png_channels (png_color img)) (png_height img) f2 = (Inr (png_rows img), f3)"
  using assms
  by (simp add: read_png_def split: prod.split_asm sum.split_asm option.split_asm if_split_asm) fastforce

lemma parse_header_bounds:
  "parse_header hdr = Some (w, h, c) \<Longrightarrow> 0 < w \<and> w \<le> 1000000 \<and> 0 < h \<and> h \<le> 1000000"
  by (auto simp: parse_header_def Let_def split: if_split_asm)

lemma read_png_well_formed:
  assumes "read_png (make_read_func read) f = (Inr img, f')"
  shows "png_well_formed img"
proof -
  obtain hdr f2 f3 where
    h: "parse_header hdr = Some (png_width img, png_height img, png_color img)" and
    r: "read_rows (make_read_func read) (png_width img * png_channels (png_color img)) (png_height img) f2
          = (Inr (png_rows img), f3)"
    using read_png_Inr [OF assms] by blast
  show ?thesis
    using parse_header_bounds [OF h] read_rows_Inr [OF r] by (simp add: png_well_formed_def)
qed

lemma read_png_outcome:
  assumes "read_png (make_read_func read) f = (r, f')"
  obtains e where "r = Inl e" "e \<noteq> SUCCESS"
    | img fmt data where "r = Inr img" "png_well_formed img" "image_of_png img = (fmt, data)"
proof (cases r)
  case (Inl e)
  have "e \<noteq> SUCCESS"
  proof
    assume "e = SUCCESS"
    then show False using read_png_not_success [of "make_read_func read" f f'] assms Inl by simp
  qed
  with Inl show ?thesis by (rule that(1))
next
  case (Inr img)
  have wf: "png_well_formed img" using read_png_well_formed [of read f img f'] assms Inr by simp
  obtain fmt data where "image_of_png img = (fmt, data)" by (cases "image_of_png img")
  with Inr wf show ?thesis by (rule that(2))
qed

lemma length_premultiply_pixel: "length p = 4 \<Longrightarrow> length (premultiply_pixel p) = 4"
  by (erule length4_cases) simp

lemma length_rgb_to_xrgb: "length p = 3 \<Longrightarrow> length (rgb_to_xrgb p) = 4"
  by (cases p rule: rgb_to_xrgb.cases) auto

lemma length_image_of_png:
  assumes "png_well_formed img"
  shows "length (snd (image_of_png img)) = 4 * png_width img * png_height img"
proof -
  let ?w = "png_width img" and ?h = "png_height img"
  have rows: "length (png_rows img) = ?h"
    "\<And>row. row \<in> set (png_rows img) \<Longrightarrow> length row = ?w * png_channels (png_color img)"
    using assms by (auto simp: png_well_formed_def)
  show ?thesis
  proof (cases "png_color img")
    case PNG_GRAY
    have "\<And>row. row \<in> set (png_rows img) \<Longrightarrow> length (concat (map gray_to_xrgb row)) = 4 * ?w"
      using rows(2) PNG_GRAY by (simp add: length_concat_map_const gray_to_xrgb_def)
    then have "length (concat (map (concat \<circ> map gray_to_xrgb) (png_rows img))) = 4 * ?w * ?h"
      using rows(1) by (simp add: length_concat_map_const)
    then show ?thesis using PNG_GRAY by (simp add: image_of_png_def)
  next
    case PNG_RGB
    have "\<And>row. row \<in> set (png_rows img) \<Longrightarrow> length (concat (map rgb_to_xrgb (chunks 3 row))) = 4 * ?w"
      using rows(2) PNG_RGB by (intro length_expand_chunks) (simp_all add: length_rgb_to_xrgb mult.commute)
    then have "length (concat (map (concat \<circ> map rgb_to_xrgb \<circ> chunks 3) (png_rows img))) = 4 * ?w * ?h"
      using rows(1) by (simp add: length_concat_map_const)
    then show ?thesis using PNG_RGB by (simp add: image_of_png_def)
  next
    case PNG_RGB_ALPHA
    have "\<And>row. row \<in> set (png_rows img) \<Longrightarrow> length (concat (map premultiply_pixel (chunks 4 row))) = 4 * ?w"
      using rows(2) PNG_RGB_ALPHA
      by (intro length_expand_chunks) (simp_all add: length_premultiply_pixel mult.commute)
    then have "length (concat (map (concat \<circ> map premultiply_pixel \<circ> chunks 4) (png_rows img))) = 4 * ?w * ?h"
      using rows(1) by (simp add: length_concat_map_const)
    then show ?thesis using PNG_RGB_ALPHA by (simp add: image_of_png_def)
  qed
qed

lemma format_image_of_png: "fst (image_of_png img) = ARGB32 \<or> fst (image_of_png img) = RGB24"
  by (simp add: image_of_png_def split: png_color.split)

subsection \<open>The reader refines the decoder\<close>

lemma read_exact_bytesio_gen:
  "read_exact (make_read_func bytesio_read) b n =
     (if n \<le> length (drop (bio_pos b) (bio_data b))
      then (Inr (take n (drop (bio_pos b) (bio_data b))), b\<lparr>bio_pos := bio_pos b + n\<rparr>)
      else (Inl READ_ERROR, b\<lparr>bio_pos := bio_pos b + (length (bio_data b) - bio_pos b)\<rparr>))"
  by (simp add: read_exact_def read_func_bytesio)

lemma read_rows_bytesio_fits:
  "len * h \<le> length (drop (bio_pos b) (bio_data b)) \<Longrightarrow>
   read_rows (make_read_func bytesio_read) len h b =
     (Inr (map (\<lambda>r. take len (drop (r * len) (drop (bio_pos b) (bio_data b)))) [0..<h]),
      b\<lparr>bio_pos := bio_pos b + len * h\<rparr>)"
proof (induction h arbitrary: b)
  case 0
  then show ?case by simp
next
  case (Suc h)
  let ?b' = "b\<lparr>bio_pos := bio_pos b + len\<rparr>"
  have fit: "len \<le> length (drop (bio_pos b) (bio_data b))" using Suc.prems by simp
  have "len * h \<le> length (drop (bio_pos ?b') (bio_data ?b'))" using Suc.prems by simp
  then have IH: "read_rows (make_read_func bytesio_read) len h ?b' =
     (Inr (map (\<lambda>r. take len (drop (r * len) (drop (bio_pos b + len) (bio_data b)))) [0..<h]),
      b\<lparr>bio_pos := bio_pos b + len + len * h\<rparr>)"
    using Suc.IH [of ?b'] by simp
  have rows: "take len (drop (bio_pos b) (bio_data b)) #
        map (\<lambda>r. take len (drop (r * len) (drop (bio_pos b + len) (bio_data b)))) [0..<h] =
      map (\<lambda>r. take len (drop (r * len) (drop (bio_pos b) (bio_data b)))) [0..<Suc h]"
    by (simp del: upt_Suc add: upt_conv_Cons map_Suc_upt [symmetric] add.commute add.left_commute)
  show ?case
    using fit IH rows by (simp add: read_exact_bytesio_gen add.assoc)
qed

lemma read_rows_bytesio_short:
  "length (drop (bio_pos b) (bio_data b)) < len * h \<Longrightarrow>
   fst (read_rows (make_read_func bytesio_read) len h b) = Inl READ_ERROR"
proof (induction h arbitrary: b)
  case 0
  then show ?case by simp
next
  case (Suc h)
  show ?case
  proof (cases "len \<le> length (drop (bio_pos b) (bio_data b))")
    case True
    let ?b' = "b\<lparr>bio_pos := bio_pos b + len\<rparr>"
    have "length (drop (bio_pos ?b') (bio_data ?b')) < len * h" using Suc.prems True by simp
    then have "fst (read_rows (make_read_func bytesio_read) len h ?b') = Inl READ_ERROR" by (rule Suc.IH)
    then obtain f'' where "read_rows (make_read_func bytesio_read) len h ?b' = (Inl READ_ERROR, f'')"
      by (cases "read_rows (make_read_func bytesio_read) len h ?b'") simp
    then show ?thesis using True by (simp add: read_exact_bytesio_gen)
  next
    case False
    then show ?thesis by (simp add: read_exact_bytesio_gen)
  qed
qed

text \<open>
  C11. The reader cairo runs behind \<open>create_from_png\<close>, fed through the binding's read
  adapter from an \<open>io.BytesIO\<close>, refines the abstract decoder: its outcome (the image, or
  the status it fails with) is \<open>png_decode\<close> of the bytes from the stream's position.
\<close>

theorem read_png_refines_decode:
  "fst (read_png (make_read_func bytesio_read) b) = png_decode (drop (bio_pos b) (bio_data b))"
proof -
  let ?rd = "make_read_func bytesio_read"
  define d where "d = drop (bio_pos b) (bio_data b)"
  have rx: "\<And>b' n. read_exact ?rd b' n =
     (if n \<le> length (drop (bio_pos b') (bio_data b'))
      then (Inr (take n (drop (bio_pos b') (bio_data b'))), b'\<lparr>bio_pos := bio_pos b' + n\<rparr>)
      else (Inl READ_ERROR, b'\<lparr>bio_pos := bio_pos b' + (length (bio_data b') - bio_pos b')\<rparr>))"
    by (rule read_exact_bytesio_gen)
  let ?b1 = "b\<lparr>bio_pos := bio_pos b + 8\<rparr>" and ?b2 = "b\<lparr>bio_pos := bio_pos b + 8 + 10\<rparr>"
  have d1: "drop (bio_pos ?b1) (bio_data ?b1) = drop 8 d" and d2: "drop (bio_pos ?b2) (bio_data ?b2) = drop 18 d"
    by (simp_all add: d_def add.commute)
  have ld: "length d = length (bio_data b) - bio_pos b" by (simp add: d_def)
  show ?thesis
  proof (cases "8 \<le> length d \<and> take 8 d = png_signature \<and> 18 \<le> length d")
    case False
    from False show ?thesis by (auto simp: read_png_def png_decode_def rx d_def [symmetric] d1 ld split: if_splits)
  next
    case pre: True
    have r1: "read_exact ?rd b 8 = (Inr png_signature, ?b1)" using pre rx [of b 8] by (simp add: d_def)
    have "10 \<le> length (drop (bio_pos ?b1) (bio_data ?b1))" using pre d1 by (simp; arith)
    then have r2: "read_exact ?rd ?b1 10 = (Inr (take 10 (drop 8 d)), ?b2)"
      using rx [of ?b1 10] d1 by (simp only: if_True) simp
    show ?thesis
    proof (cases "parse_header (take 10 (drop 8 d))")
      case None
      then show ?thesis using pre r1 r2 by (simp add: read_png_def png_decode_def d_def [symmetric])
    next
      case (Some hdr)
      obtain w h c where hdr: "hdr = (w, h, c)" by (cases hdr) blast
      let ?len = "w * png_channels c"
      show ?thesis
      proof (cases "?len * h \<le> length (drop 18 d)")
        case False
        then have "length (drop (bio_pos ?b2) (bio_data ?b2)) < ?len * h" using d2 by (metis not_le)
        then have "fst (read_rows ?rd ?len h ?b2) = Inl READ_ERROR" by (rule read_rows_bytesio_short)
        then obtain f3 where "read_rows ?rd ?len h ?b2 = (Inl READ_ERROR, f3)"
          by (cases "read_rows ?rd ?len h ?b2") simp
        moreover have "length d < 18 + ?len * h + 4" using False pre by simp
        ultimately show ?thesis using pre r1 r2 Some hdr
          by (simp add: read_png_def png_decode_def d_def [symmetric] Let_def)
      next
        case True
        let ?b3 = "?b2\<lparr>bio_pos := bio_pos ?b2 + ?len * h\<rparr>"
        have r3: "read_rows ?rd ?len h ?b2 =
            (Inr (map (\<lambda>r. take ?len (drop (18 + r * ?len) d)) [0..<h]), ?b3)"
        proof -
          have fit: "?len * h \<le> length (drop (bio_pos ?b2) (bio_data ?b2))" using True d2 by metis
          have "map (\<lambda>r. take ?len (drop (r * ?len) (drop (bio_pos ?b2) (bio_data ?b2)))) [0..<h] =
                  map (\<lambda>r. take ?len (drop (18 + r * ?len) d)) [0..<h]"
            unfolding d2 by (simp add: add.commute)
          then show ?thesis using read_rows_bytesio_fits [OF fit] by simp
        qed
        have d3: "drop (bio_pos ?b3) (bio_data ?b3) = drop (18 + ?len * h) d"
          by (simp add: d_def add.commute add.left_commute)
        note r4 = rx [of ?b3 4, unfolded d3]
        show ?thesis using pre r1 r2 Some hdr True r3 r4
          by (auto simp: read_png_def png_decode_def d_def [symmetric] Let_def)
      qed
    qed
  qed
qed

subsection \<open>Writing an image\<close>

lemma row_length_ARGB32 [simp]: "row_length ARGB32 w = 4 * w"
  by (simp add: row_length_def)

lemma surface_rows_owned:
  assumes "img_pixels i = Owned_data px" "img_stride i = int k"
    and "k = row_length (img_format i) (nat (img_width i))" "length px = k * nat (img_height i)"
  shows "surface_rows bufs i = Some (map (\<lambda>r. take k (drop (r * k) px)) [0..<nat (img_height i)])"
proof -
  have "list_all (\<lambda>r. 0 \<le> int r * int k \<and> int r * int k + int k \<le> int (length px)) [0..<nat (img_height i)]"
  proof (unfold list_all_iff, intro ballI conjI)
    fix r assume "r \<in> set [0..<nat (img_height i)]"
    then have "Suc r \<le> nat (img_height i)" by simp
    then have "Suc r * k \<le> nat (img_height i) * k" by (rule mult_le_mono1)
    then show "int r * int k + int k \<le> int (length px)"
      using assms(4) by (simp add: mult.commute flip: of_nat_mult of_nat_add)
  qed simp
  then show ?thesis
    using assms by (simp add: surface_rows_def Let_def nat_mult_distrib flip: of_nat_mult)
qed

lemma write_png_pieces_bytesio:
  "write_chunks (make_write_func bytesio_write) (png_pieces img) (bytesio_new []) =
     (SUCCESS, \<lparr>bio_data = concat (png_pieces img), bio_pos = length (concat (png_pieces img))\<rparr>)"
  using write_chunks_bytesio [of "bytesio_new []" "png_pieces img"] by (simp add: bytesio_new_def)

text \<open>
  The \<open>ARGB32\<close> writer followed by the reader's conversion gives back the rows of a
  premultiplied image, as \<open>RGB24\<close> when every pixel is opaque.
\<close>

lemma png_of_rows_ARGB32:
  assumes rows: "\<forall>row \<in> set rows. length row = 4 * w" "length rows = h"
    and size: "0 < w" "w \<le> 1000000" "0 < h" "h \<le> 1000000"
    and pm: "list_all premultiplied (chunks 4 (concat rows))"
  shows "\<exists>img. png_of_rows ARGB32 w h rows = Inr img \<and> png_well_formed img \<and>
           png_width img = w \<and> png_height img = h \<and>
           image_of_png img = (if list_all (\<lambda>p. p ! 3 = 255) (chunks 4 (concat rows))
                               then RGB24 else ARGB32, concat rows)"
proof -
  have dvd: "\<forall>row \<in> set rows. 4 dvd length row" using rows(1) by simp
  have cc: "chunks 4 (concat rows) = concat (map (chunks 4) rows)"
    by (rule chunks_concat_dvd [OF dvd])
  have lc: "\<And>row. row \<in> set rows \<Longrightarrow> length (chunks 4 row) = w"
    using rows(1) by (simp add: length_chunks_dvd)
  have len4: "\<And>row p. row \<in> set rows \<Longrightarrow> p \<in> set (chunks 4 row) \<Longrightarrow> length p = 4"
    using dvd chunks_length_dvd by blast
  show ?thesis
  proof (cases "list_all (\<lambda>p. p ! 3 = 255) (chunks 4 (concat rows))")
    case True
    let ?rs = "map (concat \<circ> map xrgb_to_rgb \<circ> chunks 4) rows"
    have opq: "\<And>row. row \<in> set rows \<Longrightarrow> list_all (\<lambda>p. p ! 3 = 255) (chunks 4 row)"
      using True by (simp add: cc list_all_iff)
    have rt: "map (concat \<circ> map rgb_to_xrgb \<circ> chunks 3) ?rs = rows"
      using row_roundtrip_opaque [OF _ opq] dvd by (simp add: map_idI)
    have "\<forall>row \<in> set ?rs. length row = w * 3"
      using lc len4 by (auto simp: length_concat length_xrgb_to_rgb sum_list_triv cong: map_cong)
    then have "png_well_formed \<lparr>png_width = w, png_height = h, png_color = PNG_RGB, png_rows = ?rs\<rparr>"
      using rows size by (simp add: png_well_formed_def)
    moreover have "png_of_rows ARGB32 w h rows =
        Inr \<lparr>png_width = w, png_height = h, png_color = PNG_RGB, png_rows = ?rs\<rparr>"
      using True by (simp add: png_of_rows_def cc list_all_iff comp_def)
    ultimately show ?thesis using True rt by (simp add: image_of_png_def)
  next
    case False
    let ?rs = "map (concat \<circ> map unpremultiply_pixel \<circ> chunks 4) rows"
    have pmr: "\<And>row. row \<in> set rows \<Longrightarrow> list_all premultiplied (chunks 4 row)"
      using pm by (simp add: cc list_all_iff)
    have rt: "map (concat \<circ> map premultiply_pixel \<circ> chunks 4) ?rs = rows"
      using row_roundtrip_alpha [OF _ pmr] dvd by (simp add: map_idI)
    have "\<forall>row \<in> set ?rs. length row = w * 4"
      using lc len4 by (auto simp: length_concat length_unpremultiply_pixel sum_list_triv cong: map_cong)
    then have "png_well_formed \<lparr>png_width = w, png_height = h, png_color = PNG_RGB_ALPHA, png_rows = ?rs\<rparr>"
      using rows size by (simp add: png_well_formed_def)
    moreover have "png_of_rows ARGB32 w h rows =
        Inr \<lparr>png_width = w, png_height = h, png_color = PNG_RGB_ALPHA, png_rows = ?rs\<rparr>"
      using False by (simp add: png_of_rows_def cc list_all_iff comp_def Let_def)
    ultimately show ?thesis using False rt by (simp add: image_of_png_def)
  qed
qed

end
