(* ===== verification/Cairo_Png.thy ===== *)
theory Cairo_Png
  imports Cairo_PngCodec
begin

text \<open>
  PNG export and import in the binding: \<open>Surface.write_to_png\<close> (\<open>surfaces.py\<close>,
  lines 149--156), \<open>ImageSurface.create_from_png\<close> (lines 183--195) and
  \<open>_encode_filename\<close> (lines 37--40). A target or source is either an object with a
  \<open>write\<close> (\<open>read\<close>) method, bridged by the stream adapters of \<open>Cairo_Stream\<close>, or a
  file name, handed to cairo's file functions over the file system of the world.
\<close>

section \<open>The binding\<close>

text \<open>
  A file name is a \<open>bytes\<close> or a \<open>str\<close> object; \<open>_encode_filename\<close> encodes a
  \<open>str\<close> with the file-system encoding (UTF-8) and copies it into a \<open>char[]\<close>, which
  cffi terminates with a NUL byte.
\<close>

datatype py_path = Path_bytes bytes | Path_str string

definition encode_filename :: "py_path \<Rightarrow> bytes" where
  "encode_filename filename =
     (case filename of Path_bytes b \<Rightarrow> b | Path_str s \<Rightarrow> utf8_encode s) @ [0]"

text \<open>
  The target of \<open>write_to_png\<close> and the source of \<open>create_from_png\<close>: an object with
  a \<open>write\<close> (\<open>read\<close>) method, given by the method and the object's state, or a file
  name. The exported bytes reach the target even when the call then raises, so the
  target's state is returned with the outcome.
\<close>

datatype 'f png_target = File_writer "'f write_method" 'f | Path_target py_path

datatype 'f png_source = File_reader "'f read_method" 'f | Path_source py_path

definition write_to_png ::
  "pysurface \<Rightarrow> 'f png_target \<Rightarrow> world \<Rightarrow> unit result \<times> 'f png_target \<times> world" where
  "write_to_png self target w =
     (case target of
        File_writer write f \<Rightarrow>
          (case cairo_surface_write_to_png_stream (handle self) (make_write_func write) f
                  (native w) (buffers w) of
             None \<Rightarrow> (Inl Native_fault, target, w)
           | Some (st, f') \<Rightarrow> (check_status st, File_writer write f', w))
      | Path_target filename \<Rightarrow>
          (case cairo_surface_write_to_png (handle self) (encode_filename filename) (native w)
                  (buffers w) (files w) of
             None \<Rightarrow> (Inl Native_fault, target, w)
           | Some (st, fs') \<Rightarrow> (check_status st, target, w\<lparr>files := fs'\<rparr>)))"

text \<open>
  \<open>create_from_png\<close>: the new handle goes through \<open>Surface.__init__\<close> (status check,
  finaliser) and the object is then given the class \<open>cls\<close> the method was called on.
\<close>

definition create_from_png ::
  "py_class \<Rightarrow> 'f png_source \<Rightarrow> world \<Rightarrow> (nat \<times> world) result \<times> 'f png_source" where
  "create_from_png cls' source w =
     (let (h, st, source') =
        (case source of
           File_reader read f \<Rightarrow>
             (case cairo_image_surface_create_from_png_stream (make_read_func read) f (native w) of
                (h, st, f') \<Rightarrow> (h, st, File_reader read f'))
         | Path_source filename \<Rightarrow>
             (case cairo_image_surface_create_from_png (encode_filename filename) (native w) (files w) of
                (h, st) \<Rightarrow> (h, st, source)))
      in (rbind (Surface_init Surface_cls None h (w\<lparr>native := st\<rparr>)) (\<lambda>(oid, w1).
            Inr (oid, set_class oid cls' w1)), source'))"

text \<open>
  The world after an import that produced a \<open>fmt\<close> image of \<open>W\<close> by \<open>H\<close> pixels with the
  bytes \<open>px\<close>: the native store holds the new surface, the object table its wrapper.
\<close>

abbreviation loaded_world :: "world \<Rightarrow> py_class \<Rightarrow> cairo_format \<Rightarrow> nat \<Rightarrow> nat \<Rightarrow> bytes \<Rightarrow> world" where
  "loaded_world w cls' fmt W H px \<equiv>
     w\<lparr>native := (native w)\<lparr>surfaces := (surfaces (native w))(next_ptr (native w) \<mapsto>
                   new_image_surface fmt (int W) (int H) (int (4 * W)) (Owned_data px)),
                 next_ptr := Suc (next_ptr (native w))\<rparr>,
       objects := (objects w)(next_id w \<mapsto> \<lparr>cls = cls', handle = PTR (next_ptr (native w)), data_ref = None\<rparr>),
       next_id := Suc (next_id w)\<rparr>"

section \<open>Lemmas\<close>

lemma write_to_png_stream_encoded:
  assumes "handle obj = PTR a" "surfaces (native w) a = Some s" "ns_status s = SUCCESS"
    "\<not> ns_finished s" "write_png (buffers w) (ns_image s) = Some (Inr img)"
  shows "write_to_png obj (File_writer write f) w =
           (case write_chunks (make_write_func write) (png_pieces img) f of
              (st, f') \<Rightarrow> (check_status st, File_writer write f', w))"
  using assms
  by (simp add: write_to_png_def cairo_surface_write_to_png_stream_def png_export_check_def
           split: prod.split)

lemma create_from_png_stream_decoded:
  fixes w :: world
  assumes "read_png (make_read_func read) f = (Inr img, f')" "image_of_png img = (fmt, data)"
  shows "create_from_png cls' (File_reader read f) w =
    (Inr (next_id w, loaded_world w cls' fmt (png_width img) (png_height img) data), File_reader read f')"
  using assms
  by (simp add: create_from_png_def cairo_image_surface_create_from_png_stream_def alloc_surface_def
                Surface_init_def cairo_surface_status_def new_image_surface_def set_class_def)

lemma create_from_png_stream_failed:
  "read_png (make_read_func read) f = (Inl e, f') \<Longrightarrow> e \<noteq> SUCCESS \<Longrightarrow>
   create_from_png cls' (File_reader read f) w = (Inl (CairoError e), File_reader read f')"
  by (simp add: create_from_png_def cairo_image_surface_create_from_png_stream_def Surface_init_def
                cairo_surface_status_def check_status_def)

lemma write_to_png_path_encoded:
  assumes "handle obj = PTR a" "surfaces (native w) a = Some s" "ns_status s = SUCCESS"
    "\<not> ns_finished s" "write_png (buffers w) (ns_image s) = Some (Inr img)"
    "c_string (encode_filename p) \<noteq> []"
  shows "write_to_png obj (Path_target p) w =
           (Inr (), Path_target p,
            w\<lparr>files := (files w)(c_string (encode_filename p) \<mapsto> concat (png_pieces img))\<rparr>)"
  using assms
  by (simp add: write_to_png_def cairo_surface_write_to_png_def png_export_check_def Let_def)

lemma create_from_png_path_decoded:
  fixes w :: world
  assumes "files w (c_string (encode_filename p)) = Some bs"
    "read_png (make_read_func bytesio_read) (bytesio_new bs) = (Inr img, f')"
    "image_of_png img = (fmt, data)"
  shows "create_from_png cls' (Path_source p) w =
           (Inr (next_id w, loaded_world w cls' fmt (png_width img) (png_height img) data), Path_source p)"
  using assms
  by (simp add: create_from_png_def cairo_image_surface_create_from_png_def stdio_read_func_bytesio
                cairo_image_surface_create_from_png_stream_def alloc_surface_def Surface_init_def
                cairo_surface_status_def new_image_surface_def set_class_def)

lemma create_from_png_path_missing:
  "files w (c_string (encode_filename p)) = None \<Longrightarrow>
   create_from_png cls' (Path_source p) w = (Inl (CairoError FILE_NOT_FOUND), Path_source p)"
  by (simp add: create_from_png_def cairo_image_surface_create_from_png_def Surface_init_def
                cairo_surface_status_def check_status_def)

lemma create_from_png_path_failed:
  "files w (c_string (encode_filename p)) = Some bs \<Longrightarrow>
   read_png (make_read_func bytesio_read) (bytesio_new bs) = (Inl e, f') \<Longrightarrow> e \<noteq> SUCCESS \<Longrightarrow>
   create_from_png cls' (Path_source p) w = (Inl (CairoError e), Path_source p)"
  by (simp add: create_from_png_def cairo_image_surface_create_from_png_def stdio_read_func_bytesio
                cairo_image_surface_create_from_png_stream_def Surface_init_def
                cairo_surface_status_def check_status_def)

text \<open>Every import either raises \<open>CairoError\<close> or adds one well-formed image and its wrapper.\<close>

lemma create_from_png_cases:
  "(\<exists>e. fst (create_from_png cls' source w) = Inl (CairoError e)) \<or>
   (\<exists>img fmt data. png_well_formed img \<and> image_of_png img = (fmt, data) \<and>
      fst (create_from_png cls' source w) =
        Inr (next_id w, loaded_world w cls' fmt (png_width img) (png_height img) data))"
proof (cases source)
  case (File_reader read f)
  obtain r f' where rf: "read_png (make_read_func read) f = (r, f')" by fastforce
  then show ?thesis
  proof (cases rule: read_png_outcome)
    case (1 e)
    have "create_from_png cls' source w = (Inl (CairoError e), File_reader read f')"
      unfolding File_reader by (rule create_from_png_stream_failed [OF rf [unfolded 1(1)] 1(2)])
    then show ?thesis by simp
  next
    case (2 img fmt data)
    have "create_from_png cls' source w =
        (Inr (next_id w, loaded_world w cls' fmt (png_width img) (png_height img) data), File_reader read f')"
      unfolding File_reader by (rule create_from_png_stream_decoded [OF rf [unfolded 2(1)] 2(3)])
    then show ?thesis using 2(2,3) by (intro disjI2 exI [of _ img] exI [of _ fmt] exI [of _ data]) simp
  qed
next
  case (Path_source p)
  show ?thesis
  proof (cases "files w (c_string (encode_filename p))")
    case None
    have "create_from_png cls' source w = (Inl (CairoError FILE_NOT_FOUND), Path_source p)"
      unfolding Path_source by (rule create_from_png_path_missing [OF None])
    then show ?thesis by simp
  next
    case (Some bs)
    obtain r f' where rf: "read_png (make_read_func bytesio_read) (bytesio_new bs) = (r, f')" by fastforce
    then show ?thesis
    proof (cases rule: read_png_outcome)
      case (1 e)
      have "create_from_png cls' source w = (Inl (CairoError e), Path_source p)"
        unfolding Path_source by (rule create_from_png_path_failed [OF Some rf [unfolded 1(1)] 1(2)])
      then show ?thesis by simp
    next
      case (2 img fmt data)
      have "create_from_png cls' source w =
          (Inr (next_id w, loaded_world w cls' fmt (png_width img) (png_height img) data), Path_source p)"
        unfolding Path_source by (rule create_from_png_path_decoded [OF Some rf [unfolded 2(1)] 2(3)])
      then show ?thesis using 2(2,3) by (intro disjI2 exI [of _ img] exI [of _ fmt] exI [of _ data]) simp
    qed
  qed
qed

lemma create_from_png_Inr:
  assumes ok: "fst (create_from_png cls' source w) = Inr (oid, w')"
  shows "\<exists>img fmt data. png_well_formed img \<and> image_of_png img = (fmt, data) \<and> oid = next_id w \<and>
           w' = loaded_world w cls' fmt (png_width img) (png_height img) data"
  using create_from_png_cases [of cls' source w] ok by auto

lemma create_from_png_no_fault: "fst (create_from_png cls' source w) \<noteq> Inl Native_fault"
  using create_from_png_cases [of cls' source w] by auto

lemma loaded_world_queries:
  fixes w :: world and cls' :: py_class
  assumes "length px = 4 * W * H"
  defines "obj \<equiv> \<lparr>cls = cls', handle = PTR (next_ptr (native w)), data_ref = None\<rparr>"
  shows "objects (loaded_world w cls' fmt W H px) (next_id w) = Some obj"
    and "get_format obj (loaded_world w cls' fmt W H px) = Inr fmt"
    and "get_width obj (loaded_world w cls' fmt W H px) = Inr (int W)"
    and "get_height obj (loaded_world w cls' fmt W H px) = Inr (int H)"
    and "get_stride obj (loaded_world w cls' fmt W H px) = Inr (int (4 * W))"
    and "rbind (get_data obj (loaded_world w cls' fmt W H px))
           (\<lambda>v. view_read v (loaded_world w cls' fmt W H px)) = Inr px"
proof -
  let ?w' = "loaded_world w cls' fmt W H px" and ?a = "next_ptr (native w)"
  let ?n = "new_image_surface fmt (int W) (int H) (int (4 * W)) (Owned_data px)"
  have ns: "handle obj = PTR ?a" "surfaces (native ?w') ?a = Some ?n" "ns_type ?n = IMAGE"
    by (simp_all add: obj_def new_image_surface_def)
  note acc = image_accessors [OF ns]
  show "objects ?w' (next_id w) = Some obj" by (simp add: obj_def)
  show "get_format obj ?w' = Inr fmt" "get_width obj ?w' = Inr (int W)" "get_height obj ?w' = Inr (int H)"
    "get_stride obj ?w' = Inr (int (4 * W))"
    using acc by (simp_all add: new_image_surface_def)
  show "rbind (get_data obj ?w') (\<lambda>v. view_read v ?w') = Inr px"
    using image_data_read [OF ns] assms(1) by (simp add: new_image_surface_def algebra_simps)
qed

lemma argb32_export:
  assumes img: "ns_image s = \<lparr>img_format = ARGB32, img_width = int W, img_height = int H,
                              img_stride = int (4 * W), img_pixels = Owned_data px\<rparr>"
    and size: "0 < W" "W \<le> 1000000" "0 < H" "H \<le> 1000000"
    and len: "length px = 4 * W * H"
    and pm: "list_all premultiplied (chunks 4 px)"
  shows "\<exists>pimg. write_png bufs (ns_image s) = Some (Inr pimg) \<and> png_well_formed pimg \<and>
           png_width pimg = W \<and> png_height pimg = H \<and>
           image_of_png pimg = (if list_all (\<lambda>p. p ! 3 = 255) (chunks 4 px) then RGB24 else ARGB32, px)"
proof -
  define rows where "rows = map (\<lambda>r. take (4 * W) (drop (r * (4 * W)) px)) [0..<H]"
  have cr: "concat rows = px" unfolding rows_def by (rule concat_rows) (simp add: len)
  have rl: "\<forall>row \<in> set rows. length row = 4 * W"
  proof
    fix row assume "row \<in> set rows"
    then obtain r where r: "r < H" "row = take (4 * W) (drop (r * (4 * W)) px)"
      by (auto simp: rows_def)
    have "Suc r * (4 * W) \<le> H * (4 * W)" using r(1) by (intro mult_le_mono1) simp
    then show "length row = 4 * W" using r(2) len by (simp add: algebra_simps)
  qed
  have "surface_rows bufs (ns_image s) =
          Some (map (\<lambda>r. take (4 * W) (drop (r * (4 * W)) px)) [0..<nat (img_height (ns_image s))])"
    by (rule surface_rows_owned) (simp_all add: img len mult.assoc)
  then have sr: "surface_rows bufs (ns_image s) = Some rows" by (simp add: img rows_def)
  obtain pimg where p: "png_of_rows ARGB32 W H rows = Inr pimg" "png_well_formed pimg"
      "png_width pimg = W" "png_height pimg = H"
      "image_of_png pimg = (if list_all (\<lambda>p. p ! 3 = 255) (chunks 4 px) then RGB24 else ARGB32, px)"
    using png_of_rows_ARGB32 [OF rl _ size] pm cr by (auto simp: rows_def)
  have "write_png bufs (ns_image s) = Some (Inr pimg)"
    using size sr p(1) by (simp add: write_png_def img)
  then show ?thesis using p(2-5) by blast
qed

lemma example_write_png:
  "write_png (buffers example_world) (ns_image example_surface) =
     Some (Inr \<lparr>png_width = 1, png_height = 1, png_color = PNG_RGB_ALPHA, png_rows = [[0, 0, 0, 0]]\<rparr>)"
  by (simp add: write_png_def surface_rows_def example_surface_def new_image_surface_def row_length_def
                png_of_rows_def chunks_Cons_pos unpremultiply_chan_def Let_def)

lemma example_export_ok:
  "handle \<lparr>cls = ImageSurface_cls, handle = PTR 0, data_ref = None\<rparr> = PTR 0"
  "surfaces (native example_world) 0 = Some example_surface"
  "ns_status example_surface = SUCCESS" "\<not> ns_finished example_surface"
  by (simp_all add: example_world_def example_surface_def new_image_surface_def)

section \<open>Round trips\<close>

text \<open>
  C7. Exporting an \<open>ARGB32\<close> image surface with \<open>write_to_png\<close> into a fresh
  \<open>io.BytesIO\<close> and importing the bytes with \<open>ImageSurface.create_from_png\<close> from the
  start of the same object yields a new \<open>ImageSurface\<close> with the same width, height,
  stride and pixel bytes, provided every pixel is in premultiplied form (as every pixel
  cairo draws is); the format comes back as \<open>ARGB32\<close>, or \<open>RGB24\<close> when every pixel is
  opaque.
\<close>

theorem png_stream_roundtrip:
  assumes h: "handle obj = PTR a" and s: "surfaces (native w) a = Some s"
    and ok: "ns_status s = SUCCESS" "\<not> ns_finished s"
    and img: "ns_image s = \<lparr>img_format = ARGB32, img_width = int W, img_height = int H,
                            img_stride = int (4 * W), img_pixels = Owned_data px\<rparr>"
    and size: "0 < W" "W \<le> 1000000" "0 < H" "H \<le> 1000000"
    and len: "length px = 4 * W * H"
    and pm: "list_all premultiplied (chunks 4 px)"
  shows "\<exists>f oid w' obj'.
     write_to_png obj (File_writer bytesio_write (bytesio_new [])) w =
       (Inr (), File_writer bytesio_write f, w) \<and>
     fst (create_from_png ImageSurface_cls (File_reader bytesio_read (f\<lparr>bio_pos := 0\<rparr>)) w) =
       Inr (oid, w') \<and>
     objects w' oid = Some obj' \<and> cls obj' = ImageSurface_cls \<and>
     get_format obj' w' = Inr (if list_all (\<lambda>p. p ! 3 = 255) (chunks 4 px) then RGB24 else ARGB32) \<and>
     get_width obj' w' = Inr (int W) \<and> get_height obj' w' = Inr (int H) \<and>
     get_stride obj' w' = Inr (int (4 * W)) \<and>
     rbind (get_data obj' w') (\<lambda>v. view_read v w') = Inr px"
proof -
  define fmt where "fmt = (if list_all (\<lambda>p. p ! 3 = 255) (chunks 4 px) then RGB24 else ARGB32)"
  obtain pimg where p: "write_png (buffers w) (ns_image s) = Some (Inr pimg)" "png_well_formed pimg"
      "png_width pimg = W" "png_height pimg = H" "image_of_png pimg = (fmt, px)"
    using argb32_export [OF img size len pm] unfolding fmt_def by blast
  define F where "F = \<lparr>bio_data = concat (png_pieces pimg), bio_pos = length (concat (png_pieces pimg))\<rparr>"
  have wr: "write_to_png obj (File_writer bytesio_write (bytesio_new [])) w =
              (Inr (), File_writer bytesio_write F, w)"
    using write_to_png_stream_encoded [OF h s ok p(1), of bytesio_write "bytesio_new []"]
          write_png_pieces_bytesio [of pimg] by (simp add: F_def)
  have rd: "read_png (make_read_func bytesio_read) (F\<lparr>bio_pos := 0\<rparr>) = (Inr pimg, F)"
    using read_png_bytesio [OF p(2), of "F\<lparr>bio_pos := 0\<rparr>" "[]"] by (simp add: F_def)
  have cf: "create_from_png ImageSurface_cls (File_reader bytesio_read (F\<lparr>bio_pos := 0\<rparr>)) w =
              (Inr (next_id w, loaded_world w ImageSurface_cls fmt W H px), File_reader bytesio_read F)"
    using create_from_png_stream_decoded [OF rd p(5), where w = w and cls' = ImageSurface_cls] p(3,4)
    by simp
  note q = loaded_world_queries [OF len, where w = w and cls' = ImageSurface_cls and fmt = fmt]
  show ?thesis
    unfolding fmt_def [symmetric]
    by (rule exI [of _ F], rule exI [of _ "next_id w"],
        rule exI [of _ "loaded_world w ImageSurface_cls fmt W H px"],
        rule exI [of _ "\<lparr>cls = ImageSurface_cls, handle = PTR (next_ptr (native w)), data_ref = None\<rparr>"])
       (simp only: wr cf q fst_conv pysurface.select_convs simp_thms)
qed

theorem png_stream_roundtrip_witness:
  "handle \<lparr>cls = ImageSurface_cls, handle = PTR 0, data_ref = None\<rparr> = PTR 0 \<and>
   surfaces (native example_world) 0 = Some example_surface \<and>
   ns_status example_surface = SUCCESS \<and> \<not> ns_finished example_surface \<and>
   ns_image example_surface = \<lparr>img_format = ARGB32, img_width = int 1, img_height = int 1,
                               img_stride = int (4 * 1), img_pixels = Owned_data [0, 0, 0, 0]\<rparr> \<and>
   (0::nat) < 1 \<and> length [0, 0, 0, 0 :: byte] = 4 * 1 * 1 \<and>
   list_all premultiplied (chunks 4 [0, 0, 0, 0]) \<and>
   (\<exists>f oid w' obj'.
     write_to_png \<lparr>cls = ImageSurface_cls, handle = PTR 0, data_ref = None\<rparr>
       (File_writer bytesio_write (bytesio_new [])) example_world =
       (Inr (), File_writer bytesio_write f, example_world) \<and>
     fst (create_from_png ImageSurface_cls (File_reader bytesio_read (f\<lparr>bio_pos := 0\<rparr>)) example_world) =
       Inr (oid, w') \<and>
     objects w' oid = Some obj' \<and> cls obj' = ImageSurface_cls \<and>
     get_format obj' w' = Inr ARGB32 \<and> get_width obj' w' = Inr 1 \<and> get_height obj' w' = Inr 1 \<and>
     get_stride obj' w' = Inr 4 \<and> rbind (get_data obj' w') (\<lambda>v. view_read v w') = Inr [0, 0, 0, 0])"
proof -
  have h: "handle \<lparr>cls = ImageSurface_cls, handle = PTR 0, data_ref = None\<rparr> = PTR 0"
    "surfaces (native example_world) 0 = Some example_surface"
    "ns_status example_surface = SUCCESS" "\<not> ns_finished example_surface"
    "ns_image example_surface = \<lparr>img_format = ARGB32, img_width = int 1, img_height = int 1,
                               img_stride = int (4 * 1), img_pixels = Owned_data [0, 0, 0, 0]\<rparr>"
    "length [0, 0, 0, 0 :: byte] = 4 * 1 * 1" "list_all premultiplied (chunks 4 [0, 0, 0, 0])"
    by (simp_all add: example_world_def example_surface_def new_image_surface_def premultiplied_def
                      chunks_Cons_pos)
  show ?thesis
    using png_stream_roundtrip [OF h(1-5) _ _ _ _ h(6,7)] h by (simp add: chunks_Cons_pos)
qed

text \<open>
  C22. The same round trip through a file: \<open>write_to_png\<close> with a file name whose C string
  is not empty writes the datastream to that file and succeeds, and
  \<open>ImageSurface.create_from_png\<close> with the same name then yields an \<open>ImageSurface\<close>
  with the width, height, stride and pixel bytes of the original.
\<close>

theorem png_path_roundtrip:
  assumes h: "handle obj = PTR a" and s: "surfaces (native w) a = Some s"
    and ok: "ns_status s = SUCCESS" "\<not> ns_finished s"
    and img: "ns_image s = \<lparr>img_format = ARGB32, img_width = int W, img_height = int H,
                            img_stride = int (4 * W), img_pixels = Owned_data px\<rparr>"
    and size: "0 < W" "W \<le> 1000000" "0 < H" "H \<le> 1000000"
    and len: "length px = 4 * W * H"
    and pm: "list_all premultiplied (chunks 4 px)"
    and path: "c_string (encode_filename p) \<noteq> []"
  shows "\<exists>w1 oid w' obj'.
     write_to_png obj (Path_target p) w = (Inr (), Path_target p, w1) \<and>
     fst (create_from_png ImageSurface_cls (Path_source p) w1) = Inr (oid, w') \<and>
     objects w' oid = Some obj' \<and> cls obj' = ImageSurface_cls \<and>
     get_format obj' w' = Inr (if list_all (\<lambda>p. p ! 3 = 255) (chunks 4 px) then RGB24 else ARGB32) \<and>
     get_width obj' w' = Inr (int W) \<and> get_height obj' w' = Inr (int H) \<and>
     get_stride obj' w' = Inr (int (4 * W)) \<and>
     rbind (get_data obj' w') (\<lambda>v. view_read v w') = Inr px"
proof -
  define fmt where "fmt = (if list_all (\<lambda>p. p ! 3 = 255) (chunks 4 px) then RGB24 else ARGB32)"
  obtain pimg where p: "write_png (buffers w) (ns_image s) = Some (Inr pimg)" "png_well_formed pimg"
      "png_width pimg = W" "png_height pimg = H" "image_of_png pimg = (fmt, px)"
    using argb32_export [OF img size len pm] unfolding fmt_def by blast
  define w1 where "w1 = w\<lparr>files := (files w)(c_string (encode_filename p) \<mapsto> concat (png_pieces pimg))\<rparr>"
  have wr: "write_to_png obj (Path_target p) w = (Inr (), Path_target p, w1)"
    unfolding w1_def by (rule write_to_png_path_encoded [OF h s ok p(1) path])
  have rd: "read_png (make_read_func bytesio_read) (bytesio_new (concat (png_pieces pimg))) =
              (Inr pimg, \<lparr>bio_data = concat (png_pieces pimg), bio_pos = length (concat (png_pieces pimg))\<rparr>)"
    using read_png_bytesio [OF p(2), of "bytesio_new (concat (png_pieces pimg))" "[]"]
    by (simp add: bytesio_new_def)
  have cf: "create_from_png ImageSurface_cls (Path_source p) w1 =
              (Inr (next_id w1, loaded_world w1 ImageSurface_cls fmt W H px), Path_source p)"
    using create_from_png_path_decoded [OF _ rd p(5), where w = w1 and cls' = ImageSurface_cls and p = p] p(3,4)
    by (simp add: w1_def)
  note q = loaded_world_queries [OF len, where w = w1 and cls' = ImageSurface_cls and fmt = fmt]
  show ?thesis
    unfolding fmt_def [symmetric]
    by (rule exI [of _ w1], rule exI [of _ "next_id w1"],
        rule exI [of _ "loaded_world w1 ImageSurface_cls fmt W H px"],
        rule exI [of _ "\<lparr>cls = ImageSurface_cls, handle = PTR (next_ptr (native w1)), data_ref = None\<rparr>"])
       (simp only: wr cf q fst_conv pysurface.select_convs simp_thms)
qed

theorem png_path_roundtrip_witness:
  "handle \<lparr>cls = ImageSurface_cls, handle = PTR 0, data_ref = None\<rparr> = PTR 0 \<and>
   surfaces (native example_world) 0 = Some example_surface \<and>
   ns_status example_surface = SUCCESS \<and> \<not> ns_finished example_surface \<and>
   ns_image example_surface = \<lparr>img_format = ARGB32, img_width = int 1, img_height = int 1,
                               img_stride = int (4 * 1), img_pixels = Owned_data [0, 0, 0, 0]\<rparr> \<and>
   (0::nat) < 1 \<and> length [0, 0, 0, 0 :: byte] = 4 * 1 * 1 \<and>
   list_all premultiplied (chunks 4 [0, 0, 0, 0]) \<and> c_string (encode_filename (Path_bytes [97])) \<noteq> [] \<and>
   (\<exists>w1 oid w' obj'.
     write_to_png \<lparr>cls = ImageSurface_cls, handle = PTR 0, data_ref = None\<rparr>
       (Path_target (Path_bytes [97])) example_world = (Inr (), Path_target (Path_bytes [97]), w1) \<and>
     fst (create_from_png ImageSurface_cls (Path_source (Path_bytes [97])) w1) = Inr (oid, w') \<and>
     objects w' oid = Some obj' \<and> cls obj' = ImageSurface_cls \<and>
     get_format obj' w' = Inr ARGB32 \<and> get_width obj' w' = Inr 1 \<and> get_height obj' w' = Inr 1 \<and>
     get_stride obj' w' = Inr 4 \<and> rbind (get_data obj' w') (\<lambda>v. view_read v w') = Inr [0, 0, 0, 0])"
proof -
  have h: "ns_image example_surface = \<lparr>img_format = ARGB32, img_width = int 1, img_height = int 1,
                               img_stride = int (4 * 1), img_pixels = Owned_data [0, 0, 0, 0]\<rparr>"
    "length [0, 0, 0, 0 :: byte] = 4 * 1 * 1" "list_all premultiplied (chunks 4 [0, 0, 0, 0])"
    "c_string (encode_filename (Path_bytes [97])) \<noteq> []"
    by (simp_all add: example_surface_def new_image_surface_def premultiplied_def chunks_Cons_pos
                      c_string_def encode_filename_def)
  show ?thesis
    using png_path_roundtrip [OF example_export_ok h(1) _ _ _ _ h(2,3,4)] example_export_ok h
    by (simp add: chunks_Cons_pos)
qed

section \<open>Importing\<close>

text \<open>
  C18. \<open>create_from_png\<close> always yields an image surface: when it returns an object, the
  object has the class the method was called on and wraps a live native surface of
  type \<open>IMAGE\<close>, whatever the source.
\<close>

theorem create_from_png_class:
  assumes "fst (create_from_png cls' source w) = Inr (oid, w')"
  shows "\<exists>obj a s. objects w' oid = Some obj \<and> cls obj = cls' \<and> handle obj = PTR a \<and>
                   surfaces (native w') a = Some s \<and> ns_type s = IMAGE"
  using assms
  by (auto simp: create_from_png_def cairo_image_surface_create_from_png_stream_def
                 cairo_image_surface_create_from_png_def alloc_surface_def Surface_init_def
                 cairo_surface_status_def check_status_def set_class_def new_image_surface_def
                 read_png_not_success
           split: png_source.splits prod.splits sum.splits option.splits if_splits)

theorem create_from_png_class_witness:
  "fst (create_from_png ImageSurface_cls (File_reader bytesio_read (bytesio_new (concat (png_pieces
          \<lparr>png_width = 1, png_height = 1, png_color = PNG_RGB, png_rows = [[0, 0, 0]]\<rparr>)))) example_world) =
     Inr (next_id example_world, loaded_world example_world ImageSurface_cls RGB24 1 1 [0, 0, 0, 255]) \<and>
   (\<exists>obj a s. objects (loaded_world example_world ImageSurface_cls RGB24 1 1 [0, 0, 0, 255]) (next_id example_world)
                = Some obj \<and> cls obj = ImageSurface_cls \<and> handle obj = PTR a \<and>
              surfaces (native (loaded_world example_world ImageSurface_cls RGB24 1 1 [0, 0, 0, 255])) a = Some s \<and>
              ns_type s = IMAGE)"
proof -
  let ?img = "\<lparr>png_width = 1, png_height = 1, png_color = PNG_RGB, png_rows = [[0 :: byte, 0, 0]]\<rparr>"
  have wf: "png_well_formed ?img" by (simp add: png_well_formed_def)
  have rd: "read_png (make_read_func bytesio_read) (bytesio_new (concat (png_pieces ?img))) =
              (Inr ?img, (bytesio_new (concat (png_pieces ?img)))\<lparr>bio_pos := length (concat (png_pieces ?img))\<rparr>)"
    using read_png_bytesio [OF wf, of "bytesio_new (concat (png_pieces ?img))" "[]"] by (simp add: bytesio_new_def)
  have im: "image_of_png ?img = (RGB24, [0, 0, 0, 255])" by (simp add: image_of_png_def chunks_Cons_pos)
  have cf: "fst (create_from_png ImageSurface_cls (File_reader bytesio_read (bytesio_new (concat (png_pieces ?img))))
               example_world) =
            Inr (next_id example_world, loaded_world example_world ImageSurface_cls RGB24 1 1 [0, 0, 0, 255])"
    using create_from_png_stream_decoded [OF rd im, of ImageSurface_cls example_world] by simp
  show ?thesis using create_from_png_class [OF cf] cf by blast
qed

text \<open>
  C16. A stream that ends inside a well-formed datastream makes \<open>create_from_png\<close> raise
  \<open>CairoError(READ_ERROR)\<close>, wherever the datastream is cut; no object is created.
\<close>

theorem png_truncated_stream:
  assumes "png_well_formed img"
    and "drop (bio_pos b) (bio_data b) = take n (concat (png_pieces img))"
    and "n < length (concat (png_pieces img))"
  shows "\<exists>f'. create_from_png cls' (File_reader bytesio_read b) w =
                (Inl (CairoError READ_ERROR), File_reader bytesio_read f')"
proof -
  obtain b' where "read_png (make_read_func bytesio_read) b = (Inl READ_ERROR, b')"
    using read_png_prefix [OF assms] by blast
  then have "create_from_png cls' (File_reader bytesio_read b) w =
               (Inl (CairoError READ_ERROR), File_reader bytesio_read b')"
    by (rule create_from_png_stream_failed) simp
  then show ?thesis by blast
qed

theorem png_truncated_stream_witness:
  "png_well_formed \<lparr>png_width = 1, png_height = 1, png_color = PNG_RGB, png_rows = [[0, 0, 0]]\<rparr> \<and>
   drop (bio_pos (bytesio_new (take 20 (concat (png_pieces \<lparr>png_width = 1, png_height = 1, png_color = PNG_RGB, png_rows = [[0, 0, 0]]\<rparr>)))))
        (bio_data (bytesio_new (take 20 (concat (png_pieces \<lparr>png_width = 1, png_height = 1, png_color = PNG_RGB, png_rows = [[0, 0, 0]]\<rparr>)))))
     = take 20 (concat (png_pieces \<lparr>png_width = 1, png_height = 1, png_color = PNG_RGB, png_rows = [[0, 0, 0]]\<rparr>)) \<and>
   20 < length (concat (png_pieces \<lparr>png_width = 1, png_height = 1, png_color = PNG_RGB, png_rows = [[0, 0, 0]]\<rparr>)) \<and>
   (\<exists>f'. create_from_png ImageSurface_cls
           (File_reader bytesio_read (bytesio_new (take 20 (concat (png_pieces
              \<lparr>png_width = 1, png_height = 1, png_color = PNG_RGB, png_rows = [[0, 0, 0]]\<rparr>))))) example_world =
         (Inl (CairoError READ_ERROR), File_reader bytesio_read f'))"
proof -
  let ?img = "\<lparr>png_width = 1, png_height = 1, png_color = PNG_RGB, png_rows = [[0 :: byte, 0, 0]]\<rparr>"
  have h: "png_well_formed ?img"
    "drop (bio_pos (bytesio_new (take 20 (concat (png_pieces ?img))))) (bio_data (bytesio_new (take 20 (concat (png_pieces ?img)))))
       = take 20 (concat (png_pieces ?img))"
    "20 < length (concat (png_pieces ?img))"
    by (simp_all add: png_well_formed_def bytesio_new_def png_pieces_def png_signature_def png_iend_def png_header_def)
  show ?thesis using png_truncated_stream [OF h] h by blast
qed

text \<open>
  C24. The reader takes exactly the datastream from a stream: after an import the
  stream's position is just past the end marker, and bytes that follow are left unread.
\<close>

theorem create_from_png_stream_position:
  assumes "png_well_formed img" "drop (bio_pos b) (bio_data b) = concat (png_pieces img) @ rest"
  shows "snd (create_from_png cls' (File_reader bytesio_read b) w) =
           File_reader bytesio_read (b\<lparr>bio_pos := bio_pos b + length (concat (png_pieces img))\<rparr>)"
proof -
  obtain fmt data where "image_of_png img = (fmt, data)" by (cases "image_of_png img") blast
  then show ?thesis using create_from_png_stream_decoded [OF read_png_bytesio [OF assms]] by simp
qed

theorem create_from_png_stream_position_witness:
  "png_well_formed \<lparr>png_width = 1, png_height = 1, png_color = PNG_RGB, png_rows = [[0, 0, 0]]\<rparr> \<and>
   drop (bio_pos (bytesio_new (concat (png_pieces \<lparr>png_width = 1, png_height = 1, png_color = PNG_RGB, png_rows = [[0, 0, 0]]\<rparr>) @ [7])))
        (bio_data (bytesio_new (concat (png_pieces \<lparr>png_width = 1, png_height = 1, png_color = PNG_RGB, png_rows = [[0, 0, 0]]\<rparr>) @ [7])))
     = concat (png_pieces \<lparr>png_width = 1, png_height = 1, png_color = PNG_RGB, png_rows = [[0, 0, 0]]\<rparr>) @ [7] \<and>
   snd (create_from_png ImageSurface_cls
          (File_reader bytesio_read (bytesio_new (concat (png_pieces
             \<lparr>png_width = 1, png_height = 1, png_color = PNG_RGB, png_rows = [[0, 0, 0]]\<rparr>) @ [7]))) example_world) =
     File_reader bytesio_read \<lparr>bio_data = concat (png_pieces
             \<lparr>png_width = 1, png_height = 1, png_color = PNG_RGB, png_rows = [[0, 0, 0]]\<rparr>) @ [7], bio_pos = 25\<rparr>"
proof -
  let ?img = "\<lparr>png_width = 1, png_height = 1, png_color = PNG_RGB, png_rows = [[0 :: byte, 0, 0]]\<rparr>"
  let ?b = "bytesio_new (concat (png_pieces ?img) @ [7])"
  have h: "png_well_formed ?img" "drop (bio_pos ?b) (bio_data ?b) = concat (png_pieces ?img) @ [7]"
    by (simp_all add: png_well_formed_def bytesio_new_def)
  have "length (concat (png_pieces ?img)) = 25"
    by (simp add: png_pieces_def png_signature_def png_header_def png_iend_def)
  then show ?thesis
    using create_from_png_stream_position [OF h, of ImageSurface_cls example_world] h
    by (simp add: bytesio_new_def)
qed

section \<open>Exporting: errors\<close>

text \<open>
  C23. \<open>write_to_png\<close> on a surface in an error state or finished raises \<open>CairoError\<close> with
  that status (\<open>SURFACE_FINISHED\<close> for a finished one) and leaves the target and the
  file system as they were.
\<close>

theorem write_to_png_refused:
  assumes "handle obj = PTR a" "surfaces (native w) a = Some s" "ns_status s \<noteq> SUCCESS \<or> ns_finished s"
  shows "write_to_png obj target w =
           (Inl (CairoError (if ns_status s \<noteq> SUCCESS then ns_status s else SURFACE_FINISHED)), target, w)"
  using assms
  by (cases target)
     (auto simp: write_to_png_def cairo_surface_write_to_png_stream_def cairo_surface_write_to_png_def
                 png_export_check_def check_status_def Let_def)

theorem write_to_png_refused_witness:
  "handle \<lparr>cls = ImageSurface_cls, handle = PTR 0, data_ref = None\<rparr> = PTR 0 \<and>
   surfaces (native (example_world\<lparr>native := \<lparr>surfaces = [0 \<mapsto> example_surface\<lparr>ns_finished := True\<rparr>], next_ptr = 1\<rparr>\<rparr>)) 0
     = Some (example_surface\<lparr>ns_finished := True\<rparr>) \<and>
   ns_finished (example_surface\<lparr>ns_finished := True\<rparr>) \<and>
   write_to_png \<lparr>cls = ImageSurface_cls, handle = PTR 0, data_ref = None\<rparr> (Path_target (Path_bytes [97]))
     (example_world\<lparr>native := \<lparr>surfaces = [0 \<mapsto> example_surface\<lparr>ns_finished := True\<rparr>], next_ptr = 1\<rparr>\<rparr>) =
     (Inl (CairoError SURFACE_FINISHED), Path_target (Path_bytes [97]),
      example_world\<lparr>native := \<lparr>surfaces = [0 \<mapsto> example_surface\<lparr>ns_finished := True\<rparr>], next_ptr = 1\<rparr>\<rparr>)"
proof -
  let ?w = "example_world\<lparr>native := \<lparr>surfaces = [0 \<mapsto> example_surface\<lparr>ns_finished := True\<rparr>], next_ptr = 1\<rparr>\<rparr>"
  have h: "handle \<lparr>cls = ImageSurface_cls, handle = PTR 0, data_ref = None\<rparr> = PTR 0"
    "surfaces (native ?w) 0 = Some (example_surface\<lparr>ns_finished := True\<rparr>)"
    "ns_status (example_surface\<lparr>ns_finished := True\<rparr>) \<noteq> SUCCESS \<or> ns_finished (example_surface\<lparr>ns_finished := True\<rparr>)"
    by simp_all
  have "ns_status (example_surface\<lparr>ns_finished := True\<rparr>) = SUCCESS"
    by (simp add: example_surface_def new_image_surface_def)
  then show ?thesis
    using write_to_png_refused [OF h, of "Path_target (Path_bytes [97])"] h by simp
qed

text \<open>
  C17. A file object whose \<open>write\<close> raises (a full disk) makes \<open>write_to_png\<close> raise
  \<open>CairoError(WRITE_ERROR)\<close>: the exception is reported, not swallowed, and the file
  holds a prefix of the datastream.
\<close>

theorem write_to_png_full_sink:
  assumes "handle obj = PTR a" "surfaces (native w) a = Some s" "ns_status s = SUCCESS" "\<not> ns_finished s"
    and "write_png (buffers w) (ns_image s) = Some (Inr img)"
    and "k < length (concat (png_pieces img))"
  shows "\<exists>f m. write_to_png obj (File_writer (full_write k e) (bytesio_new [])) w =
                 (Inl (CairoError WRITE_ERROR), File_writer (full_write k e) f, w) \<and>
               bio_data f = take m (concat (png_pieces img)) \<and> length (bio_data f) \<le> k"
proof -
  obtain f where f: "write_chunks (make_write_func (full_write k e)) (png_pieces img) (bytesio_new []) =
        (if length (concat (png_pieces img)) \<le> k then SUCCESS else WRITE_ERROR, f)"
      "\<exists>m. bio_data f = take m (concat (png_pieces img))" "length (bio_data f) \<le> k"
    using write_chunks_full [of "bytesio_new []" k e "png_pieces img"] by (auto simp: bytesio_new_def)
  then show ?thesis
    using write_to_png_stream_encoded [OF assms(1-5), of "full_write k e" "bytesio_new []"] assms(6)
    by (simp add: check_status_def)
qed

theorem write_to_png_full_sink_witness:
  "handle \<lparr>cls = ImageSurface_cls, handle = PTR 0, data_ref = None\<rparr> = PTR 0 \<and>
   surfaces (native example_world) 0 = Some example_surface \<and>
   ns_status example_surface = SUCCESS \<and> \<not> ns_finished example_surface \<and>
   write_png (buffers example_world) (ns_image example_surface) =
     Some (Inr \<lparr>png_width = 1, png_height = 1, png_color = PNG_RGB_ALPHA, png_rows = [[0, 0, 0, 0]]\<rparr>) \<and>
   20 < length (concat (png_pieces \<lparr>png_width = 1, png_height = 1, png_color = PNG_RGB_ALPHA, png_rows = [[0, 0, 0, 0]]\<rparr>)) \<and>
   (\<exists>f m. write_to_png \<lparr>cls = ImageSurface_cls, handle = PTR 0, data_ref = None\<rparr>
             (File_writer (full_write 20 (ValueError ''disk full'')) (bytesio_new [])) example_world =
           (Inl (CairoError WRITE_ERROR), File_writer (full_write 20 (ValueError ''disk full'')) f, example_world) \<and>
         bio_data f = take m (concat (png_pieces \<lparr>png_width = 1, png_height = 1, png_color = PNG_RGB_ALPHA,
                                                   png_rows = [[0, 0, 0, 0]]\<rparr>)) \<and>
         length (bio_data f) \<le> 20)"
proof -
  let ?img = "\<lparr>png_width = 1, png_height = 1, png_color = PNG_RGB_ALPHA, png_rows = [[0 :: byte, 0, 0, 0]]\<rparr>"
  have l: "20 < length (concat (png_pieces ?img))"
    by (simp add: png_pieces_def png_signature_def png_header_def png_iend_def)
  show ?thesis
    using write_to_png_full_sink [OF example_export_ok example_write_png l, of "ValueError ''disk full''"]
          example_export_ok example_write_png l by simp
qed

text \<open>
  C15. A short write goes unreported: a raw file object whose \<open>write\<close> stores only the first
  \<open>k\<close> bytes and returns their count makes \<open>write_to_png\<close> succeed, although the file
  holds a strict prefix of the datastream.
\<close>

theorem png_short_write_unreported:
  assumes "handle obj = PTR a" "surfaces (native w) a = Some s" "ns_status s = SUCCESS" "\<not> ns_finished s"
    and "write_png (buffers w) (ns_image s) = Some (Inr img)"
    and "k < length (concat (png_pieces img))"
  shows "write_to_png obj (File_writer (short_write k) (bytesio_new [])) w =
           (Inr (), File_writer (short_write k) \<lparr>bio_data = take k (concat (png_pieces img)), bio_pos = k\<rparr>, w)"
  using write_to_png_stream_encoded [OF assms(1-5), of "short_write k" "bytesio_new []"] write_chunks_short [of "bytesio_new []" k "png_pieces img"] assms(6)
  by (simp add: bytesio_new_def)

theorem png_short_write_unreported_witness:
  "handle \<lparr>cls = ImageSurface_cls, handle = PTR 0, data_ref = None\<rparr> = PTR 0 \<and>
   surfaces (native example_world) 0 = Some example_surface \<and>
   ns_status example_surface = SUCCESS \<and> \<not> ns_finished example_surface \<and>
   write_png (buffers example_world) (ns_image example_surface) =
     Some (Inr \<lparr>png_width = 1, png_height = 1, png_color = PNG_RGB_ALPHA, png_rows = [[0, 0, 0, 0]]\<rparr>) \<and>
   8 < length (concat (png_pieces \<lparr>png_width = 1, png_height = 1, png_color = PNG_RGB_ALPHA, png_rows = [[0, 0, 0, 0]]\<rparr>)) \<and>
   write_to_png \<lparr>cls = ImageSurface_cls, handle = PTR 0, data_ref = None\<rparr>
       (File_writer (short_write 8) (bytesio_new [])) example_world =
     (Inr (), File_writer (short_write 8) \<lparr>bio_data = png_signature, bio_pos = 8\<rparr>, example_world)"
proof -
  let ?img = "\<lparr>png_width = 1, png_height = 1, png_color = PNG_RGB_ALPHA, png_rows = [[0 :: byte, 0, 0, 0]]\<rparr>"
  have l: "8 < length (concat (png_pieces ?img))" "take 8 (concat (png_pieces ?img)) = png_signature"
    by (simp_all add: png_pieces_def png_signature_def png_header_def png_iend_def)
  show ?thesis
    using png_short_write_unreported [OF example_export_ok example_write_png l(1)] example_export_ok
          example_write_png l by simp
qed

text \<open>
  C26. A file name with an embedded NUL byte is not refused: \<open>_encode_filename\<close> copies
  it into a \<open>char[]\<close> and cairo opens the name up to the first NUL. For every name
  \<open>pre + b'\\x00' + post\<close> with a non-empty prefix free of NUL bytes, exporting a surface
  cairo can write succeeds and creates or overwrites the file \<open>pre\<close>, not the file the
  caller named.
\<close>

lemma c_string_embedded_nul:
  assumes "0 \<notin> set pre"
  shows "c_string (encode_filename (Path_bytes (pre @ 0 # post))) = pre"
proof -
  have "\<forall>x \<in> set pre. x \<noteq> 0" using assms by auto
  then show ?thesis by (simp add: c_string_def encode_filename_def takeWhile_append2)
qed

theorem png_path_embedded_nul:
  assumes "handle obj = PTR a" "surfaces (native w) a = Some s" "ns_status s = SUCCESS"
    "\<not> ns_finished s" "write_png (buffers w) (ns_image s) = Some (Inr img)"
    and pre: "pre \<noteq> []" "0 \<notin> set pre"
  shows "write_to_png obj (Path_target (Path_bytes (pre @ 0 # post))) w =
           (Inr (), Path_target (Path_bytes (pre @ 0 # post)),
            w\<lparr>files := (files w)(pre \<mapsto> concat (png_pieces img))\<rparr>)"
  using write_to_png_path_encoded [OF assms(1-5), of "Path_bytes (pre @ 0 # post)"]
  by (simp add: c_string_embedded_nul [OF pre(2)] pre(1))

theorem png_path_embedded_nul_witness:
  "write_to_png \<lparr>cls = ImageSurface_cls, handle = PTR 0, data_ref = None\<rparr>
          (Path_target (Path_bytes ([97] @ 0 # [98]))) example_world =
        (Inr (), Path_target (Path_bytes ([97] @ 0 # [98])),
         example_world\<lparr>files := (files example_world)([97] \<mapsto>
           concat (png_pieces \<lparr>png_width = 1, png_height = 1, png_color = PNG_RGB_ALPHA,
                                png_rows = [[0, 0, 0, 0]]\<rparr>))\<rparr>)"
  by (rule png_path_embedded_nul [OF example_export_ok example_write_png]) simp_all

end
