(* ===== verification/Cairo_Program.thy ===== *)
theory Cairo_Program
  imports Cairo_World Cairo_Png
begin

text \<open>
  A Python program that uses the whole binding: the events of \<open>Cairo_World\<close> (constructors,
  method calls, reclamation) together with \<open>obj.write_to_png(target)\<close> and
  \<open>ImageSurface.create_from_png(source)\<close> on \<open>io.BytesIO\<close> objects or file names. An
  export can change the file system even when it raises, so a step returns the outcome
  and the new world. The theory shows that the lifetime invariant holds in every state
  such a program reaches, that an export is the only event that can reach undefined
  native behaviour, and that one does: a surface bound bottom-up to a short buffer.
\<close>

section \<open>Programs\<close>

datatype program_event =
    Api api_call
  | Export nat "bytesio png_target"
  | Import "bytesio png_source"

fun program_step :: "program_event \<Rightarrow> world \<Rightarrow> pyval result \<times> world" where
  "program_step (Api c) w =
     (case api_step c w of Inl e \<Rightarrow> (Inl e, w) | Inr (v, w') \<Rightarrow> (Inr v, w'))"
| "program_step (Export oid target) w =
     (case objects w oid of
        None \<Rightarrow> (Inr V_none, w)
      | Some obj \<Rightarrow> (case write_to_png obj target w of (r, _, w') \<Rightarrow> (rbind r (\<lambda>_. Inr V_none), w')))"
| "program_step (Import source) w =
     (case fst (create_from_png ImageSurface_cls source w) of
        Inl e \<Rightarrow> (Inl e, w)
      | Inr (oid, w') \<Rightarrow> (Inr (V_obj oid), w'))"

inductive program_reachable :: "world \<Rightarrow> bool" where
  init: "program_reachable init_world"
| step: "program_reachable w \<Longrightarrow> program_step e w = (r, w') \<Longrightarrow> program_reachable w'"

text \<open>
  A run that binds a four-byte buffer as an \<open>A8\<close> surface of 4 by 2 pixels with stride
  \<open>-4\<close>: the worlds after \<open>bytearray(4)\<close> and after \<open>ImageSurface.create_for_data\<close>.
\<close>

definition bottom_up_buffer_world :: world where
  "bottom_up_buffer_world =
     init_world\<lparr>buffers := [0 \<mapsto> \<lparr>buf_bytes = replicate 4 0, buf_writable = True\<rparr>], next_id := 1\<rparr>"

definition bottom_up_world :: world where
  "bottom_up_world =
     bottom_up_buffer_world\<lparr>native := \<lparr>surfaces = [0 \<mapsto> new_image_surface A8 4 2 (-4) (Borrowed_data 0)],
                                         next_ptr = 1\<rparr>,
       objects := [1 \<mapsto> \<lparr>cls = ImageSurface_cls, handle = PTR 0, data_ref = Some 0\<rparr>], next_id := 2\<rparr>"

section \<open>Lemmas\<close>

lemma wf_world_files [simp]: "wf_world (w\<lparr>files := fs\<rparr>) = wf_world w"
proof
  assume a: "wf_world (w\<lparr>files := fs\<rparr>)"
  then have i: "instances w = {}" by (simp add: wf_world_def ids_ok_def)
  show "wf_world w" by (rule wf_world_frame [OF a]) (simp_all add: i)
next
  assume a: "wf_world w"
  then have i: "instances w = {}" by (simp add: wf_world_def ids_ok_def)
  show "wf_world (w\<lparr>files := fs\<rparr>)" by (rule wf_world_frame [OF a]) (simp_all add: i)
qed

lemma write_to_png_world:
  "write_to_png obj target w = (r, target', w') \<Longrightarrow> \<exists>fs. w' = w\<lparr>files := fs\<rparr>"
  by (auto simp: write_to_png_def split: png_target.splits option.splits prod.splits
           intro: exI [of _ "files w"])

lemma wf_write_to_png:
  "wf_world w \<Longrightarrow> write_to_png obj target w = (r, target', w') \<Longrightarrow> wf_world w'"
  by (auto dest: write_to_png_world)

lemma wf_create_from_png:
  assumes wf: "wf_world w" and ok: "fst (create_from_png ImageSurface_cls source w) = Inr (oid, w')"
  shows "wf_world w'"
proof -
  obtain img fmt data where i: "png_well_formed img" "image_of_png img = (fmt, data)"
      and w': "w' = loaded_world w ImageSurface_cls fmt (png_width img) (png_height img) data"
    using create_from_png_Inr [OF ok] by blast
  let ?s = "new_image_surface fmt (int (png_width img)) (int (png_height img)) (int (4 * png_width img))
              (Owned_data data)"
  have "length data = 4 * png_width img * png_height img"
    using length_image_of_png [OF i(1)] i(2) by simp
  moreover have "rows_fit (ns_image ?s)"
  proof -
    have "(32 * int (png_width img) + 7) div 8 \<le> 4 * int (png_width img)" by presburger
    then show ?thesis using format_image_of_png [of img] i(2)
      by (auto simp: rows_fit_def row_bytes_def new_image_surface_def)
  qed
  ultimately have "pixels_ok w (ns_image ?s)"
    by (simp add: pixels_ok_def view_size_def new_image_surface_def nat_mult_distrib flip: of_nat_mult)
  moreover have "ImageSurface_cls = class_of_type (ns_type ?s)"
    by (simp add: new_image_surface_def class_of_type_def SURFACE_TYPE_TO_CLASS_def)
  ultimately show ?thesis
    using wf_add_wrapped [OF wf refl, of ?s None] w' by (simp add: new_image_surface_def)
qed

lemma write_to_png_fault:
  assumes "handle obj = PTR a" "surfaces (native w) a = Some s"
    and "fst (write_to_png obj target w) = Inl Native_fault"
  shows "surface_rows (buffers w) (ns_image s) = None \<and> \<not> ns_finished s \<and>
         img_width (ns_image s) \<noteq> 0 \<and> img_height (ns_image s) \<noteq> 0"
  using assms
  by (cases target)
     (auto simp: write_to_png_def cairo_surface_write_to_png_stream_def cairo_surface_write_to_png_def
                 png_export_check_def write_png_def check_status_def Let_def
           split: option.splits sum.splits prod.splits if_splits)

text \<open>
  The rows of an image whose pixels are in place and whose stride is not negative all
  lie in its memory: row \<open>r\<close> ends at \<open>r * stride + row_bytes \<le> (r + 1) * stride\<close>,
  at most \<open>height * stride\<close>, the size the invariant guarantees.
\<close>

lemma row_length_row_bytes:
  "0 \<le> img_width i \<Longrightarrow> int (row_length (img_format i) (nat (img_width i))) = row_bytes i"
  by (simp add: row_length_def row_bytes_def zdiv_int)

lemma surface_rows_in_place:
  assumes ok: "pixels_ok w i" and px: "img_pixels i \<noteq> No_data" and S: "0 \<le> img_stride i"
  shows "surface_rows (buffers w) i \<noteq> None"
proof -
  let ?S = "img_stride i" and ?H = "img_height i"
  let ?rl = "row_length (img_format i) (nat (img_width i))"
  obtain d where d: "(case img_pixels i of Owned_data px \<Rightarrow> Some px
                      | Borrowed_data b \<Rightarrow> map_option buf_bytes (buffers w b) | No_data \<Rightarrow> None) = Some d"
      and len: "view_size i \<le> length d"
    using ok px by (auto simp: pixels_ok_def split: pixels.splits)
  have rl: "?H \<noteq> 0 \<Longrightarrow> int ?rl \<le> ?S"
    using ok S by (simp add: pixels_ok_def rows_fit_def row_length_row_bytes)
  have "list_all (\<lambda>r. 0 \<le> int r * ?S \<and> int r * ?S + int ?rl \<le> int (length d)) [0..<nat ?H]"
    unfolding list_all_iff
  proof
    fix r assume "r \<in> set [0..<nat ?H]"
    then have r: "int r + 1 \<le> ?H" by simp
    then have "(int r + 1) * ?S \<le> ?H * ?S" using S by (rule mult_right_mono)
    moreover have "?H * ?S \<le> int (length d)"
      using len r S by (simp add: view_size_def mult.commute split: if_splits)
    moreover have "int ?rl \<le> ?S" using rl r by simp
    ultimately show "0 \<le> int r * ?S \<and> int r * ?S + int ?rl \<le> int (length d)"
      using S by (simp add: distrib_right)
  qed
  then show ?thesis by (simp add: surface_rows_def Let_def d)
qed

text \<open>A negative stride puts the second row before the data pointer.\<close>

lemma surface_rows_negative_stride:
  assumes "img_stride i < 0" "2 \<le> img_height i"
  shows "surface_rows bufs i = None"
proof -
  have "1 \<in> set [0..<nat (img_height i)]" using assms(2) by simp
  moreover have "\<not> 0 \<le> int 1 * img_stride i" using assms(1) by simp
  ultimately have "\<not> list_all (\<lambda>r. 0 \<le> int r * img_stride i \<and> P r) [0..<nat (img_height i)]" for P
    unfolding list_all_iff by blast
  then show ?thesis by (simp add: surface_rows_def Let_def split: option.split)
qed

subsection \<open>The bottom-up run\<close>

lemma bottom_up_api_steps:
  "api_step (New_buffer (replicate 4 0) True) init_world = Inr (V_obj 0, bottom_up_buffer_world)"
  "api_step (New_for_data 0 A8 4 2 (Some (-4))) bottom_up_buffer_world = Inr (V_obj 1, bottom_up_world)"
  by (simp_all add: bottom_up_buffer_world_def bottom_up_world_def init_world_def obj_call_def rbind_def
                    create_for_data_def ImageSurface_init_def stride_A8_4 from_buffer_def
                    cairo_image_surface_create_for_data_def image_size_valid_def format_valid_def
                    Surface_init_def cairo_surface_status_def alloc_surface_def new_image_surface_def
                    native_call_def check_status_def c_int_def)

lemma bottom_up_steps:
  "program_step (Api (New_buffer (replicate 4 0) True)) init_world = (Inr (V_obj 0), bottom_up_buffer_world)"
  "program_step (Api (New_for_data 0 A8 4 2 (Some (-4)))) bottom_up_buffer_world = (Inr (V_obj 1), bottom_up_world)"
  by (simp_all only: program_step.simps bottom_up_api_steps sum.case prod.case)

lemma bottom_up_reachable: "program_reachable bottom_up_world"
  by (rule program_reachable.step [OF program_reachable.step [OF program_reachable.init bottom_up_steps(1)]
                                      bottom_up_steps(2)])

lemma bottom_up_wf: "wf_world bottom_up_world"
  using wf_api_step [OF wf_api_step [OF wf_init bottom_up_api_steps(1)] bottom_up_api_steps(2)] .

lemma bottom_up_write_png:
  "write_png (buffers bottom_up_world) (ns_image (new_image_surface A8 4 2 (-4) (Borrowed_data 0))) = None"
  by (simp add: write_png_def surface_rows_def new_image_surface_def Let_def upt_rec
                bottom_up_world_def bottom_up_buffer_world_def)

lemma bottom_up_export_fault:
  "fst (program_step (Export 1 (File_writer wr f)) bottom_up_world) = Inl Native_fault"
  "c_string (encode_filename p) \<noteq> [] \<Longrightarrow>
   fst (program_step (Export 1 (Path_target p)) bottom_up_world) = Inl Native_fault"
  using bottom_up_write_png
  by (simp_all add: bottom_up_world_def write_to_png_def cairo_surface_write_to_png_stream_def
                    cairo_surface_write_to_png_def png_export_check_def new_image_surface_def rbind_def Let_def)

section \<open>Properties\<close>

text \<open>
  C8. The lifetime invariant holds in every state a program reaches with the whole API,
  PNG export and import from streams and file names included: an import adds one
  surface with its wrapper, an export changes only the file system.
\<close>

theorem program_reachable_wf: "program_reachable w \<Longrightarrow> wf_world w"
proof (induction rule: program_reachable.induct)
  case init
  then show ?case by (rule wf_init)
next
  case (step w e r w')
  show ?case
  proof (cases e)
    case (Api c)
    then show ?thesis using step wf_api_step [OF step.IH]
      by (auto split: sum.splits prod.splits)
  next
    case (Export oid target)
    then show ?thesis using step wf_write_to_png [OF step.IH]
      by (auto split: option.splits prod.splits)
  next
    case (Import source)
    then show ?thesis using step wf_create_from_png [OF step.IH]
      by (auto split: sum.splits prod.splits)
  qed
qed

theorem program_reachable_wf_witness:
  "program_reachable bottom_up_world \<and> wf_world bottom_up_world"
  using program_reachable_wf [OF bottom_up_reachable] bottom_up_reachable by blast

text \<open>
  C9. In a state satisfying the invariant, the only event that can reach undefined native
  behaviour is \<open>write_to_png\<close>, and only on a surface whose rows do not all lie in the
  memory its data pointer designates, which requires a negative stride: every
  constructor, method, reclamation and \<open>create_from_png\<close> either returns or raises a
  Python exception, and an export of a surface with a non-negative stride reads only
  the memory the surface owns or borrows.
\<close>

theorem program_fault_only_export:
  assumes wf: "wf_world w" and f: "fst (program_step e w) = Inl Native_fault"
  shows "\<exists>oid target obj a s. e = Export oid target \<and> objects w oid = Some obj \<and> handle obj = PTR a \<and>
           surfaces (native w) a = Some s \<and> surface_rows (buffers w) (ns_image s) = None \<and>
           img_stride (ns_image s) < 0"
proof (cases e)
  case (Api c)
  then have "api_step c w = Inl Native_fault" using f by (auto split: sum.splits prod.splits)
  then show ?thesis using api_step_safe [OF wf] by blast
next
  case (Import source)
  then have "fst (create_from_png ImageSurface_cls source w) = Inl Native_fault"
    using f by (auto split: sum.splits prod.splits)
  then show ?thesis using create_from_png_no_fault by blast
next
  case (Export oid target)
  show ?thesis
  proof (cases "objects w oid")
    case None
    then show ?thesis using f Export by simp
  next
    case (Some obj)
    obtain a s where h: "handle obj = PTR a" "surfaces (native w) a = Some s"
      using wf_surface_of [OF wf Some] by metis
    obtain r t' w' where wr: "write_to_png obj target w = (r, t', w')" by (cases "write_to_png obj target w") blast
    have "r = Inl Native_fault" using f Export Some wr by (cases r) (simp_all add: rbind_def)
    then have rows: "surface_rows (buffers w) (ns_image s) = None" and fin: "\<not> ns_finished s"
      and dims: "img_width (ns_image s) \<noteq> 0" "img_height (ns_image s) \<noteq> 0"
      using write_to_png_fault [OF h, of target] wr by simp_all
    have "img_pixels (ns_image s) = No_data \<longrightarrow>
         ns_finished s \<or> img_width (ns_image s) = 0 \<or> img_height (ns_image s) = 0"
      using wf h(2) by (simp add: wf_world_def surfaces_owned_def)
    then have "img_pixels (ns_image s) \<noteq> No_data" using fin dims by blast
    moreover have "pixels_ok w (ns_image s)"
      using wf h(2) by (simp add: wf_world_def surfaces_owned_def)
    ultimately have "img_stride (ns_image s) < 0"
      using surface_rows_in_place [of w "ns_image s"] rows by (metis not_le)
    then show ?thesis using Export Some h rows by blast
  qed
qed

theorem program_fault_only_export_witness:
  "wf_world bottom_up_world \<and>
   fst (program_step (Export 1 (Path_target (Path_bytes [97]))) bottom_up_world) = Inl Native_fault \<and>
   (\<exists>oid target obj a s. Export 1 (Path_target (Path_bytes [97])) = Export oid target \<and>
      objects bottom_up_world oid = Some obj \<and> handle obj = PTR a \<and>
      surfaces (native bottom_up_world) a = Some s \<and> surface_rows (buffers bottom_up_world) (ns_image s) = None \<and>
      img_stride (ns_image s) < 0)"
proof -
  have f: "fst (program_step (Export 1 (Path_target (Path_bytes [97]))) bottom_up_world) = Inl Native_fault"
    by (rule bottom_up_export_fault(2)) (simp add: c_string_def encode_filename_def)
  show ?thesis using program_fault_only_export [OF bottom_up_wf f] bottom_up_wf f by blast
qed

text \<open>
  C10. Conversely, exporting a live surface that is not in error and not finished,
  and whose stride is negative with at least one column and two rows, is undefined
  behaviour, in any state: into a stream, and into any file name cairo can open.
  \<open>write_png\<close> reads the second row at \<open>data + stride\<close>, before the memory the
  data pointer designates. Such a surface is reachable through the public API: after
  \<open>bytearray(4)\<close> and \<open>ImageSurface.create_for_data(buf, FORMAT_A8, 4, 2, -4)\<close>,
  both accepted.
\<close>

theorem export_negative_stride_fault:
  assumes o: "objects w oid = Some obj" "handle obj = PTR a" "surfaces (native w) a = Some s"
    and ok: "ns_status s = SUCCESS" "\<not> ns_finished s"
    and neg: "img_stride (ns_image s) < 0" "2 \<le> img_height (ns_image s)" "0 < img_width (ns_image s)"
  shows "fst (program_step (Export oid (File_writer wr f)) w) = Inl Native_fault \<and>
         (c_string (encode_filename p) \<noteq> [] \<longrightarrow>
            fst (program_step (Export oid (Path_target p)) w) = Inl Native_fault)"
proof -
  have "write_png (buffers w) (ns_image s) = None"
    using surface_rows_negative_stride [OF neg(1,2)] neg(2,3) by (simp add: write_png_def)
  moreover have "png_export_check (PTR a) (native w) = Some (Inr s)"
    using o(3) ok by (simp add: png_export_check_def query_def)
  ultimately show ?thesis
    using o(1,2) by (simp add: write_to_png_def cairo_surface_write_to_png_stream_def
                               cairo_surface_write_to_png_def rbind_def Let_def)
qed

theorem export_negative_stride_fault_witness:
  "program_reachable bottom_up_world \<and>
   fst (program_step (Export 1 (File_writer bytesio_write (bytesio_new []))) bottom_up_world) =
     Inl Native_fault \<and>
   c_string (encode_filename (Path_bytes [97])) \<noteq> [] \<and>
   fst (program_step (Export 1 (Path_target (Path_bytes [97]))) bottom_up_world) = Inl Native_fault"
proof -
  let ?s = "new_image_surface A8 4 2 (-4) (Borrowed_data 0)"
  have o: "objects bottom_up_world 1 = Some \<lparr>cls = ImageSurface_cls, handle = PTR 0, data_ref = Some 0\<rparr>"
    "handle \<lparr>cls = ImageSurface_cls, handle = PTR 0, data_ref = Some 0\<rparr> = PTR 0"
    "surfaces (native bottom_up_world) 0 = Some ?s"
    by (simp_all add: bottom_up_world_def)
  have s: "ns_status ?s = SUCCESS" "\<not> ns_finished ?s" "img_stride (ns_image ?s) < 0"
    "2 \<le> img_height (ns_image ?s)" "0 < img_width (ns_image ?s)"
    by (simp_all add: new_image_surface_def)
  have p: "c_string (encode_filename (Path_bytes [97])) \<noteq> []"
    by (simp add: c_string_def encode_filename_def)
  show ?thesis
    using export_negative_stride_fault [OF o s, of bytesio_write "bytesio_new []" "Path_bytes [97]"]
          bottom_up_reachable p by blast
qed

end
