(* ===== verification/Cairo_Collector.thy ===== *)
theory Cairo_Collector
  imports Cairo_Program
begin

text \<open>
  A full collection from a root set: the host's collector reclaims every wrapper the
  program no longer refers to, then every buffer nothing refers to any more, until
  neither is left. Reclaiming a wrapper runs its \<open>ffi.gc\<close> destructor
  (\<open>gc_collect\<close>); reclaiming a buffer is the \<open>Collect_buffer\<close> event.
\<close>

abbreviation sweep_object :: "nat list \<Rightarrow> world \<Rightarrow> nat option" where
  "sweep_object roots w \<equiv> find (\<lambda>i. i \<notin> set roots \<and> objects w i \<noteq> None) [0..<next_id w]"

abbreviation sweep_buffer :: "nat list \<Rightarrow> world \<Rightarrow> nat option" where
  "sweep_buffer roots w \<equiv>
     find (\<lambda>b. b \<notin> set roots \<and> buffers w b \<noteq> None \<and> \<not> buffer_referenced w b) [0..<next_id w]"

definition live_ids :: "world \<Rightarrow> nat" where
  "live_ids w = card {i. i < next_id w \<and> objects w i \<noteq> None} + card {b. b < next_id w \<and> buffers w b \<noteq> None}"

text \<open>
  What a full collection keeps: the root wrappers, the surfaces they own, and the
  buffers that are roots or that a root wrapper borrows.
\<close>

definition root_handle :: "nat list \<Rightarrow> world \<Rightarrow> nat \<Rightarrow> bool" where
  "root_handle roots w a \<longleftrightarrow>
     (\<exists>oid obj. oid \<in> set roots \<and> objects w oid = Some obj \<and> handle obj = PTR a)"

definition root_buffer :: "nat list \<Rightarrow> world \<Rightarrow> nat \<Rightarrow> bool" where
  "root_buffer roots w b \<longleftrightarrow>
     b \<in> set roots \<or> (\<exists>oid obj. oid \<in> set roots \<and> objects w oid = Some obj \<and> data_ref obj = Some b)"

definition swept :: "nat list \<Rightarrow> world \<Rightarrow> world \<Rightarrow> bool" where
  "swept roots w w' \<longleftrightarrow>
     objects w' = objects w |` set roots \<and>
     (\<forall>a. surfaces (native w') a \<noteq> None \<longleftrightarrow> root_handle roots w a) \<and>
     (\<forall>b. buffers w' b \<noteq> None \<longleftrightarrow> buffers w b \<noteq> None \<and> root_buffer roots w b)"

text \<open>
  The sweep: a wrapper outside the roots first, the lowest identity first; when none is
  left, a buffer outside the roots that nothing refers to; when neither is left, done.
\<close>

function gc_sweep :: "nat list \<Rightarrow> world \<Rightarrow> world result" where
  "gc_sweep roots w =
     (case sweep_object roots w of
        Some oid \<Rightarrow> (case gc_collect oid w of Inl e \<Rightarrow> Inl e | Inr w' \<Rightarrow> gc_sweep roots w')
      | None \<Rightarrow>
          (case sweep_buffer roots w of
             Some b \<Rightarrow> (case api_step (Collect_buffer b) w of
                          Inl e \<Rightarrow> Inl e
                        | Inr (_, w') \<Rightarrow> gc_sweep roots w')
           | None \<Rightarrow> Inr w))"
  by pat_completeness auto

section \<open>Termination of the sweep\<close>

text \<open>
  Each round removes one wrapper or one buffer whose identity is below \<open>next_id\<close>,
  which neither reclamation changes.
\<close>

lemma gc_collect_frame:
  "gc_collect oid w = Inr w' \<Longrightarrow>
   objects w' = (objects w)(oid := None) \<and> buffers w' = buffers w \<and> next_id w' = next_id w"
  by (auto simp: gc_collect_def native_with_callbacks_def rbind_def
           split: option.splits prod.splits sum.splits)

lemma live_ids_remove_object:
  assumes "oid < next_id w" "objects w oid \<noteq> None"
  shows "live_ids (w\<lparr>objects := (objects w)(oid := None)\<rparr>) < live_ids w"
proof -
  have "{i. i < next_id w \<and> ((objects w)(oid := None)) i \<noteq> None} =
        {i. i < next_id w \<and> objects w i \<noteq> None} - {oid}" by auto
  moreover have "card ({i. i < next_id w \<and> objects w i \<noteq> None} - {oid}) <
                 card {i. i < next_id w \<and> objects w i \<noteq> None}"
    using assms by (intro card_Diff1_less) auto
  ultimately show ?thesis by (simp add: live_ids_def)
qed

lemma live_ids_remove_buffer:
  assumes "b < next_id w" "buffers w b \<noteq> None"
  shows "live_ids (w\<lparr>buffers := (buffers w)(b := None)\<rparr>) < live_ids w"
proof -
  have "{i. i < next_id w \<and> ((buffers w)(b := None)) i \<noteq> None} =
        {i. i < next_id w \<and> buffers w i \<noteq> None} - {b}" by auto
  moreover have "card ({i. i < next_id w \<and> buffers w i \<noteq> None} - {b}) <
                 card {i. i < next_id w \<and> buffers w i \<noteq> None}"
    using assms by (intro card_Diff1_less) auto
  ultimately show ?thesis by (simp add: live_ids_def)
qed

lemma live_ids_gc_collect:
  assumes "sweep_object roots w = Some oid" "gc_collect oid w = Inr w'"
  shows "live_ids w' < live_ids w"
proof -
  have "oid < next_id w" "objects w oid \<noteq> None"
    using assms(1) by (auto simp: find_Some_iff)
  then have "live_ids (w\<lparr>objects := (objects w)(oid := None)\<rparr>) < live_ids w"
    by (rule live_ids_remove_object)
  moreover have "live_ids w' = live_ids (w\<lparr>objects := (objects w)(oid := None)\<rparr>)"
    using gc_collect_frame [OF assms(2)] by (simp add: live_ids_def)
  ultimately show ?thesis by simp
qed

lemma live_ids_collect_buffer:
  assumes "sweep_buffer roots w = Some b" "api_step (Collect_buffer b) w = Inr r" "(v, w') = r"
  shows "live_ids w' < live_ids w"
proof -
  have b: "b < next_id w" "buffers w b \<noteq> None" "\<not> buffer_referenced w b"
    using assms(1) by (auto simp: find_Some_iff)
  then have "w' = w\<lparr>buffers := (buffers w)(b := None)\<rparr>" using assms(2,3) by auto
  with live_ids_remove_buffer [OF b(1,2)] show ?thesis by simp
qed


termination gc_sweep
  by (relation "measure (\<lambda>(roots, w). live_ids w)")
     (simp_all del: api_step.simps add: live_ids_gc_collect live_ids_collect_buffer)


declare gc_sweep.simps [simp del]

text \<open>The three rounds of the sweep, each unfolded once.\<close>

lemma gc_sweep_object:
  "sweep_object roots w = Some oid \<Longrightarrow>
   gc_sweep roots w = (case gc_collect oid w of Inl e \<Rightarrow> Inl e | Inr w' \<Rightarrow> gc_sweep roots w')"
  by (subst gc_sweep.simps) simp

lemma gc_sweep_buffer:
  "sweep_object roots w = None \<Longrightarrow> sweep_buffer roots w = Some b \<Longrightarrow>
   gc_sweep roots w = (case api_step (Collect_buffer b) w of Inl e \<Rightarrow> Inl e | Inr (_, w') \<Rightarrow> gc_sweep roots w')"
  by (subst gc_sweep.simps) simp

lemma gc_sweep_done:
  "sweep_object roots w = None \<Longrightarrow> sweep_buffer roots w = None \<Longrightarrow> gc_sweep roots w = Inr w"
  by (subst gc_sweep.simps) simp

section \<open>What a sweep keeps\<close>

lemma swept_cong:
  assumes "objects w1 |` set roots = objects w |` set roots" "buffers w1 = buffers w"
  shows "swept roots w1 w' = swept roots w w'"
proof -
  have "\<And>oid. oid \<in> set roots \<Longrightarrow> objects w1 oid = objects w oid"
    using assms(1) by (metis restrict_in)
  then have "root_handle roots w1 = root_handle roots w" "root_buffer roots w1 = root_buffer roots w"
    by (auto simp: root_handle_def root_buffer_def fun_eq_iff)
  then show ?thesis using assms by (simp add: swept_def)
qed

lemma sweep_done:
  assumes wf: "wf_world w" and o: "sweep_object roots w = None" and b: "sweep_buffer roots w = None"
  shows "swept roots w w"
proof -
  have objs: "\<And>i. objects w i \<noteq> None \<Longrightarrow> i \<in> set roots"
  proof -
    fix i assume "objects w i \<noteq> None"
    moreover then have "i < next_id w" using wf by (auto simp: wf_world_def objs_ok_def)
    ultimately show "i \<in> set roots" using o by (auto simp: find_None_iff)
  qed
  then have restr: "objects w |` set roots = objects w"
    by (auto simp: restrict_map_def fun_eq_iff) (metis not_None_eq)
  have "surfaces (native w) a \<noteq> None \<longleftrightarrow> root_handle roots w a" for a
  proof
    assume "surfaces (native w) a \<noteq> None"
    then obtain oid obj where "objects w oid = Some obj" "handle obj = PTR a"
      using wf unfolding wf_world_def surfaces_owned_def by blast
    with objs show "root_handle roots w a" by (auto simp: root_handle_def)
  next
    assume "root_handle roots w a"
    then obtain oid obj where "objects w oid = Some obj" "handle obj = PTR a"
      by (auto simp: root_handle_def)
    then show "surfaces (native w) a \<noteq> None" using wf_surface_of [OF wf] by fastforce
  qed
  moreover have "buffers w b \<noteq> None \<longleftrightarrow> buffers w b \<noteq> None \<and> root_buffer roots w b" for b
  proof -
    have "root_buffer roots w b" if bw: "buffers w b \<noteq> None"
    proof -
      have "b < next_id w" using wf bw by (auto simp: wf_world_def ids_ok_def)
      then have "b \<in> set roots \<or> buffer_referenced w b"
        using b bw by (auto simp: find_None_iff)
      moreover have "instances w = {}" using wf by (simp add: wf_world_def ids_ok_def)
      ultimately show ?thesis using objs by (auto simp: root_buffer_def buffer_referenced_def)
    qed
    then show ?thesis by blast
  qed
  ultimately show ?thesis by (simp add: swept_def restr)
qed

lemma gc_sweep_swept:
  "wf_world w \<Longrightarrow> gc_sweep roots w = Inr w' \<Longrightarrow> wf_world w' \<and> swept roots w w'"
proof (induction roots w rule: gc_sweep.induct)
  case (1 roots w)
  show ?case
  proof (cases "sweep_object roots w")
    case (Some oid)
    obtain w1 where w1: "gc_collect oid w = Inr w1" "wf_world w1"
        "objects w1 = (objects w)(oid := None)" "buffers w1 = buffers w"
      using gc_collect_wf_Inr [OF "1.prems"(1), of oid] by blast
    have "oid \<notin> set roots" using Some by (auto simp: find_Some_iff)
    then have "objects w1 |` set roots = objects w |` set roots"
      using w1(3) by (auto simp: restrict_map_def fun_eq_iff)
    moreover have "gc_sweep roots w1 = Inr w'"
      using "1.prems"(2) Some w1(1) by (simp add: gc_sweep_object gc_sweep_buffer gc_sweep_done)
    ultimately show ?thesis using "1.IH"(2) [OF Some w1(1) w1(2)] swept_cong [of w1 roots w] w1(4)
      by simp
  next
    case None
    show ?thesis
    proof (cases "sweep_buffer roots w")
      case (Some b)
      let ?w1 = "w\<lparr>buffers := (buffers w)(b := None)\<rparr>"
      have b: "b \<notin> set roots" "\<not> buffer_referenced w b"
        using Some by (auto simp: find_Some_iff)
      then have step: "api_step (Collect_buffer b) w = Inr (V_none, ?w1)" by simp
      have wf1: "wf_world ?w1" using wf_api_step [OF "1.prems"(1) step] .
      have "gc_sweep roots ?w1 = Inr w'"
        using "1.prems"(2) None Some step by (simp add: gc_sweep_object gc_sweep_buffer gc_sweep_done)
      then have IH: "wf_world w' \<and> swept roots ?w1 w'"
        using "1.IH"(1) [OF None Some step refl wf1] by simp
      have "\<And>oid obj. objects w oid = Some obj \<Longrightarrow> data_ref obj \<noteq> Some b"
        using b(2) by (auto simp: buffer_referenced_def)
      then have "\<not> root_buffer roots w b" using b(1) by (auto simp: root_buffer_def)
      then have "swept roots ?w1 w' = swept roots w w'"
        by (auto simp: swept_def root_handle_def root_buffer_def)
      then show ?thesis using IH by simp
    next
      case None2: None
      then have "w' = w" using "1.prems"(2) None by (simp add: gc_sweep_object gc_sweep_buffer gc_sweep_done)
      then show ?thesis using sweep_done [OF "1.prems"(1) None None2] "1.prems"(1) by simp
    qed
  qed
qed

lemma gc_sweep_Inr:
  "wf_world w \<Longrightarrow> \<exists>w'. gc_sweep roots w = Inr w'"
proof (induction roots w rule: gc_sweep.induct)
  case (1 roots w)
  show ?case
  proof (cases "sweep_object roots w")
    case (Some oid)
    obtain w1 where w1: "gc_collect oid w = Inr w1" "wf_world w1"
      using gc_collect_wf_Inr [OF "1.prems", of oid] by blast
    then show ?thesis using "1.IH"(2) [OF Some w1(1) w1(2)] Some by (simp add: gc_sweep_object gc_sweep_buffer gc_sweep_done)
  next
    case None
    show ?thesis
    proof (cases "sweep_buffer roots w")
      case (Some b)
      let ?w1 = "w\<lparr>buffers := (buffers w)(b := None)\<rparr>"
      have "\<not> buffer_referenced w b" using Some by (auto simp: find_Some_iff)
      then have step: "api_step (Collect_buffer b) w = Inr (V_none, ?w1)" by simp
      have wf1: "wf_world ?w1" using wf_api_step [OF "1.prems" step] .
      then show ?thesis using "1.IH"(1) [OF None Some step refl wf1] None Some step
        by (simp add: gc_sweep_object gc_sweep_buffer gc_sweep_done)
    next
      case None2: None
      then show ?thesis using None by (simp add: gc_sweep_object gc_sweep_buffer gc_sweep_done)
    qed
  qed
qed

section \<open>The bottom-up world swept\<close>

text \<open>
  Wrapper 1 borrows buffer 0. With no roots both go, the surface first; with the
  buffer as a root the wrapper goes and the buffer stays.
\<close>

lemma bottom_up_sweep_all:
  "gc_sweep [] bottom_up_world =
     Inr (init_world\<lparr>native := \<lparr>surfaces = Map.empty, next_ptr = 1\<rparr>, next_id := 2\<rparr>)"
  apply (subst gc_sweep.simps)
  apply (simp add: bottom_up_world_def bottom_up_buffer_world_def gc_collect_def
                   cairo_surface_destroy_def native_with_callbacks_def rbind_def new_image_surface_def upt_rec)
  apply (subst gc_sweep.simps)
  apply (simp add: buffer_referenced_def init_world_def upt_rec)
  apply (subst gc_sweep.simps)
  apply (simp add: buffer_referenced_def upt_rec)
  done

lemma bottom_up_sweep_root:
  "gc_sweep [0] bottom_up_world =
     Inr (bottom_up_buffer_world\<lparr>native := \<lparr>surfaces = Map.empty, next_ptr = 1\<rparr>, next_id := 2\<rparr>)"
  apply (subst gc_sweep.simps)
  apply (simp add: bottom_up_world_def bottom_up_buffer_world_def gc_collect_def
                   cairo_surface_destroy_def native_with_callbacks_def rbind_def new_image_surface_def upt_rec)
  apply (subst gc_sweep.simps)
  apply (simp add: buffer_referenced_def init_world_def upt_rec)
  done

section \<open>Properties\<close>

text \<open>
  C27. A full collection ends: from any state satisfying the lifetime invariant the sweep
  returns, without an exception or undefined behaviour, in a state that satisfies the
  invariant again. Each round reclaims one wrapper or one buffer, which the measure
  \<open>live_ids\<close> counts.
\<close>

theorem gc_sweep_terminates:
  "wf_world w \<Longrightarrow> \<exists>w'. gc_sweep roots w = Inr w' \<and> wf_world w'"
  using gc_sweep_Inr gc_sweep_swept by blast

theorem gc_sweep_terminates_witness:
  "wf_world bottom_up_world \<and> (\<exists>w'. gc_sweep [] bottom_up_world = Inr w' \<and> wf_world w')"
  using gc_sweep_terminates [OF bottom_up_wf] bottom_up_wf by blast

text \<open>
  C28. What a full collection keeps: exactly the root wrappers, the surfaces they own,
  and the buffers that are roots or that a root wrapper borrows. No other surface
  survives, so nothing leaks. No buffer a surviving wrapper borrows is reclaimed, since
  the wrapper's \<open>_data\<close> attribute keeps it alive for the wrapper's lifetime.
\<close>

theorem gc_sweep_keeps_roots:
  assumes "wf_world w" "gc_sweep roots w = Inr w'"
  shows "objects w' = objects w |` set roots \<and>
         (\<forall>a. surfaces (native w') a \<noteq> None \<longleftrightarrow>
              (\<exists>oid obj. oid \<in> set roots \<and> objects w oid = Some obj \<and> handle obj = PTR a)) \<and>
         (\<forall>b. buffers w' b \<noteq> None \<longleftrightarrow>
              buffers w b \<noteq> None \<and>
              (b \<in> set roots \<or>
               (\<exists>oid obj. oid \<in> set roots \<and> objects w oid = Some obj \<and> data_ref obj = Some b)))"
  using gc_sweep_swept [OF assms] unfolding swept_def root_handle_def root_buffer_def by blast

theorem gc_sweep_keeps_roots_witness:
  "wf_world bottom_up_world \<and>
   gc_sweep [0] bottom_up_world =
     Inr (bottom_up_buffer_world\<lparr>native := \<lparr>surfaces = Map.empty, next_ptr = 1\<rparr>, next_id := 2\<rparr>) \<and>
   buffers (bottom_up_buffer_world\<lparr>native := \<lparr>surfaces = Map.empty, next_ptr = 1\<rparr>, next_id := 2\<rparr>) 0 \<noteq> None \<and>
   surfaces (native (bottom_up_buffer_world\<lparr>native := \<lparr>surfaces = Map.empty, next_ptr = 1\<rparr>,
                                             next_id := 2\<rparr>)) 0 = None"
proof -
  let ?w' = "bottom_up_buffer_world\<lparr>native := \<lparr>surfaces = Map.empty, next_ptr = 1\<rparr>, next_id := 2\<rparr>"
  note k = gc_sweep_keeps_roots [OF bottom_up_wf bottom_up_sweep_root]
  have "buffers ?w' 0 \<noteq> None" using k by (simp add: bottom_up_world_def bottom_up_buffer_world_def)
  moreover have "surfaces (native ?w') 0 = None" using k by (simp add: bottom_up_world_def)
  ultimately show ?thesis using bottom_up_wf bottom_up_sweep_root by blast
qed

end
