(* ===== verification/Spec2Isabelle.thy ===== *)
theory Spec2Isabelle
  imports Cairo_World Cairo_Stream Cairo_Png Cairo_Program Cairo_Collector
begin

text \<open>
  \<^bold>\<open>A verification model of the cairocffi surface bindings.\<close>
  The program is \<open>src/cairocffi/surfaces.py\<close>: Python wrappers around cairo's
  \<open>cairo_surface_t\<close>. Its parts and the theories that model them:

  \<^item> \<open>Cairo_Prelude\<close>: bytes as \<open>8 word\<close>, list positions, the chunking of a byte
    string into the pieces a native callback sees, word lemmas for C arithmetic.
  \<^item> \<open>Cairo_Status\<close>: \<open>cairo_status_t\<close> with its C values, \<open>_check_status\<close> (package
    root, modelled from the spec), and \<open>py_error\<close>, the exceptions the binding raises;
    a fallible call returns \<open>py_error + 'a\<close>. Undefined native behaviour (a call on
    freed memory) is the error \<open>Native_fault\<close>.
  \<^item> \<open>Cairo_Native\<close>: the C library as the binding uses it, from the documented API:
    a store of surfaces indexed by address with reference counts, finished flags,
    device offset, fallback resolution, mime data with destroy notifications and image
    data (cairo's own pixels, or a caller's buffer); nil error surfaces as
    \<open>NIL status\<close>; \<open>cairo_format_stride_for_width\<close> in 32-bit C arithmetic
    (\<open>32 word\<close>). A call on an address that is not live returns \<open>None\<close>.
  \<^item> \<open>Cairo_KeepAlive\<close>: the Python world (\<open>world\<close>: native store, wrapper objects,
    caller buffers, KeepAlive entries and the class attribute \<open>KeepAlive.instances\<close>),
    \<open>KeepAlive\<close> (lines 48--61) and the cffi callback that runs its release lambda and
    swallows its \<open>KeyError\<close>.
  \<^item> \<open>Cairo_Surface\<close>: \<open>Surface\<close> (lines 64--147): \<open>__init__\<close> with its status check,
    \<open>_from_handle\<close> with \<open>SURFACE_TYPE_TO_CLASS\<close> (lines 215--217), every method
    but \<open>write_to_png\<close> (in \<open>Cairo_Png\<close>), and \<open>gc_collect\<close>, the \<open>ffi.gc\<close>
    finaliser that runs \<open>cairo_surface_destroy\<close> when a wrapper is reclaimed.
  \<^item> \<open>Cairo_ImageSurface\<close>: \<open>from_buffer\<close> (lines 43--45) and \<open>ImageSurface\<close>
    (lines 159--212): both constructor paths with the size check, the accessors,
    \<open>get_data\<close>, and \<open>view_read\<close>, what reading a returned \<open>ffi.buffer\<close> yields.
  \<^item> \<open>Cairo_Stream\<close>: \<open>_make_read_func\<close> / \<open>_make_write_func\<close> (lines 18--34) over
    any file object, the native loops that drive them chunk by chunk, and
    \<open>io.BytesIO\<close>, with two file objects that cannot take every byte: one whose
    \<open>write\<close> stores a prefix and returns, one whose \<open>write\<close> raises when full.
  \<^item> \<open>Cairo_PngCodec\<close>: cairo's PNG writer and reader (\<open>cairo-png.c\<close>, modelled from
    the documented behaviour of cairo 1.12--1.16): format coercion, un-premultiplication
    and premultiplication on bytes with cairo's rounding, the colour types, the reader's
    exact-size requests, and the file variants over a file system that maps C path
    strings to contents (the world's \<open>files\<close>).
  \<^item> \<open>Cairo_Png\<close>: \<open>_encode_filename\<close> (lines 37--40), \<open>Surface.write_to_png\<close>
    (lines 149--156) and \<open>ImageSurface.create_from_png\<close> (lines 183--195), each with
    its stream branch (\<open>hasattr(target, 'write')\<close>) and its file-name branch.
  \<^item> \<open>Cairo_World\<close>: a run of a Python program: method lookup through the object's
    class (\<open>call_method\<close>), the events \<open>api_step\<close> (constructors, method calls,
    reclamation of a wrapper or of an unreferenced buffer), the reachable states, and
    the lifetime invariant \<open>wf_world\<close> with its preservation lemmas.
  \<^item> \<open>Cairo_Program\<close>: a program over the whole API: the events of \<open>Cairo_World\<close> with
    \<open>write_to_png\<close> and \<open>create_from_png\<close> added (\<open>program_step\<close>, which returns the
    outcome and the world, since an export can change the file system and still raise),
    and the states such a program reaches.
  \<^item> \<open>Cairo_Collector\<close>: a full collection from a root set (\<open>gc_sweep\<close>), the
    host's collector over the binding's objects: it reclaims every wrapper outside
    the roots (\<open>gc_collect\<close>), then every buffer outside the roots that nothing
    refers to (the \<open>Collect_buffer\<close> event), until neither is left.

  How the state corresponds to the code: a wrapper object is a \<open>pysurface\<close> record
  (its class, \<open>_handle\<close>, and the identity of its \<open>_data\<close> buffer), named by an
  identity drawn from \<open>next_id\<close>; \<open>surface.__class__ = cls\<close> is \<open>set_class\<close>. Every
  method takes the object and the world and returns its value and the new world, or
  the exception; an exception is raised before the first effect in every modelled
  method, so a failed call leaves the world unchanged.

  What is proved. Per component: the stride arithmetic on \<open>32 word\<close> equals the
  mathematical rule on every Python integer (C25); the functional behaviour of
  construction, dispatch and the accessors (C14, C19); the size check and the bounds
  of a bound buffer (C12, C13), and that every aligned negative stride escapes the check
  for a buffer of any length (C6); the stream round trip and the short-read error
  (C20, C21); the KeepAlive protocol (C5).
  PNG: the round trip of a premultiplied image through a stream and through a file
  (C7, C22); that the reader behind the read adapter refines an abstract decoder on
  byte strings (C11); that an import always yields an image surface of the requested
  class (C18), that a truncated datastream raises \<open>READ_ERROR\<close> (C16) and that the
  reader stops at the end marker (C24); that an export from a surface in error or
  finished is refused untouched (C23), that a raising \<open>write\<close> is reported as
  \<open>WRITE_ERROR\<close> (C17), while a short write is not reported at all (C15), and that
  every name with an embedded NUL byte writes the file named by its prefix (C26).
  Across components: the invariant holds in every reachable state (C1, this theory)
  and in every state a program reaches with PNG export and import as well (C8); no API
  call then reaches undefined native behaviour (C2); with PNG events, only an export of
  a surface whose rows lie outside its memory can, which takes a negative stride (C9):
  the invariant keeps every row of a surface within its stride, since each constructor
  checks or computes a stride of at least \<open>cairo_format_stride_for_width\<close>;
  conversely every export of a surface with a negative stride and two rows or more
  is undefined behaviour, and such a surface is reachable through the API (C10);
  reclaiming all wrappers destroys every surface exactly once (C3), and a
  \<open>get_data\<close> view dangles once its wrapper is reclaimed (C4). A full collection ends
  in a state satisfying the invariant (C27) and keeps exactly the roots, their
  surfaces and the buffers they borrow, so it neither leaks a surface nor frees a
  borrowed buffer early (C28).

  The native library as modelled: bits per pixel as \<open>_cairo_format_bits_per_pixel\<close>
  gives them (32 for \<open>ARGB32\<close>, \<open>RGB24\<close> and \<open>RGB30\<close>, 16, 8 and 1 for the others);
  an image of width or height 0 gets no pixels from pixman, so its stride is 0 and its
  data pointer NULL, which \<open>get_data\<close> turns into an empty view.

  Not modelled: the compression and CRCs of the PNG datastream (the model's
  datastream keeps its structure: signature, header, rows, end marker), and the
  reading of 16-bit, palette, interlaced or grey-alpha PNGs, which \<open>surfaces.py\<close>
  only passes through; the host's file objects are not part of the world: an event
  gives the state of the \<open>io.BytesIO\<close> it uses;
  \<open>str\<close> file names are encoded as UTF-8, the usual file-system encoding; backends
  other than the image backend (every surface cairo creates here is an image surface,
  and the dispatch lemma covers the other type tags); threads (the GIL serialises the
  modelled code); the module header (imports, lines 1--15). No fuel is used: every
  loop of the code and of the native functions it calls runs over a list of known
  length (chunks, rows, requests, wrappers), so each is structural recursion, and a
  run of a program is a finite sequence of steps. The one loop with a termination
  argument is the collector's sweep, which is not code of the repository: it stops
  because each round removes a wrapper or a buffer below \<open>next_id\<close> (the measure
  \<open>live_ids\<close>).
\<close>

section \<open>Example run\<close>

text \<open>The world after \<open>ImageSurface(FORMAT_ARGB32, 1, 1)\<close> in a fresh process.\<close>

definition example_wrapped_world :: world where
  "example_wrapped_world =
     \<lparr>native = \<lparr>surfaces = [0 \<mapsto> example_surface], next_ptr = 1\<rparr>,
      objects = [0 \<mapsto> \<lparr>cls = ImageSurface_cls, handle = PTR 0, data_ref = None\<rparr>],
      buffers = Map.empty, keepalives = Map.empty, instances = {}, next_id = 1, files = Map.empty\<rparr>"

lemma new_image_example:
  "api_step (New_image ARGB32 1 1) init_world = Inr (V_obj 0, example_wrapped_world)"
proof -
  have "cairo_format_stride_for_width ARGB32 1 = 4"
    by (simp add: stride_for_width_eq format_valid_def)
  moreover have "replicate 4 (0::byte) = [0, 0, 0, 0]" by (simp add: numeral_eq_Suc)
  ultimately show ?thesis
    using ImageSurface_init_new [of ARGB32 1 1 init_world]
    by (simp add: format_valid_def image_size_valid_def init_world_def example_wrapped_world_def
                  example_surface_def obj_call_def)
qed

lemma reachable_example: "reachable example_wrapped_world"
  by (rule reachable.step [OF reachable.init new_image_example])

lemma wf_example: "wf_world example_wrapped_world"
  by (rule wf_api_step [OF wf_init new_image_example])

section \<open>Lifetime of native surfaces\<close>

text \<open>
  C1. Every state a program can reach through the public API satisfies the lifetime
  invariant: each wrapper owns exactly one live native surface, referenced once, of the
  class its type selects, together with the buffer it borrows; no two wrappers share a
  handle; every live surface has its wrapper; the pixels behind each data pointer exist
  with the length a view of them has, rows do not overlap (the stride's magnitude holds
  a row), and only \<open>finish\<close> takes cairo's own pixels away.
\<close>

theorem reachable_wf: "reachable w \<Longrightarrow> wf_world w"
  by (induction rule: reachable.induct) (auto intro: wf_init wf_api_step)

theorem reachable_wf_witness: "reachable example_wrapped_world \<and> wf_world example_wrapped_world"
  using reachable_wf [OF reachable_example] reachable_example by simp

text \<open>
  C2. In a state satisfying the invariant no call of the API reaches undefined native
  behaviour: no method runs on a freed or foreign surface, no finaliser destroys a
  surface twice, no constructor wraps a handle cairo does not know.
\<close>

theorem api_step_no_fault:
  assumes wf: "wf_world w"
  shows "api_step c w \<noteq> Inl Native_fault"
  using api_step_safe [OF wf] .

theorem api_step_no_fault_witness:
  "wf_world example_wrapped_world \<and>
   api_step (Call 0 M_get_data) example_wrapped_world \<noteq> Inl Native_fault"
  by (intro conjI wf_example api_step_no_fault [OF wf_example])

text \<open>
  C3. Reclaiming every wrapper frees every native surface, each exactly once: the
  finalisers all succeed (no destroy of a freed surface) and afterwards cairo holds no
  surface; the caller's buffers are left to their owners.
\<close>

theorem collect_all_frees:
  assumes "wf_world w" and "dom (objects w) \<subseteq> set oids"
  shows "\<exists>w'. collect_all oids w = Inr w' \<and> objects w' = Map.empty \<and>
              surfaces (native w') = Map.empty \<and> buffers w' = buffers w"
  using assms
proof (induction oids arbitrary: w)
  case Nil
  then have "objects w = Map.empty" by auto
  with Nil wf_no_objects show ?case by simp
next
  case (Cons oid oids)
  obtain w1 where w1: "gc_collect oid w = Inr w1" "wf_world w1"
      "objects w1 = (objects w)(oid := None)" "buffers w1 = buffers w"
    using gc_collect_wf_Inr [OF Cons.prems(1)] by blast
  have "dom (objects w1) \<subseteq> set oids" using Cons.prems(2) w1(3) by auto
  from Cons.IH [OF w1(2) this] obtain w' where "collect_all oids w1 = Inr w'"
      "objects w' = Map.empty" "surfaces (native w') = Map.empty" "buffers w' = buffers w1"
    by blast
  with w1 show ?case by simp
qed

theorem collect_all_frees_witness:
  "wf_world example_wrapped_world \<and> dom (objects example_wrapped_world) \<subseteq> set [0] \<and>
   (\<exists>w'. collect_all [0] example_wrapped_world = Inr w' \<and> objects w' = Map.empty \<and>
         surfaces (native w') = Map.empty \<and> buffers w' = buffers example_wrapped_world)"
  using collect_all_frees [OF wf_example, of "[0]"] wf_example
  by (simp add: example_wrapped_world_def)

text \<open>
  C4. \<open>ImageSurface.get_data\<close> returns a view of cairo's pixel memory that does not keep
  the surface alive: while the wrapper lives the view reads exactly the surface's pixels,
  but once the wrapper is reclaimed the finaliser frees the pixels and reading the same
  view is undefined behaviour.
\<close>

theorem get_data_view_outlives_surface:
  assumes wf: "wf_world w" and o: "objects w oid = Some obj"
    and v: "get_data obj w = Inr (Buffer_view (Native_pixels a) n)"
    and c: "api_step (Collect oid) w = Inr (r, w')"
  shows "(\<exists>s px. surfaces (native w) a = Some s \<and> img_pixels (ns_image s) = Owned_data px \<and>
                view_read (Buffer_view (Native_pixels a) n) w = Inr px) \<and>
         view_read (Buffer_view (Native_pixels a) n) w' = Inl Native_fault"
proof
  obtain s px where h: "handle obj = PTR a" and s: "surfaces (native w) a = Some s"
    and px: "img_pixels (ns_image s) = Owned_data px" and n: "n = view_size (ns_image s)"
    using get_data_Native_pixels [OF v] by blast
  have "pixels_ok w (ns_image s)" using wf s by (simp add: wf_world_def surfaces_owned_def)
  then have "length px = n" using px n by (simp add: pixels_ok_def)
  then show "\<exists>s px. surfaces (native w) a = Some s \<and> img_pixels (ns_image s) = Owned_data px \<and>
                view_read (Buffer_view (Native_pixels a) n) w = Inr px"
    using s px by (simp add: view_read_def)
  obtain a' where "handle obj = PTR a'"
    "gc_collect oid w = Inr (w\<lparr>native := (native w)\<lparr>surfaces := (surfaces (native w))(a' := None)\<rparr>,
                                 objects := (objects w)(oid := None)\<rparr>)"
    using gc_collect_live [OF wf o] by blast
  with h c show "view_read (Buffer_view (Native_pixels a) n) w' = Inl Native_fault"
    by (auto simp: view_read_def)
qed

theorem get_data_view_outlives_surface_witness:
  "wf_world example_wrapped_world \<and>
   objects example_wrapped_world 0 = Some \<lparr>cls = ImageSurface_cls, handle = PTR 0, data_ref = None\<rparr> \<and>
   get_data \<lparr>cls = ImageSurface_cls, handle = PTR 0, data_ref = None\<rparr> example_wrapped_world =
     Inr (Buffer_view (Native_pixels 0) 4) \<and>
   (\<exists>r w'. api_step (Collect 0) example_wrapped_world = Inr (r, w') \<and>
      view_read (Buffer_view (Native_pixels 0) 4) example_wrapped_world = Inr [0, 0, 0, 0] \<and>
      view_read (Buffer_view (Native_pixels 0) 4) w' = Inl Native_fault)"
proof -
  let ?obj = "\<lparr>cls = ImageSurface_cls, handle = PTR 0, data_ref = None\<rparr>"
  have o: "objects example_wrapped_world 0 = Some ?obj"
    by (simp add: example_wrapped_world_def)
  have v: "get_data ?obj example_wrapped_world = Inr (Buffer_view (Native_pixels 0) 4)"
    by (simp add: get_data_def get_stride_def get_height_def cairo_image_surface_get_data_def
                  cairo_image_surface_get_stride_def cairo_image_surface_get_height_def
                  image_query_def example_wrapped_world_def example_surface_def
                  new_image_surface_def)
  obtain w' where c: "api_step (Collect 0) example_wrapped_world = Inr (V_none, w')"
    using gc_collect_wf_Inr [OF wf_example, of 0] by auto
  have r: "view_read (Buffer_view (Native_pixels 0) 4) example_wrapped_world = Inr [0, 0, 0, 0]"
    by (simp add: view_read_def example_wrapped_world_def example_surface_def new_image_surface_def)
  show ?thesis
    using get_data_view_outlives_surface [OF wf_example o v c] wf_example o v c r by blast
qed

end
